(* ===== verification/Go_Prelude.thy ===== *)
theory Go_Prelude
  imports Main "HOL-Library.Word"
begin

text \<open>
  What every component of the development shares.

  \<^item> Machine integers: Go's \<^verbatim>\<open>int\<close> is 64 bits wide on the platforms the services are
    built for; \<open>wrap64\<close> is its wrap-around, \<open>int4_ok\<close> and \<open>int8_ok\<close> are the ranges of
    PostgreSQL's \<^verbatim>\<open>INT\<close> and \<^verbatim>\<open>BIGINT\<close> columns.
  \<^item> SQL tables: a table is the list of its rows; \<open>update_where\<close>, \<open>count_where\<close> and
    \<open>find\<close> are the statements the repositories send.
  \<^item> The world of a service: its database, the clock it reads, the UUID generator it calls
    (\<open>uuid_src\<close>, code outside the repository), the trace header of the request being served
    and a schedule of database faults. \<open>exec\<close> runs one SQL statement, and the combinators
    \<open>bindE\<close>, \<open>handleE\<close> and \<open>ignoreE\<close> are Go's three ways of treating a returned error.
  \<^item> \<open>preserves\<close>: a database invariant is kept whatever the fault schedule does. Its rules
    (collection \<open>preserve\<close>) follow the structure of the handlers.
\<close>

section \<open>Machine integers\<close>

text \<open>Go's signed 64-bit arithmetic wraps around.\<close>

definition wrap64 :: "int \<Rightarrow> int" where
  "wrap64 x = (x + 2 ^ 63) mod 2 ^ 64 - 2 ^ 63"

definition int8_ok :: "int \<Rightarrow> bool" where
  "int8_ok x \<longleftrightarrow> - (2 ^ 63) \<le> x \<and> x < 2 ^ 63"

definition int4_ok :: "int \<Rightarrow> bool" where
  "int4_ok x \<longleftrightarrow> - (2 ^ 31) \<le> x \<and> x < 2 ^ 31"

lemma wrap64_id [simp]: "int8_ok x \<Longrightarrow> wrap64 x = x"
  by (simp add: wrap64_def int8_ok_def)

lemma int8_ok_wrap64 [simp]: "int8_ok (wrap64 x)"
  by (simp add: wrap64_def int8_ok_def)

lemma wrap64_wrap64_add: "wrap64 (wrap64 x + y) = wrap64 (x + y)"
proof -
  have "wrap64 x + y + 2 ^ 63 = (x + 2 ^ 63) mod 2 ^ 64 + y"
    by (simp add: wrap64_def)
  then have "(wrap64 x + y + 2 ^ 63) mod 2 ^ 64 = (x + y + 2 ^ 63) mod 2 ^ 64"
    by (simp add: mod_simps ac_simps)
  then show ?thesis by (simp add: wrap64_def [of "wrap64 x + y"] wrap64_def [of "x + y"])
qed

lemma wrap64_add_wrap64: "wrap64 (x + wrap64 y) = wrap64 (x + y)"
  using wrap64_wrap64_add [of y x] by (simp add: add.commute)

text \<open>\<open>wrap64\<close> is the reading of a 64-bit machine word as two's complement.\<close>

lemma wrap64_sint: "wrap64 x = sint (word_of_int x :: 64 word)"
proof -
  have "sint (word_of_int x :: 64 word) = signed_take_bit 63 x"
    by (simp add: sint_sbintrunc')
  also have "\<dots> = wrap64 x"
    by (simp add: signed_take_bit_eq_take_bit_shift take_bit_eq_mod wrap64_def)
  finally show ?thesis ..
qed

section \<open>Durations\<close>

text \<open>
  Instants and durations count nanoseconds, as Go's \<^verbatim>\<open>time\<close> package does; instants
  count from Go's zero time, so \<^verbatim>\<open>time.Time{}\<close> is \<open>0\<close>.
\<close>

type_synonym time = int

abbreviation Second :: int where "Second \<equiv> 1000000000"

abbreviation Minute :: int where "Minute \<equiv> 60000000000"

section \<open>Tables\<close>

definition update_where :: "('r \<Rightarrow> bool) \<Rightarrow> ('r \<Rightarrow> 'r) \<Rightarrow> 'r list \<Rightarrow> 'r list" where
  "update_where P f rs = map (\<lambda>r. if P r then f r else r) rs"

definition count_where :: "('r \<Rightarrow> bool) \<Rightarrow> 'r list \<Rightarrow> nat" where
  "count_where P rs = length (filter P rs)"

text \<open>
  \<^verbatim>\<open>ORDER BY key ASC\<close> and \<^verbatim>\<open>ORDER BY key DESC\<close>. PostgreSQL leaves the order of
  equal keys open; the model keeps the order of insertion there. With distinct keys the order is
  determined (\<open>order_asc_unique\<close>); a property that depends on the place of a row in a list
  assumes them, or leaves open which of several rows with the same key is meant.
\<close>

definition order_asc :: "('r \<Rightarrow> int) \<Rightarrow> 'r list \<Rightarrow> 'r list" where
  "order_asc k rs = sort_key k rs"

definition order_desc :: "('r \<Rightarrow> int) \<Rightarrow> 'r list \<Rightarrow> 'r list" where
  "order_desc k rs = sort_key (\<lambda>r. - k r) rs"

text \<open>\<^verbatim>\<open>LIMIT n OFFSET m\<close>; PostgreSQL refuses negative arguments.\<close>

definition limit_offset :: "int \<Rightarrow> int \<Rightarrow> 'r list \<Rightarrow> 'r list" where
  "limit_offset l off rs = take (nat l) (drop (nat off) rs)"

named_theorems table_simps \<open>how the SQL statements act on the rows of a table\<close>

lemma length_update_where [simp]: "length (update_where P f rs) = length rs"
  by (simp add: update_where_def)

lemma update_where_Nil [simp]: "update_where P f [] = []"
  by (simp add: update_where_def)

lemma update_where_Cons [simp]:
  "update_where P f (r # rs) = (if P r then f r else r) # update_where P f rs"
  by (simp add: update_where_def)

lemma update_where_append [simp]:
  "update_where P f (rs @ rs') = update_where P f rs @ update_where P f rs'"
  by (simp add: update_where_def)

lemma ball_update_where [table_simps]:
  "(\<forall>r \<in> set (update_where P f rs). Q r) \<longleftrightarrow> (\<forall>r \<in> set rs. Q (if P r then f r else r))"
  by (induction rs) auto

lemma in_set_update_where [table_simps]:
  "x \<in> set (update_where P f rs) \<longleftrightarrow> (\<exists>r \<in> set rs. x = (if P r then f r else r))"
  by (induction rs) auto

lemma bex_update_where [table_simps]:
  "(\<exists>r \<in> set (update_where P f rs). Q r) \<longleftrightarrow> (\<exists>r \<in> set rs. Q (if P r then f r else r))"
  by (induction rs) auto

lemma update_where_none: "(\<And>r. r \<in> set rs \<Longrightarrow> \<not> P r) \<Longrightarrow> update_where P f rs = rs"
  by (induction rs) auto

lemma update_where_id: "(\<And>r. r \<in> set rs \<Longrightarrow> P r \<Longrightarrow> f r = r) \<Longrightarrow> update_where P f rs = rs"
  by (induction rs) auto

lemma map_update_where:
  "(\<And>r. g (f r) = g r) \<Longrightarrow> map g (update_where P f rs) = map g rs"
  by (induction rs) auto

lemma count_where_0 [table_simps]: "count_where P rs = 0 \<longleftrightarrow> (\<forall>r \<in> set rs. \<not> P r)"
  by (auto simp: count_where_def filter_empty_conv)

lemma count_where_Nil [simp]: "count_where P [] = 0"
  by (simp add: count_where_def)

lemma count_where_Cons [simp]:
  "count_where P (r # rs) = (if P r then Suc (count_where P rs) else count_where P rs)"
  by (simp add: count_where_def)

lemma find_update_where:
  "(\<And>r. Q (f r) = Q r) \<Longrightarrow>
   find Q (update_where P f rs) = map_option (\<lambda>r. if P r then f r else r) (find Q rs)"
  by (induction rs) auto

lemma find_SomeD: "find P rs = Some r \<Longrightarrow> r \<in> set rs \<and> P r"
  by (auto simp: find_Some_iff)

lemma find_None_iff_ball: "find P rs = None \<longleftrightarrow> (\<forall>r \<in> set rs. \<not> P r)"
  by (auto simp: find_None_iff)

lemma find_append: "find P (xs @ ys) = (case find P xs of None \<Rightarrow> find P ys | Some r \<Rightarrow> Some r)"
  by (induction xs) auto

lemma set_order_asc [simp]: "set (order_asc k rs) = set rs"
  by (simp add: order_asc_def)

lemma set_order_desc [simp]: "set (order_desc k rs) = set rs"
  by (simp add: order_desc_def)

lemma distinct_map_find:
  "distinct (map key rs) \<Longrightarrow> r \<in> set rs \<Longrightarrow> find (\<lambda>x. key x = key r) rs = Some r"
  by (induction rs) (auto simp: image_iff)

lemma count_where_key:
  "distinct (map key rs) \<Longrightarrow> count_where (\<lambda>x. key x = k \<and> P x) rs \<le> 1"
proof (induction rs)
  case (Cons r rs)
  then have "key r = k \<Longrightarrow> count_where (\<lambda>x. key x = k \<and> P x) rs = 0"
    by (auto simp: count_where_0 image_iff)
  with Cons show ?case by auto
qed simp

section \<open>The world of a service\<close>

text \<open>
  A statement sent to PostgreSQL succeeds, or fails before it took effect, or takes effect
  while the connection is lost before the reply arrives. \<open>db_error\<close> lists the errors the
  schema can raise; \<open>ConnFailed\<close> is every other failure of a statement.
\<close>

datatype fault = NoFault | FaultBefore | FaultAfter

datatype db_error =
    ConnFailed
  | NoRows
  | UniqueViolation
  | ForeignKeyViolation
  | CheckViolation
  | OutOfRange

record 'd world =
  db :: 'd
  faults :: "fault list"
  uuid_src :: "nat \<Rightarrow> string"
  uuid_ctr :: nat
  clock :: "nat \<Rightarrow> time"
  ticks :: nat
  trace_ctx :: string

type_synonym ('e, 'd, 'a) op = "'d world \<Rightarrow> ('e + 'a) \<times> 'd world"

type_synonym ('d, 'a) stmt = "'d \<Rightarrow> db_error + 'a \<times> 'd"

definition next_fault :: "'d world \<Rightarrow> fault" where
  "next_fault w = (case faults w of [] \<Rightarrow> NoFault | f # _ \<Rightarrow> f)"

definition drop_fault :: "'d world \<Rightarrow> 'd world" where
  "drop_fault w = w\<lparr>faults := tl (faults w)\<rparr>"

definition run_stmt :: "('d, 'a) stmt \<Rightarrow> 'd world \<Rightarrow> (db_error + 'a) \<times> 'd world" where
  "run_stmt q w =
     (case q (db w) of
        Inl e \<Rightarrow> (Inl e, w)
      | Inr (a, d) \<Rightarrow> (Inr a, w\<lparr>db := d\<rparr>))"

definition exec :: "('d, 'a) stmt \<Rightarrow> (db_error, 'd, 'a) op" where
  "exec q w =
     (case next_fault w of
        NoFault \<Rightarrow> run_stmt q (drop_fault w)
      | FaultBefore \<Rightarrow> (Inl ConnFailed, drop_fault w)
      | FaultAfter \<Rightarrow> (Inl ConnFailed, snd (run_stmt q (drop_fault w))))"

definition retE :: "'a \<Rightarrow> ('e, 'd, 'a) op" where
  "retE a w = (Inr a, w)"

definition failE :: "'e \<Rightarrow> ('e, 'd, 'a) op" where
  "failE e w = (Inl e, w)"

text \<open>\<^verbatim>\<open>if err != nil { return err }\<close>\<close>

definition bindE :: "('e, 'd, 'a) op \<Rightarrow> ('a \<Rightarrow> ('e, 'd, 'b) op) \<Rightarrow> ('e, 'd, 'b) op" where
  "bindE f k w = (case f w of (Inl e, w') \<Rightarrow> (Inl e, w') | (Inr a, w') \<Rightarrow> k a w')"

text \<open>\<^verbatim>\<open>if err != nil { ... } else { ... }\<close>: the error is turned into something else.\<close>

definition handleE ::
    "('e, 'd, 'a) op \<Rightarrow> ('e \<Rightarrow> ('f, 'd, 'b) op) \<Rightarrow> ('a \<Rightarrow> ('f, 'd, 'b) op) \<Rightarrow> ('f, 'd, 'b) op" where
  "handleE f h k w = (case f w of (Inl e, w') \<Rightarrow> h e w' | (Inr a, w') \<Rightarrow> k a w')"

text \<open>\<^verbatim>\<open>_ = f()\<close>: the error is dropped.\<close>

definition ignoreE :: "('e, 'd, 'a) op \<Rightarrow> ('f, 'd, 'b) op \<Rightarrow> ('f, 'd, 'b) op" where
  "ignoreE f k w = k (snd (f w))"

definition newUUID :: "('e, 'd, string) op" where
  "newUUID w = (Inr (uuid_src w (uuid_ctr w)), w\<lparr>uuid_ctr := Suc (uuid_ctr w)\<rparr>)"

definition readClock :: "('e, 'd, time) op" where
  "readClock w = (Inr (clock w (ticks w)), w\<lparr>ticks := Suc (ticks w)\<rparr>)"

named_theorems op_defs \<open>the combinators of the service model\<close>

lemmas combinator_defs [op_defs] =
  retE_def failE_def bindE_def handleE_def ignoreE_def newUUID_def readClock_def

definition mapErr :: "('e \<Rightarrow> 'f) \<Rightarrow> ('e, 'd, 'a) op \<Rightarrow> ('f, 'd, 'a) op" where
  "mapErr g f w = (case f w of (Inl e, w') \<Rightarrow> (Inl (g e), w') | (Inr a, w') \<Rightarrow> (Inr a, w'))"

text \<open>A run of a composed operation, taken apart into the runs of its parts.\<close>

named_theorems run_inv \<open>a result of a composed operation in terms of its parts\<close>

lemma bindE_Inr [run_inv]:
  "bindE f k w = (Inr b, w') \<longleftrightarrow> (\<exists>a w1. f w = (Inr a, w1) \<and> k a w1 = (Inr b, w'))"
  by (auto simp: bindE_def split: prod.splits sum.splits)

lemma bindE_Inl [run_inv]:
  "bindE f k w = (Inl e, w') \<longleftrightarrow>
   f w = (Inl e, w') \<or> (\<exists>a w1. f w = (Inr a, w1) \<and> k a w1 = (Inl e, w'))"
  by (auto simp: bindE_def split: prod.splits sum.splits)

lemma handleE_run [run_inv]:
  "handleE f h k w = (r, w') \<longleftrightarrow>
   (\<exists>e w1. f w = (Inl e, w1) \<and> h e w1 = (r, w')) \<or> (\<exists>a w1. f w = (Inr a, w1) \<and> k a w1 = (r, w'))"
  by (auto simp: handleE_def split: prod.splits sum.splits)

lemma ignoreE_run [run_inv]:
  "ignoreE f k w = (r, w') \<longleftrightarrow> (\<exists>r1 w1. f w = (r1, w1) \<and> k w1 = (r, w'))"
  by (cases "f w") (simp add: ignoreE_def)

lemma mapErr_run [run_inv]:
  "mapErr g f w = (Inr a, w') \<longleftrightarrow> f w = (Inr a, w')"
  "mapErr g f w = (Inl e', w') \<longleftrightarrow> (\<exists>e. e' = g e \<and> f w = (Inl e, w'))"
  by (auto simp: mapErr_def split: prod.splits sum.splits)

lemma basic_run [run_inv]:
  "retE a w = (r, w') \<longleftrightarrow> r = Inr a \<and> w' = w"
  "failE e w = (r, w') \<longleftrightarrow> r = Inl e \<and> w' = w"
  by (auto simp: retE_def failE_def)

lemma readClock_run [run_inv]:
  "readClock w = (r, w') \<longleftrightarrow> r = Inr (clock w (ticks w)) \<and> w' = w\<lparr>ticks := Suc (ticks w)\<rparr>"
  by (auto simp: readClock_def)

lemma newUUID_run [run_inv]:
  "newUUID w = (r, w') \<longleftrightarrow> r = Inr (uuid_src w (uuid_ctr w)) \<and> w' = w\<lparr>uuid_ctr := Suc (uuid_ctr w)\<rparr>"
  by (auto simp: newUUID_def)

section \<open>Execution without faults\<close>

text \<open>A world whose fault schedule is empty runs every statement as PostgreSQL would.\<close>

abbreviation calm :: "'d world \<Rightarrow> bool" where
  "calm w \<equiv> faults w = []"

lemma exec_calm [simp]: "calm w \<Longrightarrow> exec q w = run_stmt q w"
  by (cases w) (simp add: exec_def next_fault_def drop_fault_def)

lemma run_stmt_Inl: "q (db w) = Inl e \<Longrightarrow> run_stmt q w = (Inl e, w)"
  by (simp add: run_stmt_def)

lemma run_stmt_Inr: "q (db w) = Inr (a, d) \<Longrightarrow> run_stmt q w = (Inr a, w\<lparr>db := d\<rparr>)"
  by (simp add: run_stmt_def)

section \<open>Invariants under every fault schedule\<close>

definition preserves :: "('d \<Rightarrow> bool) \<Rightarrow> ('e, 'd, 'a) op \<Rightarrow> bool" where
  "preserves I f \<longleftrightarrow> (\<forall>w. I (db w) \<longrightarrow> I (db (snd (f w))))"

named_theorems preserve \<open>rules that an operation keeps a database invariant\<close>

lemma preservesI: "(\<And>w. I (db w) \<Longrightarrow> I (db (snd (f w)))) \<Longrightarrow> preserves I f"
  by (simp add: preserves_def)

lemma preservesD: "preserves I f \<Longrightarrow> I (db w) \<Longrightarrow> I (db (snd (f w)))"
  by (simp add: preserves_def)

lemma db_drop_fault [simp]: "db (drop_fault w) = db w"
  by (simp add: drop_fault_def)

lemma preserves_exec [preserve]:
  fixes q :: "('d, 'a) stmt"
  assumes "\<And>d a d'. I d \<Longrightarrow> q d = Inr (a, d') \<Longrightarrow> I d'"
  shows "preserves I (exec q)"
proof (rule preservesI)
  fix w :: "'d world"
  assume "I (db w)"
  then have "I (db (snd (run_stmt q (drop_fault w))))"
    using assms by (auto simp: run_stmt_def split: sum.splits)
  then show "I (db (snd (exec q w)))"
    using \<open>I (db w)\<close> by (auto simp: exec_def split: fault.splits)
qed

lemma preserves_retE [preserve]: "preserves I (retE a)"
  by (simp add: preserves_def retE_def)

lemma preserves_failE [preserve]: "preserves I (failE e)"
  by (simp add: preserves_def failE_def)

lemma preserves_newUUID [preserve]: "preserves I newUUID"
  by (simp add: preserves_def newUUID_def)

lemma preserves_readClock [preserve]: "preserves I readClock"
  by (simp add: preserves_def readClock_def)

lemma preserves_bindE [preserve]:
  "preserves I f \<Longrightarrow> (\<And>a. preserves I (k a)) \<Longrightarrow> preserves I (bindE f k)"
  by (fastforce simp: preserves_def bindE_def split: prod.splits sum.splits)

lemma preserves_handleE [preserve]:
  "preserves I f \<Longrightarrow> (\<And>e. preserves I (h e)) \<Longrightarrow> (\<And>a. preserves I (k a)) \<Longrightarrow>
   preserves I (handleE f h k)"
  by (fastforce simp: preserves_def handleE_def split: prod.splits sum.splits)

lemma preserves_ignoreE [preserve]:
  "preserves I f \<Longrightarrow> preserves I k \<Longrightarrow> preserves I (ignoreE f k)"
  by (simp add: preserves_def ignoreE_def)

lemma preserves_if [preserve]:
  "(b \<Longrightarrow> preserves I f) \<Longrightarrow> (\<not> b \<Longrightarrow> preserves I g) \<Longrightarrow> preserves I (if b then f else g)"
  by simp

section \<open>Transactions\<close>

text \<open>
  \<^verbatim>\<open>tx, err := pool.Begin(ctx); defer tx.Rollback(ctx); ...; tx.Commit(ctx)\<close>: the body says
  whether it reached the commit. Nothing of a transaction that did not commit is kept.
\<close>

definition withTx :: "(db_error \<Rightarrow> 'e) \<Rightarrow> ('e, 'd, 'a \<times> bool) op \<Rightarrow> ('e, 'd, 'a) op" where
  "withTx wrap body w =
     (case exec (\<lambda>d. Inr ((), d)) w of
        (Inl e, w1) \<Rightarrow> (Inl (wrap e), w1)
      | (Inr _, w1) \<Rightarrow>
          (case body w1 of
             (Inl e, w2) \<Rightarrow> (Inl e, w2\<lparr>db := db w1\<rparr>)
           | (Inr (a, commit), w2) \<Rightarrow>
               if \<not> commit then (Inr a, w2\<lparr>db := db w1\<rparr>)
               else (case next_fault w2 of
                       NoFault \<Rightarrow> (Inr a, drop_fault w2)
                     | FaultBefore \<Rightarrow> (Inl (wrap ConnFailed), (drop_fault w2)\<lparr>db := db w1\<rparr>)
                     | FaultAfter \<Rightarrow> (Inl (wrap ConnFailed), drop_fault w2))))"

lemma preserves_mapErr [preserve]: "preserves I f \<Longrightarrow> preserves I (mapErr g f)"
  by (fastforce simp: preserves_def mapErr_def split: prod.splits sum.splits)

lemma run_stmt_noop [simp]: "run_stmt (\<lambda>d. Inr (a, d)) w = (Inr a, w)"
  by (cases w) (simp add: run_stmt_def)

lemma withTx_db_cases:
  "db (snd (withTx wrap body w)) = db w \<or>
   (\<exists>w1 a w2. db w1 = db w \<and> body w1 = (Inr (a, True), w2) \<and> db (snd (withTx wrap body w)) = db w2)"
proof -
  obtain r w1 where ex: "exec (\<lambda>d. Inr ((), d)) w = (r, w1)" by fastforce
  then have db1: "db w1 = db w"
    by (auto simp: exec_def split: fault.splits)
  obtain b w2 where bd: "body w1 = (b, w2)" by fastforce
  show ?thesis
    using ex bd db1
    by (cases r; cases b; cases "next_fault w2") (auto simp: withTx_def split: if_splits)
qed

lemma preserves_withTx:
  fixes body :: "('e, 'd, 'a \<times> bool) op"
  assumes "\<And>w a w'. I (db w) \<Longrightarrow> body w = (Inr (a, True), w') \<Longrightarrow> I (db w')"
  shows "preserves I (withTx wrap body)"
proof (rule preservesI)
  fix w :: "'d world"
  assume "I (db w)"
  then show "I (db (snd (withTx wrap body w)))"
    using withTx_db_cases [of wrap body w] assms by (metis (no_types, lifting))
qed

section \<open>Triples\<close>

text \<open>
  \<open>hoare P f Q E\<close>: from a database with \<open>P\<close>, a run of \<open>f\<close> that returns \<open>a\<close> ends in
  \<open>Q a\<close> and a run that fails ends in \<open>E\<close>, whatever the fault schedule.
\<close>

definition hoare ::
    "('d \<Rightarrow> bool) \<Rightarrow> ('e, 'd, 'a) op \<Rightarrow> ('a \<Rightarrow> 'd \<Rightarrow> bool) \<Rightarrow> ('d \<Rightarrow> bool) \<Rightarrow> bool" where
  "hoare P f Q E \<longleftrightarrow>
     (\<forall>w r w'. P (db w) \<longrightarrow> f w = (r, w') \<longrightarrow> (case r of Inl e \<Rightarrow> E (db w') | Inr a \<Rightarrow> Q a (db w')))"

named_theorems triple \<open>rules for triples\<close>

lemma hoareI:
  "(\<And>w a w'. P (db w) \<Longrightarrow> f w = (Inr a, w') \<Longrightarrow> Q a (db w')) \<Longrightarrow>
   (\<And>w e w'. P (db w) \<Longrightarrow> f w = (Inl e, w') \<Longrightarrow> E (db w')) \<Longrightarrow> hoare P f Q E"
  by (auto simp: hoare_def split: sum.splits)

lemma hoare_preserves: "hoare I f (\<lambda>_. I) I \<longleftrightarrow> preserves I f"
  by (auto simp: hoare_def preserves_def split: sum.splits) (metis prod.collapse sum.exhaust)+

lemma hoare_bindE [triple]:
  "hoare P f Q E \<Longrightarrow> (\<And>a. hoare (Q a) (k a) R E) \<Longrightarrow> hoare P (bindE f k) R E"
  by (fastforce simp: hoare_def bindE_def split: prod.splits sum.splits)

lemma hoare_handleE [triple]:
  "hoare P f Q F \<Longrightarrow> (\<And>e. hoare F (h e) R E) \<Longrightarrow> (\<And>a. hoare (Q a) (k a) R E) \<Longrightarrow>
   hoare P (handleE f h k) R E"
  by (fastforce simp: hoare_def handleE_def split: prod.splits sum.splits)

lemma hoare_ignoreE [triple]:
  assumes f: "hoare P f (\<lambda>_. Q) Q" and k: "hoare Q k R E"
  shows "hoare P (ignoreE f k) R E"
  unfolding hoare_def
proof (intro allI impI)
  fix w r w' assume P: "P (db w)" and r: "ignoreE f k w = (r, w')"
  have "Q (db (snd (f w)))"
    using f P unfolding hoare_def by (cases "f w"; cases "fst (f w)") fastforce+
  with k r show "case r of Inl e \<Rightarrow> E (db w') | Inr a \<Rightarrow> R a (db w')"
    by (simp add: hoare_def ignoreE_def)
qed

lemma hoare_mapErr [triple]: "hoare P f Q E \<Longrightarrow> hoare P (mapErr g f) Q E"
  by (fastforce simp: hoare_def mapErr_def split: prod.splits sum.splits)

lemma hoare_retE [triple]: "(\<And>d. P d \<Longrightarrow> Q a d) \<Longrightarrow> hoare P (retE a) Q E"
  by (simp add: hoare_def retE_def)

lemma hoare_failE [triple]: "(\<And>d. P d \<Longrightarrow> E d) \<Longrightarrow> hoare P (failE e) Q E"
  by (simp add: hoare_def failE_def)

lemma hoare_readClock [triple]: "hoare P readClock (\<lambda>_. P) E"
  by (simp add: hoare_def readClock_def)

lemma hoare_newUUID [triple]: "hoare P newUUID (\<lambda>_. P) E"
  by (simp add: hoare_def newUUID_def)

lemma hoare_if [triple]:
  "(b \<Longrightarrow> hoare P f Q E) \<Longrightarrow> (\<not> b \<Longrightarrow> hoare P g Q E) \<Longrightarrow> hoare P (if b then f else g) Q E"
  by simp

lemma hoare_pre: "hoare P f Q E \<Longrightarrow> (\<And>d. P' d \<Longrightarrow> P d) \<Longrightarrow> hoare P' f Q E"
  by (auto simp: hoare_def)

lemma hoare_same: "hoare P f (\<lambda>_. Q) Q \<Longrightarrow> P (db w) \<Longrightarrow> f w = (r, w') \<Longrightarrow> Q (db w')"
  by (cases r) (fastforce simp: hoare_def)+

lemma hoare_post:
  "hoare P f Q E \<Longrightarrow> (\<And>a d. Q a d \<Longrightarrow> Q' a d) \<Longrightarrow> (\<And>d. E d \<Longrightarrow> E' d) \<Longrightarrow> hoare P f Q' E'"
  by (fastforce simp: hoare_def split: sum.splits)

lemma exec_Inr:
  assumes "exec q w = (Inr a, w')"
  shows "q (db w) = Inr (a, db w')" "w' = (drop_fault w)\<lparr>db := db w'\<rparr>"
  using assms by (auto simp: exec_def run_stmt_def split: fault.splits sum.splits)

lemma exec_Inl:
  assumes "exec q w = (Inl e, w')"
  shows "db w' = db w \<or> (\<exists>a. q (db w) = Inr (a, db w'))"
  using assms by (auto simp: exec_def run_stmt_def split: fault.splits sum.splits)

lemma exec_cases:
  assumes "exec q w = (r, w')"
  obtains "db w' = db w" | a where "q (db w) = Inr (a, db w')"
  using assms by (auto simp: exec_def run_stmt_def split: fault.splits sum.splits)

text \<open>A statement that fails may still have been applied (\<open>FaultAfter\<close>).\<close>

lemma hoare_exec [triple]:
  assumes "\<And>d a d'. P d \<Longrightarrow> q d = Inr (a, d') \<Longrightarrow> Q a d'"
    and "\<And>d. P d \<Longrightarrow> E d" and "\<And>d a d'. P d \<Longrightarrow> q d = Inr (a, d') \<Longrightarrow> E d'"
  shows "hoare P (exec q) Q E"
  by (rule hoareI) (use assms exec_Inr exec_Inl in metis)+

lemma hoare_withTx:
  assumes body: "\<And>w a c w'. P (db w) \<Longrightarrow> body w = (Inr (a, c), w') \<Longrightarrow> if c then Q a (db w') else Q a (db w)"
    and E: "\<And>d. P d \<Longrightarrow> E d" "\<And>a d. Q a d \<Longrightarrow> E d"
  shows "hoare P (withTx wrap body) Q E"
proof (rule hoareI)
  fix w a w' assume P: "P (db w)" and r: "withTx wrap body w = (Inr a, w')"
  obtain x w1 where ex: "exec (\<lambda>d. Inr ((), d)) w = (Inr x, w1)"
    using r by (auto simp: withTx_def split: prod.splits sum.splits)
  then have db1: "db w1 = db w" using exec_Inr by fastforce
  obtain c w2 where b: "body w1 = (Inr (a, c), w2)" "db w' = (if c then db w2 else db w1)"
    using r ex by (auto simp: withTx_def split: prod.splits sum.splits if_splits fault.splits)
  then show "Q a (db w')" using body [of w1 a c w2] P db1 by (auto split: if_splits)
next
  fix w e w' assume P: "P (db w)" and r: "withTx wrap body w = (Inl e, w')"
  consider "db w' = db w" | w1 a w2 where "db w1 = db w" "body w1 = (Inr (a, True), w2)" "db w' = db w2"
    using withTx_db_cases [of wrap body w] r by auto
  then show "E (db w')"
  proof cases
    case 1
    with P E(1) show ?thesis by simp
  next
    case 2
    with body [of w1 a True w2] P E(2) show ?thesis by auto
  qed
qed

lemma withTx_Inr:
  assumes "withTx wr body w = (Inr a, w')"
  obtains w1 c w2 where "db w1 = db w" "body w1 = (Inr (a, c), w2)" "db w' = (if c then db w2 else db w)"
proof -
  obtain x w1 where e: "exec (\<lambda>d. Inr ((), d)) w = (Inr x, w1)"
    using assms by (auto simp: withTx_def split: prod.splits sum.splits)
  then have db1: "db w1 = db w" using exec_Inr(1) by fastforce
  obtain c w2 where "body w1 = (Inr (a, c), w2)" "db w' = (if c then db w2 else db w1)"
    using assms e by (auto simp: withTx_def split: prod.splits sum.splits if_splits fault.splits)
  with db1 that show thesis by metis
qed

text \<open>Operations that only read leave the database as it is on every path.\<close>

definition read_only :: "('e, 'd, 'a) op \<Rightarrow> bool" where
  "read_only f \<longleftrightarrow> (\<forall>w. db (snd (f w)) = db w)"

named_theorems reading \<open>rules for read-only operations\<close>

lemma read_onlyD: "read_only f \<Longrightarrow> f w = (r, w') \<Longrightarrow> db w' = db w"
  by (metis read_only_def snd_conv)

lemma read_only_exec [reading]:
  "(\<And>d a d'. q d = Inr (a, d') \<Longrightarrow> d' = d) \<Longrightarrow> read_only (exec q)"
  by (fastforce simp: read_only_def exec_def run_stmt_def split: fault.splits sum.splits)

lemma read_only_basic [reading]:
  "read_only (retE a)" "read_only (failE e)" "read_only readClock" "read_only newUUID"
  by (simp_all add: read_only_def op_defs)

lemma read_only_mapErr [reading]: "read_only f \<Longrightarrow> read_only (mapErr g f)"
  by (auto simp: read_only_def mapErr_def split: prod.splits sum.splits) (metis snd_conv)+

lemma read_only_bindE [reading]: "read_only f \<Longrightarrow> (\<And>a. read_only (k a)) \<Longrightarrow> read_only (bindE f k)"
  by (auto simp: read_only_def bindE_def split: prod.splits sum.splits) (metis snd_conv)+

lemma read_only_handleE [reading]:
  "read_only f \<Longrightarrow> (\<And>e. read_only (h e)) \<Longrightarrow> (\<And>a. read_only (k a)) \<Longrightarrow> read_only (handleE f h k)"
  by (auto simp: read_only_def handleE_def split: prod.splits sum.splits) (metis snd_conv)+

lemma read_only_ignoreE [reading]: "read_only f \<Longrightarrow> read_only k \<Longrightarrow> read_only (ignoreE f k)"
  by (simp add: read_only_def ignoreE_def)

lemma read_only_if [reading]:
  "(b \<Longrightarrow> read_only f) \<Longrightarrow> (\<not> b \<Longrightarrow> read_only g) \<Longrightarrow> read_only (if b then f else g)"
  by simp

lemma read_only_preserves: "read_only f \<Longrightarrow> preserves I f"
  by (simp add: read_only_def preserves_def)

lemma hoare_read_only:
  assumes "read_only f" "\<And>w a w'. P (db w) \<Longrightarrow> f w = (Inr a, w') \<Longrightarrow> Q a (db w)"
  shows "hoare P f (\<lambda>a d. P d \<and> Q a d) P"
  by (rule hoareI) (use assms read_onlyD in metis)+

lemma hoare_reading: "read_only f \<Longrightarrow> (\<And>d. P d \<Longrightarrow> E d) \<Longrightarrow> hoare P f (\<lambda>_. P) E"
  by (rule hoareI) (metis read_onlyD)+

text \<open>Without faults a committed transaction is its body, and any other leaves no trace.\<close>

lemma withTx_calm:
  assumes "calm w" "body w = (r, w2)" "calm w2"
  shows "withTx wrap body w =
    (case r of
       Inl e \<Rightarrow> (Inl e, w2\<lparr>db := db w\<rparr>)
     | Inr (a, commit) \<Rightarrow> (Inr a, if commit then w2 else w2\<lparr>db := db w\<rparr>))"
  using assms
  by (cases w2) (auto simp: withTx_def next_fault_def drop_fault_def split: sum.splits)

text \<open>
  A link is \<open>clear\<close> when no statement is applied while its reply is lost: every error the
  service sees then means that the statement had no effect.
\<close>

abbreviation clear :: "'d world \<Rightarrow> bool" where
  "clear w \<equiv> FaultAfter \<notin> set (faults w)"

text \<open>Operations use up the schedule: they add no fault to it, so a clear link stays clear and a calm world calm.\<close>

definition keeps_clear :: "('e, 'd, 'a) op \<Rightarrow> bool" where
  "keeps_clear f \<longleftrightarrow> (\<forall>w. set (faults (snd (f w))) \<subseteq> set (faults w))"

named_theorems clearing \<open>rules that an operation keeps the link clear\<close>

lemma keeps_clearD: "keeps_clear f \<Longrightarrow> clear w \<Longrightarrow> f w = (r, w') \<Longrightarrow> clear w'"
  unfolding keeps_clear_def by (metis snd_conv subsetD)

lemma keeps_calm: "keeps_clear f \<Longrightarrow> calm w \<Longrightarrow> f w = (r, w') \<Longrightarrow> calm w'"
  unfolding keeps_clear_def by (metis set_empty snd_conv subset_empty)

lemma faults_drop_fault: "set (faults (drop_fault w)) \<subseteq> set (faults w)"
  by (cases "faults w") (auto simp: drop_fault_def)

lemma keeps_clear_exec [clearing]: "keeps_clear (exec q)"
  unfolding keeps_clear_def
proof
  fix w
  show "set (faults (snd (exec q w))) \<subseteq> set (faults w)"
    using faults_drop_fault [of w] by (auto simp: exec_def run_stmt_def split: fault.splits sum.splits)
qed

lemma keeps_clear_basic [clearing]:
  "keeps_clear (retE a)" "keeps_clear (failE e)" "keeps_clear readClock" "keeps_clear newUUID"
  by (simp_all add: keeps_clear_def op_defs)

lemma keeps_clear_mapErr [clearing]: "keeps_clear f \<Longrightarrow> keeps_clear (mapErr g f)"
  by (fastforce simp: keeps_clear_def mapErr_def split: prod.splits sum.splits)

lemma keeps_clear_bindE [clearing]: "keeps_clear f \<Longrightarrow> (\<And>a. keeps_clear (k a)) \<Longrightarrow> keeps_clear (bindE f k)"
  by (fastforce simp: keeps_clear_def bindE_def split: prod.splits sum.splits)

lemma keeps_clear_handleE [clearing]:
  "keeps_clear f \<Longrightarrow> (\<And>e. keeps_clear (h e)) \<Longrightarrow> (\<And>a. keeps_clear (k a)) \<Longrightarrow> keeps_clear (handleE f h k)"
  by (fastforce simp: keeps_clear_def handleE_def split: prod.splits sum.splits)

lemma keeps_clear_ignoreE [clearing]: "keeps_clear f \<Longrightarrow> keeps_clear k \<Longrightarrow> keeps_clear (ignoreE f k)"
  by (fastforce simp: keeps_clear_def ignoreE_def)

lemma keeps_clear_withTx [clearing]:
  fixes body :: "('e, 'd, 'a \<times> bool) op"
  assumes "keeps_clear body"
  shows "keeps_clear (withTx wr body)"
  unfolding keeps_clear_def
proof
  fix w :: "'d world"
  obtain r1 w1 where ex: "exec (\<lambda>d. Inr ((), d)) w = (r1, w1)" by fastforce
  obtain r2 w2 where b: "body w1 = (r2, w2)" by fastforce
  have "set (faults w1) \<subseteq> set (faults w)" using keeps_clear_exec ex unfolding keeps_clear_def by (metis snd_conv)
  moreover have "set (faults w2) \<subseteq> set (faults w1)" using assms b unfolding keeps_clear_def by (metis snd_conv)
  ultimately show "set (faults (snd (withTx wr body w))) \<subseteq> set (faults w)"
    using faults_drop_fault [of w2] ex b by (auto simp: withTx_def split: sum.splits fault.splits if_splits)
qed

lemma keeps_clear_if [clearing]:
  "(b \<Longrightarrow> keeps_clear f) \<Longrightarrow> (\<not> b \<Longrightarrow> keeps_clear g) \<Longrightarrow> keeps_clear (if b then f else g)"
  by simp

lemma clear_next_fault: "clear w \<Longrightarrow> next_fault w \<noteq> FaultAfter"
  by (auto simp: next_fault_def split: list.splits)

lemma withTx_clear_Inl:
  assumes "keeps_clear body" "clear w" "withTx wr body w = (Inl e, w')"
  shows "db w' = db w"
proof -
  obtain r1 w1 where ex: "exec (\<lambda>d. Inr ((), d)) w = (r1, w1)" by fastforce
  have db1: "db w1 = db w" using ex by (auto simp: exec_def split: fault.splits)
  have c1: "clear w1" by (rule keeps_clearD [OF keeps_clear_exec assms(2) ex])
  obtain r2 w2 where b: "body w1 = (r2, w2)" by fastforce
  have "next_fault w2 \<noteq> FaultAfter"
    by (rule clear_next_fault [OF keeps_clearD [OF assms(1) c1 b]])
  then show ?thesis
    using assms(3) ex b db1
    by (auto simp: withTx_def split: sum.splits if_splits fault.splits)
qed

section \<open>Worlds that differ in the database only\<close>

lemma calm_run_stmt [simp]: "faults (snd (run_stmt q w)) = faults w"
  by (auto simp: run_stmt_def split: sum.splits)

text \<open>Go's integer division truncates towards zero.\<close>

definition go_div :: "int \<Rightarrow> int \<Rightarrow> int" where
  "go_div a b = sgn a * sgn b * (\<bar>a\<bar> div \<bar>b\<bar>)"

lemma go_div_nonneg: "0 \<le> a \<Longrightarrow> 0 < b \<Longrightarrow> go_div a b = a div b"
  by (cases "a = 0") (simp_all add: go_div_def)

end
