(* ===== verification/Dto.thy ===== *)
theory Dto
  imports Go_Prelude
begin

text \<open>
  Package \<^verbatim>\<open>pkg/dto\<close>: roles, event statuses and the payloads of the Kafka topics, with
  their JSON form. A JSON document is a \<open>json\<close> value (the text syntax of JSON is not
  modelled); \<open>marshal_*\<close> and \<open>unmarshal_*\<close> are what \<^verbatim>\<open>encoding/json\<close> does with the field
  tags of the structs. Field names are compared exactly (\<^verbatim>\<open>encoding/json\<close> also accepts
  other casings of a name), and numbers with a fraction are not represented. A string in the form of
  RFC 3339 is a \<open>JTime\<close>, every other string a \<open>JStr\<close>; identifiers, names and addresses are taken
  to be of the second kind.
\<close>

section \<open>JSON\<close>

datatype json =
    JNull
  | JBool bool
  | JNum int
  | JStr string
  | JTime time
  | JArr "json list"
  | JObj "(string \<times> json) list"

text \<open>
  The values of the fields named \<open>k\<close> are decoded in the order of the document: null leaves what
  is there, a value of the wrong type is an error of the whole call, and a nested object is
  decoded into what an earlier one left.
\<close>

definition dec_field :: "('a \<Rightarrow> json \<Rightarrow> 'a option) \<Rightarrow> 'a \<Rightarrow> string \<Rightarrow> (string \<times> json) list \<Rightarrow> 'a option" where
  "dec_field get zero k kvs =
     foldl (\<lambda>acc (key, j). if key \<noteq> k \<or> j = JNull then acc else Option.bind acc (\<lambda>old. get old j)) (Some zero) kvs"

fun get_str :: "string \<Rightarrow> json \<Rightarrow> string option" where
  "get_str old (JStr s) = Some s"
| "get_str old _ = None"

fun get_time :: "time \<Rightarrow> json \<Rightarrow> time option" where
  "get_time old (JTime t) = Some t"
| "get_time old _ = None"

fun get_int :: "int \<Rightarrow> json \<Rightarrow> int option" where
  "get_int old (JNum n) = (if int8_ok n then Some n else None)"
| "get_int old _ = None"

fun get_obj :: "(string \<times> json) list \<Rightarrow> json \<Rightarrow> (string \<times> json) list option" where
  "get_obj old (JObj kvs) = Some (old @ kvs)"
| "get_obj old _ = None"

abbreviation dec_str :: "string \<Rightarrow> (string \<times> json) list \<Rightarrow> string option" where
  "dec_str \<equiv> dec_field get_str ''''"

abbreviation dec_time :: "string \<Rightarrow> (string \<times> json) list \<Rightarrow> time option" where
  "dec_time \<equiv> dec_field get_time 0"

abbreviation dec_int :: "string \<Rightarrow> (string \<times> json) list \<Rightarrow> int option" where
  "dec_int \<equiv> dec_field get_int 0"

abbreviation dec_obj :: "string \<Rightarrow> (string \<times> json) list \<Rightarrow> (string \<times> json) list option" where
  "dec_obj \<equiv> dec_field get_obj []"

text \<open>
  An array of structs; the last array named \<open>k\<close> counts. The structs are decoded into fresh ones
  (\<^verbatim>\<open>encoding/json\<close> would reuse the elements of an earlier array of the same name).
\<close>

definition dec_list :: "(json \<Rightarrow> 'a option) \<Rightarrow> string \<Rightarrow> (string \<times> json) list \<Rightarrow> 'a list option" where
  "dec_list dec k kvs = dec_field (\<lambda>old j. case j of JArr js \<Rightarrow> those (map dec js) | _ \<Rightarrow> None) [] k kvs"

text \<open>The top level of a document that is decoded into a struct.\<close>

fun dec_top :: "json \<Rightarrow> (string \<times> json) list option" where
  "dec_top JNull = Some []"
| "dec_top (JObj kvs) = Some kvs"
| "dec_top _ = None"

section \<open>Roles and statuses\<close>

type_synonym role = string

abbreviation RoleAdmin :: role where "RoleAdmin \<equiv> ''admin''"
abbreviation RoleEO :: role where "RoleEO \<equiv> ''eo''"
abbreviation RoleCustomer :: role where "RoleCustomer \<equiv> ''customer''"

type_synonym event_status = string

abbreviation EventStatusDraft :: event_status where "EventStatusDraft \<equiv> ''draft''"
abbreviation EventStatusPending :: event_status where "EventStatusPending \<equiv> ''pending''"
abbreviation EventStatusPublished :: event_status where "EventStatusPublished \<equiv> ''published''"
abbreviation EventStatusRejected :: event_status where "EventStatusRejected \<equiv> ''rejected''"
abbreviation EventStatusCancelled :: event_status where "EventStatusCancelled \<equiv> ''cancelled''"

section \<open>Event payloads\<close>

record EventCancelled =
  ec_EventID :: string
  ec_At :: time

record PaymentCompleted =
  pc_TransactionID :: string
  pc_BookingID :: string
  pc_EventID :: string
  pc_UserID :: string
  pc_At :: time

record PaymentExpired =
  px_TransactionID :: string
  px_BookingID :: string
  px_EventID :: string
  px_UserID :: string
  px_Reason :: string
  px_At :: time

record TicketIssued =
  ti_TicketID :: string
  ti_BookingID :: string
  ti_UserID :: string
  ti_EventID :: string
  ti_TicketTypeID :: string

definition marshal_EventCancelled :: "EventCancelled \<Rightarrow> json" where
  "marshal_EventCancelled m = JObj [(''event_id'', JStr (ec_EventID m)), (''at'', JTime (ec_At m))]"

definition marshal_PaymentCompleted :: "PaymentCompleted \<Rightarrow> json" where
  "marshal_PaymentCompleted m = JObj
     [(''transaction_id'', JStr (pc_TransactionID m)), (''booking_id'', JStr (pc_BookingID m)),
      (''event_id'', JStr (pc_EventID m)), (''user_id'', JStr (pc_UserID m)),
      (''at'', JTime (pc_At m))]"

definition marshal_PaymentExpired :: "PaymentExpired \<Rightarrow> json" where
  "marshal_PaymentExpired m = JObj
     [(''transaction_id'', JStr (px_TransactionID m)), (''booking_id'', JStr (px_BookingID m)),
      (''event_id'', JStr (px_EventID m)), (''user_id'', JStr (px_UserID m)),
      (''reason'', JStr (px_Reason m)), (''at'', JTime (px_At m))]"

definition marshal_TicketIssued :: "TicketIssued \<Rightarrow> json" where
  "marshal_TicketIssued m = JObj
     [(''ticket_id'', JStr (ti_TicketID m)), (''booking_id'', JStr (ti_BookingID m)),
      (''user_id'', JStr (ti_UserID m)), (''event_id'', JStr (ti_EventID m)),
      (''ticket_type_id'', JStr (ti_TicketTypeID m))]"

definition unmarshal_EventCancelled :: "json \<Rightarrow> EventCancelled option" where
  "unmarshal_EventCancelled j =
     (case dec_top j of None \<Rightarrow> None | Some kvs \<Rightarrow>
       (case (dec_str ''event_id'' kvs, dec_time ''at'' kvs) of
          (Some e, Some t) \<Rightarrow> Some \<lparr>ec_EventID = e, ec_At = t\<rparr>
        | _ \<Rightarrow> None))"

definition unmarshal_PaymentCompleted :: "json \<Rightarrow> PaymentCompleted option" where
  "unmarshal_PaymentCompleted j =
     (case dec_top j of None \<Rightarrow> None | Some kvs \<Rightarrow>
       (case (dec_str ''transaction_id'' kvs, dec_str ''booking_id'' kvs,
              dec_str ''event_id'' kvs, dec_str ''user_id'' kvs,
              dec_time ''at'' kvs) of
          (Some tx, Some b, Some e, Some u, Some t) \<Rightarrow>
            Some \<lparr>pc_TransactionID = tx, pc_BookingID = b, pc_EventID = e, pc_UserID = u, pc_At = t\<rparr>
        | _ \<Rightarrow> None))"

definition unmarshal_PaymentExpired :: "json \<Rightarrow> PaymentExpired option" where
  "unmarshal_PaymentExpired j =
     (case dec_top j of None \<Rightarrow> None | Some kvs \<Rightarrow>
       (case (dec_str ''transaction_id'' kvs, dec_str ''booking_id'' kvs,
              dec_str ''event_id'' kvs, dec_str ''user_id'' kvs,
              dec_str ''reason'' kvs, dec_time ''at'' kvs) of
          (Some tx, Some b, Some e, Some u, Some r, Some t) \<Rightarrow>
            Some \<lparr>px_TransactionID = tx, px_BookingID = b, px_EventID = e, px_UserID = u,
                  px_Reason = r, px_At = t\<rparr>
        | _ \<Rightarrow> None))"

section \<open>Round trips\<close>

text \<open>What a producer marshals is what the consumer of the topic reads back.\<close>

lemmas json_defs =
  dec_field_def marshal_EventCancelled_def marshal_PaymentCompleted_def marshal_PaymentExpired_def
  marshal_TicketIssued_def unmarshal_EventCancelled_def unmarshal_PaymentCompleted_def
  unmarshal_PaymentExpired_def

lemma unmarshal_marshal_EventCancelled [simp]:
  "unmarshal_EventCancelled (marshal_EventCancelled m) = Some m"
  by (simp add: json_defs)

lemma unmarshal_marshal_PaymentCompleted [simp]:
  "unmarshal_PaymentCompleted (marshal_PaymentCompleted m) = Some m"
  by (simp add: json_defs)

lemma unmarshal_marshal_PaymentExpired [simp]:
  "unmarshal_PaymentExpired (marshal_PaymentExpired m) = Some m"
  by (simp add: json_defs)

end
