(* ===== verification/Outbox.thy ===== *)
theory Outbox
  imports Dto "HOL-Library.Multiset"
begin

text \<open>
  Package \<^verbatim>\<open>pkg/outbox\<close>: the outbox table every service database carries, \<^verbatim>\<open>Store.Insert\<close>
  and the \<^verbatim>\<open>Worker\<close> that publishes undelivered rows to Kafka. The databases of the services
  extend the record \<open>outbox_db\<close>.
\<close>

section \<open>The table and the store\<close>

record outbox_row =
  ob_ID :: nat
  ob_Topic :: string
  ob_Key :: string
  ob_Payload :: json
  ob_TraceContext :: "string option"
  ob_Delivered :: bool

text \<open>\<open>outbox_seq\<close> is the \<^verbatim>\<open>BIGSERIAL\<close> sequence behind the primary key.\<close>

record outbox_db =
  outbox :: "outbox_row list"
  outbox_seq :: nat

definition outbox_Insert ::
    "string \<Rightarrow> string \<Rightarrow> json \<Rightarrow> (db_error, 'z outbox_db_scheme, unit) op" where
  "outbox_Insert topic key payload w =
     exec (\<lambda>d. Inr ((), d\<lparr>outbox := outbox d @
         [\<lparr>ob_ID = outbox_seq d, ob_Topic = topic, ob_Key = key, ob_Payload = payload,
           ob_TraceContext = (if trace_ctx w \<noteq> '''' then Some (trace_ctx w) else None),
           ob_Delivered = False\<rparr>],
         outbox_seq := Suc (outbox_seq d)\<rparr>)) w"

lemma keeps_clear_outbox_Insert [clearing]: "keeps_clear (outbox_Insert topic key payload)"
  using keeps_clear_exec by (fastforce simp: keeps_clear_def outbox_Insert_def)

section \<open>The worker\<close>

record worker_config =
  wc_concurrency :: int
  wc_pollInterval :: int

definition NewWorker :: "int \<Rightarrow> int \<Rightarrow> worker_config" where
  "NewWorker concurrency pollMs =
     (let c = (if concurrency < 1 then 1 else concurrency);
          p = wrap64 (pollMs * 1000000);
          p = (if p \<le> 0 then 200 * 1000000 else p)
      in \<lparr>wc_concurrency = c, wc_pollInterval = p\<rparr>)"

text \<open>
  Kafka is outside the repository: what \<^verbatim>\<open>Producer.Produce\<close> does with one row is an argument.
  A write is acknowledged, or refused, or reaches the broker while the error is reported.
\<close>

datatype produce_outcome = Written | Refused | WrittenUnacked

record kafka_msg =
  km_Topic :: string
  km_Key :: string
  km_Value :: json

definition msg_of :: "outbox_row \<Rightarrow> kafka_msg" where
  "msg_of r = \<lparr>km_Topic = ob_Topic r, km_Key = ob_Key r, km_Value = ob_Payload r\<rparr>"

definition publish :: "produce_outcome \<Rightarrow> outbox_row \<Rightarrow> kafka_msg list \<Rightarrow> bool \<times> kafka_msg list" where
  "publish oc r log =
     (case oc of
        Written \<Rightarrow> (True, log @ [msg_of r])
      | Refused \<Rightarrow> (False, log)
      | WrittenUnacked \<Rightarrow> (False, log @ [msg_of r]))"

definition mark_delivered :: "nat \<Rightarrow> (db_error, 'z outbox_db_scheme, unit) op" where
  "mark_delivered i =
     exec (\<lambda>d. Inr ((), d\<lparr>outbox :=
       update_where (\<lambda>r. ob_ID r = i) (\<lambda>r. r\<lparr>ob_Delivered := True\<rparr>) (outbox d)\<rparr>))"

text \<open>
  One goroutine of the pool publishes a row and marks it; the goroutines share the channel of
  jobs, so the rows are handled in some order, which is the list given here.
\<close>

fun process_jobs ::
    "(outbox_row \<Rightarrow> produce_outcome) \<Rightarrow> outbox_row list \<Rightarrow>
     kafka_msg list \<times> 'z outbox_db_scheme world \<Rightarrow> kafka_msg list \<times> 'z outbox_db_scheme world" where
  "process_jobs pr [] s = s"
| "process_jobs pr (r # rs) (log, w) =
     (let (ok, log') = publish (pr r) r log
      in if ok then process_jobs pr rs (log', snd (mark_delivered (ob_ID r) w))
         else process_jobs pr rs (log', w))"

definition undelivered :: "'z outbox_db_scheme \<Rightarrow> outbox_row list" where
  "undelivered d = filter (\<lambda>r. \<not> ob_Delivered r) (outbox d)"

definition select_batch :: "(db_error, 'z outbox_db_scheme, outbox_row list) op" where
  "select_batch =
     exec (\<lambda>d. Inr (take 100 (order_asc (\<lambda>r. int (ob_ID r)) (undelivered d)), d))"

text \<open>\<open>sched\<close> is the order in which the pool of goroutines picks the rows of the batch.\<close>

definition processBatch ::
    "(outbox_row list \<Rightarrow> outbox_row list) \<Rightarrow> (outbox_row \<Rightarrow> produce_outcome) \<Rightarrow>
     kafka_msg list \<times> 'z outbox_db_scheme world \<Rightarrow> kafka_msg list \<times> 'z outbox_db_scheme world" where
  "processBatch sched pr = (\<lambda>(log, w).
     (case select_batch w of
        (Inl e, w') \<Rightarrow> (log, w')
      | (Inr batch, w') \<Rightarrow>
          if batch = [] then (log, w') else process_jobs pr (sched batch) (log, w')))"

text \<open>\<^verbatim>\<open>Run\<close> handles one batch per tick until its context is cancelled: \<open>n\<close> ticks.\<close>

fun worker_Run ::
    "nat \<Rightarrow> (outbox_row list \<Rightarrow> outbox_row list) \<Rightarrow> (outbox_row \<Rightarrow> produce_outcome) \<Rightarrow>
     kafka_msg list \<times> 'z outbox_db_scheme world \<Rightarrow> kafka_msg list \<times> 'z outbox_db_scheme world" where
  "worker_Run 0 sched pr s = s"
| "worker_Run (Suc n) sched pr s = worker_Run n sched pr (processBatch sched pr s)"

section \<open>Inserting\<close>

definition outbox_wf :: "'z outbox_db_scheme \<Rightarrow> bool" where
  "outbox_wf d \<longleftrightarrow> distinct (map ob_ID (outbox d)) \<and> (\<forall>r \<in> set (outbox d). ob_ID r < outbox_seq d)"

lemma outbox_wf_insert:
  "outbox_wf d \<Longrightarrow> ob_ID r = outbox_seq d \<Longrightarrow>
   outbox_wf (d\<lparr>outbox := outbox d @ [r], outbox_seq := Suc (outbox_seq d)\<rparr>)"
  by (auto simp: outbox_wf_def less_Suc_eq)

lemma outbox_wf_update:
  "(\<And>r. ob_ID (f r) = ob_ID r) \<Longrightarrow>
   outbox_wf (d\<lparr>outbox := update_where P f (outbox d)\<rparr>) = outbox_wf d"
  by (simp add: outbox_wf_def map_update_where table_simps)

lemma preserves_outbox_Insert [preserve]:
  fixes I :: "'a outbox_db_scheme \<Rightarrow> bool"
  assumes "\<And>d r. I d \<Longrightarrow> ob_ID r = outbox_seq d \<Longrightarrow> \<not> ob_Delivered r \<Longrightarrow>
      I (d\<lparr>outbox := outbox d @ [r], outbox_seq := Suc (outbox_seq d)\<rparr>)"
  shows "preserves I (outbox_Insert topic key payload)"
proof (rule preservesI)
  fix w :: "'a outbox_db_scheme world"
  assume I: "I (db w)"
  show "I (db (snd (outbox_Insert topic key payload w)))"
    unfolding outbox_Insert_def
    by (rule preservesD [of I, OF preserves_exec, OF _ I]) (auto intro!: assms)
qed

lemma hoare_outbox_Insert:
  fixes P Q :: "'a outbox_db_scheme \<Rightarrow> bool"
  assumes "\<And>d r. P d \<Longrightarrow> ob_Topic r = topic \<Longrightarrow> ob_Key r = key \<Longrightarrow> ob_Payload r = payload \<Longrightarrow>
      Q (d\<lparr>outbox := outbox d @ [r], outbox_seq := Suc (outbox_seq d)\<rparr>)"
    and "\<And>d. P d \<Longrightarrow> Q d"
  shows "hoare P (outbox_Insert topic key payload) (\<lambda>_. Q) Q"
  unfolding hoare_def
proof (intro allI impI)
  fix w w' :: "'a outbox_db_scheme world" and r
  assume P: "P (db w)" and run: "outbox_Insert topic key payload w = (r, w')"
  have "Q (db w')"
    using run [unfolded outbox_Insert_def]
    by (rule exec_cases) (use P assms in \<open>auto dest!: sym [where t = "db w'"]\<close>)
  then show "case r of Inl e \<Rightarrow> Q (db w') | Inr a \<Rightarrow> Q (db w')" by (simp split: sum.split)
qed

text \<open>On a healthy database the insert appends one undelivered row.\<close>

definition queued_row :: "'z outbox_db_scheme world \<Rightarrow> string \<Rightarrow> string \<Rightarrow> json \<Rightarrow> outbox_row" where
  "queued_row w topic key payload =
     \<lparr>ob_ID = outbox_seq (db w), ob_Topic = topic, ob_Key = key, ob_Payload = payload,
      ob_TraceContext = (if trace_ctx w \<noteq> '''' then Some (trace_ctx w) else None), ob_Delivered = False\<rparr>"

lemma queued_row_sel [simp]:
  "ob_Topic (queued_row w tp k p) = tp" "ob_Key (queued_row w tp k p) = k" "ob_Payload (queued_row w tp k p) = p"
  "\<not> ob_Delivered (queued_row w tp k p)" "ob_ID (queued_row w tp k p) = outbox_seq (db w)"
  by (simp_all add: queued_row_def)

lemma outbox_Insert_calm:
  "calm w \<Longrightarrow> outbox_Insert tp k p w =
     (Inr (), w\<lparr>db := (db w)\<lparr>outbox := outbox (db w) @ [queued_row w tp k p], outbox_seq := Suc (outbox_seq (db w))\<rparr>\<rparr>)"
  by (simp add: outbox_Insert_def run_stmt_def queued_row_def)

lemma outbox_Insert_wf: "preserves outbox_wf (outbox_Insert topic key payload)"
  by (intro preserve outbox_wf_insert)

section \<open>Delivery\<close>

text \<open>A row of the table carries the message \<open>r\<close> was read with.\<close>

definition tracked :: "'z outbox_db_scheme \<Rightarrow> outbox_row \<Rightarrow> bool" where
  "tracked d r \<longleftrightarrow> (\<exists>r' \<in> set (outbox d). ob_ID r' = ob_ID r \<and> msg_of r' = msg_of r)"

text \<open>Every row marked delivered has its message in the log of the broker.\<close>

definition delivered_logged :: "kafka_msg list \<Rightarrow> 'z outbox_db_scheme \<Rightarrow> bool" where
  "delivered_logged log d \<longleftrightarrow> (\<forall>r \<in> set (outbox d). ob_Delivered r \<longrightarrow> msg_of r \<in> set log)"

abbreviation mark_row :: "nat \<Rightarrow> 'z outbox_db_scheme \<Rightarrow> 'z outbox_db_scheme" where
  "mark_row i d \<equiv>
     d\<lparr>outbox := update_where (\<lambda>r. ob_ID r = i) (\<lambda>r. r\<lparr>ob_Delivered := True\<rparr>) (outbox d)\<rparr>"

lemma msg_of_delivered [simp]: "msg_of (r\<lparr>ob_Delivered := b\<rparr>) = msg_of r"
  by (simp add: msg_of_def)

lemma mark_delivered_cases:
  "db (snd (mark_delivered i w)) = db w \<or> db (snd (mark_delivered i w)) = mark_row i (db w)"
  by (auto simp: mark_delivered_def exec_def run_stmt_def split: fault.splits)

lemma mark_row_wf [simp]: "outbox_wf (mark_row i d) = outbox_wf d"
  by (rule outbox_wf_update) simp

lemma mark_row_tracked: "tracked d r \<Longrightarrow> tracked (mark_row i d) r"
  by (simp add: tracked_def table_simps) metis

lemma mark_row_logged:
  assumes "outbox_wf d" "delivered_logged log d" "tracked d r" "msg_of r \<in> set log"
  shows "delivered_logged log (mark_row (ob_ID r) d)"
proof -
  obtain r' where r': "r' \<in> set (outbox d)" "ob_ID r' = ob_ID r" "msg_of r' = msg_of r"
    using assms(3) by (auto simp: tracked_def)
  have "msg_of x = msg_of r" if "x \<in> set (outbox d)" "ob_ID x = ob_ID r" for x
    using assms(1) r' that unfolding outbox_wf_def by (metis distinct_map inj_onD)
  with assms(2,4) show ?thesis
    by (simp add: delivered_logged_def table_simps)
qed

lemma delivered_logged_append: "delivered_logged log d \<Longrightarrow> delivered_logged (log @ ms) d"
  by (auto simp: delivered_logged_def)

text \<open>What \<open>process_jobs\<close> keeps, for every outcome of the broker and every fault schedule.\<close>

lemma process_jobs_sound:
  assumes "outbox_wf (db w)" "delivered_logged log (db w)" "\<forall>r \<in> set rs. tracked (db w) r"
    and "process_jobs pr rs (log, w) = (log', w')"
  shows "outbox_wf (db w') \<and> delivered_logged log' (db w')"
  using assms
proof (induction rs arbitrary: log w)
  case (Cons r rs)
  show ?case
  proof (cases "pr r")
    case Written
    let ?log = "log @ [msg_of r]" and ?w = "snd (mark_delivered (ob_ID r) w)"
    have "outbox_wf (db ?w)" "delivered_logged ?log (db ?w)" "\<forall>x \<in> set rs. tracked (db ?w) x"
      using mark_delivered_cases [of "ob_ID r" w] Cons.prems
      by (auto simp: mark_row_tracked mark_row_logged delivered_logged_append)
    with Cons.IH [of ?w ?log] Cons.prems(4) Written show ?thesis
      by (simp add: publish_def)
  next
    case Refused
    with Cons show ?thesis by (simp add: publish_def)
  next
    case WrittenUnacked
    with Cons.IH [of w "log @ [msg_of r]"] Cons.prems show ?thesis
      by (simp add: publish_def delivered_logged_append)
  qed
qed simp

lemma select_batch_cases:
  "select_batch w = (r, w') \<Longrightarrow>
   db w' = db w \<and>
   (\<forall>batch. r = Inr batch \<longrightarrow> batch = take 100 (order_asc (\<lambda>r. int (ob_ID r)) (undelivered (db w))))"
  by (auto simp: select_batch_def exec_def run_stmt_def split: fault.splits)

lemma undelivered_tracked: "r \<in> set (undelivered d) \<Longrightarrow> tracked d r"
  by (auto simp: undelivered_def tracked_def)

lemma processBatch_sound:
  assumes "outbox_wf (db w)" "delivered_logged log (db w)" "\<And>b. set (sched b) \<subseteq> set b"
    and "processBatch sched pr (log, w) = (log', w')"
  shows "outbox_wf (db w') \<and> delivered_logged log' (db w')"
proof -
  obtain r w1 where sel: "select_batch w = (r, w1)" by (cases "select_batch w")
  then have db1: "db w1 = db w" by (simp add: select_batch_cases)
  show ?thesis
  proof (cases r)
    case (Inr batch)
    have "tracked (db w1) x" if "x \<in> set (sched batch)" for x
    proof -
      have "x \<in> set batch" using that assms(3) by blast
      then have "x \<in> set (undelivered (db w))"
        using select_batch_cases [OF sel] Inr by (auto dest: in_set_takeD)
      then show ?thesis by (simp add: db1 undelivered_tracked)
    qed
    with Inr sel db1 assms process_jobs_sound [of w1 log "sched batch" pr] show ?thesis
      by (auto simp: processBatch_def split: if_splits)
  qed (use sel db1 assms in \<open>simp add: processBatch_def\<close>)
qed

lemma worker_sound:
  assumes "outbox_wf (db w)" "delivered_logged log (db w)" "\<And>b. set (sched b) \<subseteq> set b"
    and "worker_Run n sched pr (log, w) = (log', w')"
  shows "outbox_wf (db w') \<and> delivered_logged log' (db w')"
  using assms
proof (induction n arbitrary: log w)
  case (Suc n)
  obtain log1 w1 where "processBatch sched pr (log, w) = (log1, w1)"
    by (cases "processBatch sched pr (log, w)")
  with Suc.IH [of w1 log1] Suc.prems processBatch_sound [of w log sched pr log1 w1] show ?case
    by simp
qed simp

text \<open>
  Property C27: whatever the broker answers, whatever order the goroutines pick the rows in and
  whatever statements fail, after any number of ticks a row is marked delivered only if its
  message reached the broker: the outbox never loses a message.
\<close>

theorem worker_Run_sound:
  assumes "outbox_wf (db w)" "delivered_logged log (db w)" "\<And>b. set (sched b) \<subseteq> set b"
    and "worker_Run n sched pr (log, w) = (log', w')"
  shows "outbox_wf (db w') \<and> delivered_logged log' (db w')"
  using assms by (rule worker_sound)

section \<open>Progress\<close>

text \<open>
  While the database answers and the broker acknowledges, a batch delivers the hundred oldest
  undelivered rows.
\<close>

abbreviation mark_rows :: "nat set \<Rightarrow> 'z outbox_db_scheme \<Rightarrow> 'z outbox_db_scheme" where
  "mark_rows is d \<equiv>
     d\<lparr>outbox := update_where (\<lambda>r. ob_ID r \<in> is) (\<lambda>r. r\<lparr>ob_Delivered := True\<rparr>) (outbox d)\<rparr>"

lemma update_where_insert_id:
  "update_where (\<lambda>r. ob_ID r \<in> is) (\<lambda>r. r\<lparr>ob_Delivered := True\<rparr>)
     (update_where (\<lambda>r. ob_ID r = i) (\<lambda>r. r\<lparr>ob_Delivered := True\<rparr>) rs) =
   update_where (\<lambda>r. ob_ID r \<in> insert i is) (\<lambda>r. r\<lparr>ob_Delivered := True\<rparr>) rs"
  by (induction rs) auto

lemma process_jobs_calm:
  "calm w \<Longrightarrow>
   process_jobs (\<lambda>_. Written) rs (log, w) =
     (log @ map msg_of rs, w\<lparr>db := mark_rows (ob_ID ` set rs) (db w)\<rparr>)"
proof (induction rs arbitrary: log w)
  case (Cons r rs)
  have "snd (mark_delivered (ob_ID r) w) = w\<lparr>db := mark_row (ob_ID r) (db w)\<rparr>"
    using Cons.prems by (simp add: mark_delivered_def run_stmt_def)
  with Cons show ?case
    by (simp add: publish_def update_where_insert_id)
qed (simp add: update_where_none)

lemma undelivered_mark_rows:
  "undelivered (mark_rows is d) = filter (\<lambda>r. ob_ID r \<notin> is) (undelivered d)"
proof -
  have "filter (\<lambda>r. \<not> ob_Delivered r)
      (update_where (\<lambda>r. ob_ID r \<in> is) (\<lambda>r. r\<lparr>ob_Delivered := True\<rparr>) rs) =
    filter (\<lambda>r. ob_ID r \<notin> is) (filter (\<lambda>r. \<not> ob_Delivered r) rs)" for rs :: "outbox_row list"
    by (induction rs) auto
  then show ?thesis by (simp add: undelivered_def)
qed

lemma length_filter_taken:
  assumes "distinct (map key rs)"
  shows "length (filter (\<lambda>r. key r \<notin> key ` set (take n (order_asc k rs))) rs) = length rs - n"
proof -
  let ?s = "order_asc k rs"
  let ?Q = "\<lambda>r. key r \<notin> key ` set (take n ?s)"
  have "mset ?s = mset rs" by (simp add: order_asc_def)
  then have perm: "length (filter ?Q rs) = length (filter ?Q ?s)"
    using mset_filter [of ?Q rs] mset_filter [of ?Q ?s] by (metis size_mset)
  have "mset (map key ?s) = mset (map key rs)" using \<open>mset ?s = mset rs\<close> by simp
  then have dist: "distinct (map key ?s)"
    using assms mset_eq_imp_distinct_iff by blast
  have "filter ?Q ?s = filter ?Q (take n ?s) @ filter ?Q (drop n ?s)"
    using filter_append [of ?Q "take n ?s" "drop n ?s"] by (simp only: append_take_drop_id)
  also have "filter ?Q (take n ?s) = []"
    by (auto simp: filter_empty_conv)
  also have "filter ?Q (drop n ?s) = drop n ?s"
  proof (rule filter_True, rule ballI)
    fix r assume "r \<in> set (drop n ?s)"
    then have "key r \<in> set (drop n (map key ?s))" by (auto simp: drop_map)
    moreover have "set (take n (map key ?s)) \<inter> set (drop n (map key ?s)) = {}"
      by (rule set_take_disj_set_drop_if_distinct [OF dist]) simp
    ultimately show "key r \<notin> key ` set (take n ?s)" by (auto simp: take_map)
  qed
  finally have "length (filter ?Q rs) = length (drop n ?s)" by (simp add: perm)
  then show ?thesis by (simp add: order_asc_def)
qed

lemma outbox_wf_undelivered: "outbox_wf d \<Longrightarrow> distinct (map ob_ID (undelivered d))"
  by (simp add: outbox_wf_def undelivered_def distinct_map_filter)

lemma processBatch_progress:
  assumes "calm w" "outbox_wf (db w)" "\<And>b. set (sched b) = set b"
    and "processBatch sched (\<lambda>_. Written) (log, w) = (log', w')"
  shows "calm w' \<and> outbox_wf (db w') \<and>
    length (undelivered (db w')) = length (undelivered (db w)) - 100"
proof -
  let ?b = "take 100 (order_asc (\<lambda>r. int (ob_ID r)) (undelivered (db w)))"
  have sel: "select_batch w = (Inr ?b, w)"
    using assms(1) by (simp add: select_batch_def run_stmt_def)
  show ?thesis
  proof (cases "?b = []")
    case True
    then have "length (order_asc (\<lambda>r. int (ob_ID r)) (undelivered (db w))) = 0" by simp
    then have "undelivered (db w) = []" by (simp add: order_asc_def)
    with True assms sel show ?thesis by (simp add: processBatch_def)
  next
    case False
    with assms(1,4) sel have w': "w' = w\<lparr>db := mark_rows (ob_ID ` set ?b) (db w)\<rparr>"
      using assms(3) [of ?b] by (simp add: processBatch_def process_jobs_calm)
    show ?thesis
      using assms(1,2) length_filter_taken [OF outbox_wf_undelivered [OF assms(2)]]
      by (simp add: w' undelivered_mark_rows outbox_wf_update)
  qed
qed

lemma worker_drains:
  assumes "calm w" "outbox_wf (db w)" "\<And>b. set (sched b) = set b"
    and "worker_Run n sched (\<lambda>_. Written) (log, w) = (log', w')"
  shows "length (undelivered (db w')) = length (undelivered (db w)) - 100 * n"
  using assms
proof (induction n arbitrary: log w)
  case (Suc n)
  obtain log1 w1 where b: "processBatch sched (\<lambda>_. Written) (log, w) = (log1, w1)"
    by (cases "processBatch sched (\<lambda>_. Written) (log, w)")
  then have w1: "calm w1 \<and> outbox_wf (db w1) \<and>
      length (undelivered (db w1)) = length (undelivered (db w)) - 100"
    using processBatch_progress Suc.prems by blast
  with b Suc.IH [of w1 log1] Suc.prems show ?case by simp
qed simp

text \<open>
  With a healthy database and broker every tick delivers up to a hundred rows, so
  \<open>n\<close> ticks leave exactly what exceeds \<open>100 * n\<close>: the backlog drains.
\<close>

theorem worker_Run_progress:
  assumes "calm w" "outbox_wf (db w)" "\<And>b. set (sched b) = set b"
    and "worker_Run n sched (\<lambda>_. Written) (log, w) = (log', w')"
  shows "length (undelivered (db w')) = length (undelivered (db w)) - 100 * n"
  using assms by (rule worker_drains)


section \<open>From the table to the broker\<close>

lemma process_jobs_tracked: "tracked (db (snd s)) r \<Longrightarrow> tracked (db (snd (process_jobs pr rs s))) r"
proof (induction pr rs s rule: process_jobs.induct)
  case (2 pr x xs log w)
  have "tracked (db (snd (mark_delivered (ob_ID x) w))) r"
    using 2(3) mark_delivered_cases [of "ob_ID x" w] by (auto simp: mark_row_tracked)
  with 2 show ?case by (simp add: Let_def split: prod.split)
qed simp

lemma worker_tracked: "tracked (db (snd s)) r \<Longrightarrow> tracked (db (snd (worker_Run n sched pr s))) r"
proof (induction n arbitrary: s)
  case (Suc n)
  have "tracked (db (snd (processBatch sched pr s))) r"
    using Suc.prems select_batch_cases [of "snd s" "fst (select_batch (snd s))" "snd (select_batch (snd s))"]
    by (auto simp: processBatch_def split_beta intro!: process_jobs_tracked split: sum.split prod.split)
  with Suc.IH show ?case by simp
qed simp

lemma worker_delivers:
  assumes "calm w" "outbox_wf (db w)" "delivered_logged log (db w)" "r \<in> set (outbox (db w))"
    and "\<And>b. set (sched b) = set b" "length (undelivered (db w)) \<le> 100 * n"
    and "worker_Run n sched (\<lambda>_. Written) (log, w) = (log', w')"
  shows "msg_of r \<in> set log'"
proof -
  have "tracked (db w') r"
    using worker_tracked [of "(log, w)" r n sched "\<lambda>_. Written"] assms(4,7) by (auto simp: tracked_def)
  then obtain r' where r': "r' \<in> set (outbox (db w'))" "msg_of r' = msg_of r" by (auto simp: tracked_def)
  have "undelivered (db w') = []"
    using worker_drains [OF assms(1,2,5,7)] assms(6) by simp
  with r'(1) have "ob_Delivered r'" by (auto simp: undelivered_def filter_empty_conv)
  moreover have "delivered_logged log' (db w')"
    using worker_sound [OF assms(2,3) _ assms(7)] assms(5) by blast
  ultimately show ?thesis using r' by (auto simp: delivered_logged_def)
qed

end
