(* ===== verification/Ticketing_Store.thy ===== *)
theory Ticketing_Store
  imports Outbox
begin

text \<open>
  The data of the ticketing service: the structs of
  \<^verbatim>\<open>service/ticketing/internal/domain\<close>, the tables of \<^verbatim>\<open>migrations/ticketing\<close> with their
  constraints, and the error values.
\<close>

section \<open>Errors\<close>

text \<open>
  The sentinel errors of \<^verbatim>\<open>errors.go\<close>; \<open>DbErr\<close> is an error of the database driver passed on
  unchanged and \<open>ErrDecode\<close> an error of \<^verbatim>\<open>json.Unmarshal\<close> passed on by a consumer.
  \<open>ErrPriceMismatch\<close> carries the two prices its message prints.
\<close>

datatype ticketing_error =
    ErrOrganizerExists
  | ErrOrganizerNotFound
  | ErrEventNotFound
  | ErrEventNotEditable
  | ErrEventNotApprovable
  | ErrEventNotCancellable
  | ErrEventNotCancelled
  | ErrNotEventOwner
  | ErrInvalidStatus
  | ErrTicketTypesEmpty
  | ErrCapacityExceeded
  | ErrNoSeatsAvailable
  | ErrReservationNotFound
  | ErrReservationExpired
  | ErrBookingNotFound
  | ErrInvalidQuantity
  | ErrEventNotActive
  | ErrPriceMismatch int int
  | ErrPaymentUnavailable
  | DbErr db_error
  | ErrDecode

section \<open>Structs\<close>

record Event =
  ev_ID :: string
  ev_OrganizerID :: string
  ev_Title :: string
  ev_Description :: string
  ev_VenueName :: string
  ev_VenueAddress :: string
  ev_VenueCapacity :: int
  ev_StartAt :: time
  ev_EndAt :: time
  ev_Status :: event_status
  ev_ReviewedBy :: "string option"
  ev_ReviewedAt :: "time option"
  ev_CreatedAt :: time
  ev_UpdatedAt :: time

record TicketType =
  tt_ID :: string
  tt_EventID :: string
  tt_Name :: string
  tt_PriceRupiah :: int
  tt_Quantity :: int
  tt_Available :: int
  tt_MaxPerOrder :: int

record BookingItem =
  bi_ID :: string
  bi_BookingID :: string
  bi_TicketTypeID :: string
  bi_Quantity :: int
  bi_UnitPriceRupiah :: int
  bi_TotalPriceRupiah :: int

record Booking =
  bk_ID :: string
  bk_UserID :: string
  bk_EventID :: string
  bk_Status :: string
  bk_ExpiresAt :: "time option"
  bk_TotalRupiah :: int
  bk_PaymentID :: string
  bk_RefundStatus :: string
  bk_Items :: "BookingItem list"
  bk_CreatedAt :: time

record Reservation =
  rs_BookingID :: string
  rs_UserID :: string
  rs_EventID :: string
  rs_Items :: "BookingItem list"
  rs_TotalRupiah :: int
  rs_Status :: string
  rs_ExpiresAt :: time
  rs_CreatedAt :: time

section \<open>Tables\<close>

text \<open>
  The columns of \<^verbatim>\<open>events\<close> and \<^verbatim>\<open>ticket_types\<close> are the fields of the structs
  (\<open>tt_Available\<close> is the column \<^verbatim>\<open>available_seat\<close>); bookings and their items are two tables.
\<close>

record booking_row =
  br_ID :: string
  br_UserID :: string
  br_EventID :: string
  br_Status :: string
  br_ExpiresAt :: "time option"
  br_CreatedAt :: time

record booking_item_row =
  ir_ID :: string
  ir_BookingID :: string
  ir_TicketTypeID :: string
  ir_Quantity :: int
  ir_TotalPriceRupiah :: int

record ticketing_db = outbox_db +
  events :: "Event list"
  ticket_types :: "TicketType list"
  bookings :: "booking_row list"
  booking_items :: "booking_item_row list"

type_synonym 'a ticketing_op = "(ticketing_error, ticketing_db, 'a) op"

section \<open>Constraints of the schema\<close>

definition event_check :: "Event \<Rightarrow> bool" where
  "event_check e \<longleftrightarrow>
     ev_Status e \<in> {''draft'', ''pending'', ''published'', ''rejected'', ''cancelled''} \<and>
     0 \<le> ev_VenueCapacity e"

definition ticket_check :: "TicketType \<Rightarrow> bool" where
  "ticket_check t \<longleftrightarrow>
     0 \<le> tt_PriceRupiah t \<and> 0 < tt_Quantity t \<and>
     0 \<le> tt_Available t \<and> tt_Available t \<le> tt_Quantity t \<and> 0 < tt_MaxPerOrder t"

definition booking_check :: "booking_row \<Rightarrow> bool" where
  "booking_check b \<longleftrightarrow>
     br_Status b \<in> {''confirmed'', ''pending'', ''expired'', ''cancelled''} \<and>
     (br_Status b \<noteq> ''pending'' \<or> br_ExpiresAt b \<noteq> None)"

definition booking_item_check :: "booking_item_row \<Rightarrow> bool" where
  "booking_item_check i \<longleftrightarrow> 0 < ir_Quantity i \<and> 0 \<le> ir_TotalPriceRupiah i"

text \<open>
  The schema as one predicate: primary keys, foreign keys, checks and the range of a column. PostgreSQL guarantees it
  for every reachable database; the statements below are shown to keep it.
\<close>

definition schema_ok :: "ticketing_db \<Rightarrow> bool" where
  "schema_ok d \<longleftrightarrow>
     distinct (map ev_ID (events d)) \<and> (\<forall>e \<in> set (events d). event_check e) \<and>
     distinct (map tt_ID (ticket_types d)) \<and>
     (\<forall>t \<in> set (ticket_types d). ticket_check t \<and> int4_ok (tt_Quantity t)) \<and>
     distinct (map br_ID (bookings d)) \<and> (\<forall>b \<in> set (bookings d). booking_check b) \<and>
     distinct (map ir_ID (booking_items d)) \<and> (\<forall>i \<in> set (booking_items d). booking_item_check i) \<and>
     (\<forall>i \<in> set (booking_items d). ir_BookingID i \<in> br_ID ` set (bookings d)) \<and>
     (\<forall>b \<in> set (bookings d). br_EventID b \<in> ev_ID ` set (events d)) \<and>
     (\<forall>t \<in> set (ticket_types d). tt_EventID t \<in> ev_ID ` set (events d))"

lemma schema_ok_outbox [simp]:
  "schema_ok (d\<lparr>outbox := x\<rparr>) = schema_ok d" "schema_ok (d\<lparr>outbox_seq := n\<rparr>) = schema_ok d"
  by (simp_all add: schema_ok_def)

end
