(* ===== verification/Seat_Counter.thy ===== *)
theory Seat_Counter
  imports Ticketing_Store
begin

text \<open>
  \<^verbatim>\<open>postgres/seat_counter.go\<close> and \<^verbatim>\<open>postgres/seat_reader.go\<close>: the seat counter kept in the
  column \<^verbatim>\<open>ticket_types.available_seat\<close>. Each operation is one SQL statement. The locale
  \<open>seat_ledger\<close> is the contract of the port \<^verbatim>\<open>domain.SeatCounter\<close> that the booking service
  relies on; it is interpreted on the statements.
\<close>

section \<open>The statements\<close>

text \<open>
  \<^verbatim>\<open>UPDATE ticket_types SET ... WHERE P\<close>: \<open>arith\<close> is the integer expression PostgreSQL
  evaluates for a row, which must fit the column; a row that breaks a check fails the statement.
\<close>

definition update_tickets ::
    "(TicketType \<Rightarrow> bool) \<Rightarrow> (TicketType \<Rightarrow> int) \<Rightarrow> (TicketType \<Rightarrow> TicketType) \<Rightarrow> (ticketing_db, nat) stmt" where
  "update_tickets P arith f d =
     (if \<exists>t \<in> set (ticket_types d). P t \<and> \<not> int4_ok (arith t) then Inl OutOfRange
      else if \<exists>t \<in> set (ticket_types d). P t \<and> \<not> ticket_check (f t) then Inl CheckViolation
      else Inr (count_where P (ticket_types d),
                d\<lparr>ticket_types := update_where P f (ticket_types d)\<rparr>))"

definition stmt_Init :: "string \<Rightarrow> int \<Rightarrow> (ticketing_db, nat) stmt" where
  "stmt_Init ticketTypeID totalSeats =
     update_tickets (\<lambda>t. tt_ID t = ticketTypeID) (\<lambda>_. totalSeats) (\<lambda>t. t\<lparr>tt_Available := totalSeats\<rparr>)"

definition stmt_Reserve :: "string \<Rightarrow> int \<Rightarrow> (ticketing_db, nat) stmt" where
  "stmt_Reserve ticketTypeID qty d =
     (if \<not> int4_ok qty then Inl OutOfRange
      else update_tickets (\<lambda>t. tt_ID t = ticketTypeID \<and> qty \<le> tt_Available t)
             (\<lambda>t. tt_Available t - qty) (\<lambda>t. t\<lparr>tt_Available := tt_Available t - qty\<rparr>) d)"

definition stmt_Release :: "string \<Rightarrow> int \<Rightarrow> (ticketing_db, nat) stmt" where
  "stmt_Release ticketTypeID qty d =
     (if \<not> int4_ok qty then Inl OutOfRange
      else update_tickets (\<lambda>t. tt_ID t = ticketTypeID) (\<lambda>t. tt_Available t + qty)
             (\<lambda>t. t\<lparr>tt_Available := min (tt_Quantity t) (tt_Available t + qty)\<rparr>) d)"

definition stmt_SetPrice :: "string \<Rightarrow> int \<Rightarrow> (ticketing_db, nat) stmt" where
  "stmt_SetPrice ticketTypeID price d =
     (if \<not> int8_ok price then Inl OutOfRange
      else update_tickets (\<lambda>t. tt_ID t = ticketTypeID) (\<lambda>t. tt_Available t)
             (\<lambda>t. t\<lparr>tt_PriceRupiah := price\<rparr>) d)"

section \<open>The operations\<close>

definition seat_Init :: "string \<Rightarrow> string \<Rightarrow> int \<Rightarrow> unit ticketing_op" where
  "seat_Init eventID ticketTypeID totalSeats =
     bindE (mapErr DbErr (exec (stmt_Init ticketTypeID totalSeats))) (\<lambda>_. retE ())"

definition seat_Reserve :: "string \<Rightarrow> string \<Rightarrow> int \<Rightarrow> unit ticketing_op" where
  "seat_Reserve eventID ticketTypeID qty =
     bindE (mapErr DbErr (exec (stmt_Reserve ticketTypeID qty)))
       (\<lambda>n. if n = 0 then failE ErrNoSeatsAvailable else retE ())"

definition seat_Release :: "string \<Rightarrow> string \<Rightarrow> int \<Rightarrow> unit ticketing_op" where
  "seat_Release eventID ticketTypeID qty =
     bindE (mapErr DbErr (exec (stmt_Release ticketTypeID qty))) (\<lambda>_. retE ())"

definition select_ticket :: "string \<Rightarrow> (db_error, ticketing_db, TicketType) op" where
  "select_ticket ticketTypeID =
     exec (\<lambda>d. case find (\<lambda>t. tt_ID t = ticketTypeID) (ticket_types d) of
                 None \<Rightarrow> Inl NoRows
               | Some t \<Rightarrow> Inr (t, d))"

definition seat_Available :: "string \<Rightarrow> string \<Rightarrow> int ticketing_op" where
  "seat_Available eventID ticketTypeID =
     handleE (select_ticket ticketTypeID)
       (\<lambda>e. if e = NoRows then failE ErrReservationNotFound else failE (DbErr e))
       (\<lambda>t. retE (tt_Available t))"

definition seat_SetPrice :: "string \<Rightarrow> string \<Rightarrow> int \<Rightarrow> unit ticketing_op" where
  "seat_SetPrice eventID ticketTypeID price =
     bindE (mapErr DbErr (exec (stmt_SetPrice ticketTypeID price))) (\<lambda>_. retE ())"

definition seat_GetPrice :: "string \<Rightarrow> string \<Rightarrow> int ticketing_op" where
  "seat_GetPrice eventID ticketTypeID =
     handleE (select_ticket ticketTypeID)
       (\<lambda>e. if e = NoRows then failE ErrReservationNotFound else failE (DbErr e))
       (\<lambda>t. retE (tt_PriceRupiah t))"

text \<open>\<^verbatim>\<open>SeatReader.Available\<close> reads zero on every error.\<close>

definition reader_Available :: "string \<Rightarrow> string \<Rightarrow> int ticketing_op" where
  "reader_Available eventID ticketTypeID =
     handleE (select_ticket ticketTypeID) (\<lambda>_. retE 0) (\<lambda>t. retE (tt_Available t))"

section \<open>What the statements do\<close>

definition avail :: "ticketing_db \<Rightarrow> string \<Rightarrow> int option" where
  "avail d t = map_option tt_Available (find (\<lambda>x. tt_ID x = t) (ticket_types d))"

definition capacity :: "ticketing_db \<Rightarrow> string \<Rightarrow> int option" where
  "capacity d t = map_option tt_Quantity (find (\<lambda>x. tt_ID x = t) (ticket_types d))"

definition price :: "ticketing_db \<Rightarrow> string \<Rightarrow> int option" where
  "price d i = map_option tt_PriceRupiah (find (\<lambda>x. tt_ID x = i) (ticket_types d))"

text \<open>The part of the schema the seat statements touch.\<close>

definition tickets_ok :: "ticketing_db \<Rightarrow> bool" where
  "tickets_ok d \<longleftrightarrow> distinct (map tt_ID (ticket_types d)) \<and>
     (\<forall>t \<in> set (ticket_types d). ticket_check t \<and> int4_ok (tt_Quantity t))"

lemma tickets_ok_avail:
  "tickets_ok d \<Longrightarrow> avail d t = Some a \<Longrightarrow> \<exists>c. capacity d t = Some c \<and> 0 \<le> a \<and> a \<le> c \<and> int4_ok c"
  by (fastforce simp: avail_def capacity_def tickets_ok_def ticket_check_def dest: find_SomeD)

lemma update_tickets_frame:
  assumes "update_tickets P ar f d = Inr (n, d')"
  shows "events d' = events d" "bookings d' = bookings d" "booking_items d' = booking_items d"
    "outbox d' = outbox d" "outbox_seq d' = outbox_seq d"
    "ticket_types d' = update_where P f (ticket_types d)" "n = count_where P (ticket_types d)"
  using assms by (auto simp: update_tickets_def split: if_splits)

lemma update_tickets_eqs:
  assumes upd: "update_tickets P ar f d = Inr (n, d')" and id: "\<And>t. tt_ID (f t) = tt_ID t"
  shows "avail d' i = map_option (\<lambda>t. tt_Available (if P t then f t else t)) (find (\<lambda>x. tt_ID x = i) (ticket_types d))"
    "capacity d' i = map_option (\<lambda>t. tt_Quantity (if P t then f t else t)) (find (\<lambda>x. tt_ID x = i) (ticket_types d))"
    "price d' i = map_option (\<lambda>t. tt_PriceRupiah (if P t then f t else t)) (find (\<lambda>x. tt_ID x = i) (ticket_types d))"
  using update_tickets_frame(6) [OF upd]
  by (simp_all add: avail_def capacity_def price_def find_update_where id option.map_comp comp_def)

lemma update_tickets_ok:
  assumes "update_tickets P ar f d = Inr (n, d')" "tickets_ok d"
    and "\<And>t. tt_ID (f t) = tt_ID t" "\<And>t. tt_Quantity (f t) = tt_Quantity t"
  shows "tickets_ok d'"
  using assms
  by (auto simp: update_tickets_def tickets_ok_def map_update_where table_simps split: if_splits)

lemma update_tickets_schema:
  assumes "update_tickets P ar f d = Inr (n, d')" "schema_ok d"
    and "\<And>t. tt_ID (f t) = tt_ID t" "\<And>t. tt_EventID (f t) = tt_EventID t"
    and "\<And>t. tt_Quantity (f t) = tt_Quantity t"
  shows "schema_ok d'"
  using assms
  by (auto simp: update_tickets_def schema_ok_def map_update_where table_simps split: if_splits)

lemma find_not_count:
  "distinct (map key rs) \<Longrightarrow> find (\<lambda>x. key x = k) rs = Some r \<Longrightarrow>
   count_where (\<lambda>x. key x = k \<and> P x) rs = (if P r then 1 else 0)"
proof (induction rs)
  case (Cons x rs)
  then have "key x = k \<Longrightarrow> count_where (\<lambda>y. key y = k \<and> P y) rs = 0"
    by (auto simp: count_where_0 image_iff)
  with Cons show ?case by (auto split: if_splits)
qed simp

lemma tickets_ok_find:
  "tickets_ok d \<Longrightarrow> t \<in> set (ticket_types d) \<Longrightarrow> tt_ID t = i \<Longrightarrow>
   find (\<lambda>x. tt_ID x = i) (ticket_types d) = Some t"
  using distinct_map_find [of tt_ID "ticket_types d" t] by (simp add: tickets_ok_def)

lemma avail_tickets:
  "tickets_ok d \<Longrightarrow> avail d i = Some a \<Longrightarrow> t \<in> set (ticket_types d) \<Longrightarrow> tt_ID t = i \<Longrightarrow>
   tt_Available t = a"
  by (auto simp: avail_def tickets_ok_find)

lemma capacity_tickets:
  "tickets_ok d \<Longrightarrow> capacity d i = Some c \<Longrightarrow> t \<in> set (ticket_types d) \<Longrightarrow> tt_ID t = i \<Longrightarrow>
   tt_Quantity t = c"
  by (auto simp: capacity_def tickets_ok_find)

lemma schema_ok_tickets: "schema_ok d \<Longrightarrow> tickets_ok d"
  by (simp add: schema_ok_def tickets_ok_def)

text \<open>Taking \<open>q\<close> seats that are there, taking more than there are, and giving seats back.\<close>

lemma int4_ok_mid: "int4_ok c \<Longrightarrow> 0 \<le> x \<Longrightarrow> x \<le> c \<Longrightarrow> int4_ok x"
  by (auto simp: int4_ok_def)

lemma update_tickets_one:
  assumes ok: "tickets_ok d" and t: "find (\<lambda>x. tt_ID x = i) (ticket_types d) = Some t"
    and R: "R t" "int4_ok (ar t)" "ticket_check (f t)"
    and f: "\<And>x. tt_ID (f x) = tt_ID x" "\<And>x. tt_Quantity (f x) = tt_Quantity x"
  shows "\<exists>d'. update_tickets (\<lambda>x. tt_ID x = i \<and> R x) ar f d = Inr (1, d') \<and> tickets_ok d' \<and>
    avail d' = (avail d)(i \<mapsto> tt_Available (f t)) \<and> capacity d' = capacity d"
proof -
  have uniq: "x = t" if "x \<in> set (ticket_types d)" "tt_ID x = i" for x
    using tickets_ok_find [OF ok that] t by simp
  have "count_where (\<lambda>x. tt_ID x = i \<and> R x) (ticket_types d) = 1"
    using find_not_count [OF _ t, of R] ok R(1) by (simp add: tickets_ok_def)
  moreover have "\<not> (\<exists>x \<in> set (ticket_types d). (tt_ID x = i \<and> R x) \<and> \<not> int4_ok (ar x))"
    "\<not> (\<exists>x \<in> set (ticket_types d). (tt_ID x = i \<and> R x) \<and> \<not> ticket_check (f x))"
    using uniq R by blast+
  ultimately obtain d' where d': "update_tickets (\<lambda>x. tt_ID x = i \<and> R x) ar f d = Inr (1, d')"
    by (simp add: update_tickets_def)
  have "avail d' = (avail d)(i \<mapsto> tt_Available (f t))"
  proof
    fix j show "avail d' j = ((avail d)(i \<mapsto> tt_Available (f t))) j"
      using update_tickets_eqs(1) [OF d' f(1), of j] t R(1) find_SomeD [OF t]
      by (cases "find (\<lambda>x. tt_ID x = j) (ticket_types d)")
        (auto simp: avail_def dest: find_SomeD)
  qed
  moreover have "capacity d' = capacity d"
    using update_tickets_eqs(2) [OF d' f(1)]
    by (simp add: fun_eq_iff capacity_def f(2) if_distrib [of tt_Quantity] cong: if_cong)
  moreover have "tickets_ok d'" by (rule update_tickets_ok [OF d' ok f])
  ultimately show ?thesis using d' by blast
qed

lemma avail_find:
  "avail d i = Some a \<Longrightarrow> \<exists>t. find (\<lambda>x. tt_ID x = i) (ticket_types d) = Some t \<and> tt_Available t = a"
  by (auto simp: avail_def)

lemma tickets_ok_row:
  "tickets_ok d \<Longrightarrow> find (\<lambda>x. tt_ID x = i) (ticket_types d) = Some t \<Longrightarrow>
   ticket_check t \<and> int4_ok (tt_Quantity t)"
  by (auto simp: tickets_ok_def dest: find_SomeD)

lemma stmt_Reserve_ok:
  assumes ok: "tickets_ok d" and a: "avail d i = Some a" and q: "0 \<le> q" "q \<le> a"
  shows "\<exists>d'. stmt_Reserve i q d = Inr (1, d') \<and> tickets_ok d' \<and>
    avail d' = (avail d)(i \<mapsto> a - q) \<and> capacity d' = capacity d"
proof -
  obtain t where t: "find (\<lambda>x. tt_ID x = i) (ticket_types d) = Some t" "tt_Available t = a"
    using avail_find [OF a] by blast
  note row = tickets_ok_row [OF ok t(1)]
  have "int4_ok q" "int4_ok (a - q)"
    using row t(2) q by (auto simp: ticket_check_def int4_ok_def)
  with update_tickets_one [OF ok t(1), of "\<lambda>x. q \<le> tt_Available x" "\<lambda>x. tt_Available x - q"
      "\<lambda>x. x\<lparr>tt_Available := tt_Available x - q\<rparr>"] row t(2) q
  show ?thesis by (simp add: stmt_Reserve_def ticket_check_def)
qed

lemma stmt_Reserve_short:
  assumes ok: "tickets_ok d" and a: "avail d i = Some a" and q: "a < q" "int4_ok q"
  shows "stmt_Reserve i q d = Inr (0, d)"
proof -
  have none: "\<not> (tt_ID t = i \<and> q \<le> tt_Available t)" if "t \<in> set (ticket_types d)" for t
    using that avail_tickets [OF ok a] q by fastforce
  then have "update_where (\<lambda>t. tt_ID t = i \<and> q \<le> tt_Available t) f (ticket_types d) = ticket_types d" for f
    by (rule update_where_none)
  moreover have "count_where (\<lambda>t. tt_ID t = i \<and> q \<le> tt_Available t) (ticket_types d) = 0"
    using none by (simp add: count_where_0)
  ultimately show ?thesis
    using none q(2) by (auto simp: stmt_Reserve_def update_tickets_def)
qed

lemma stmt_Release_ok:
  assumes ok: "tickets_ok d" and a: "avail d i = Some a" and c: "capacity d i = Some c"
    and q: "0 \<le> q" "int4_ok (a + q)"
  shows "\<exists>d'. stmt_Release i q d = Inr (1, d') \<and> tickets_ok d' \<and>
    avail d' = (avail d)(i \<mapsto> min c (a + q)) \<and> capacity d' = capacity d"
proof -
  obtain t where t: "find (\<lambda>x. tt_ID x = i) (ticket_types d) = Some t" "tt_Available t = a"
    using avail_find [OF a] by blast
  then have "tt_Quantity t = c" using c by (simp add: capacity_def)
  note row = tickets_ok_row [OF ok t(1)]
  have "int4_ok q" using row t(2) q by (auto simp: ticket_check_def int4_ok_def)
  with update_tickets_one [OF ok t(1), of "\<lambda>_. True" "\<lambda>x. tt_Available x + q"
      "\<lambda>x. x\<lparr>tt_Available := min (tt_Quantity x) (tt_Available x + q)\<rparr>"]
    row t(2) q \<open>tt_Quantity t = c\<close>
  show ?thesis by (simp add: stmt_Release_def ticket_check_def)
qed

lemma stmt_Reserve_inv:
  assumes ok: "tickets_ok d" and r: "stmt_Reserve i q d = Inr (n, d')" "n \<noteq> 0" and q: "0 \<le> q"
  shows "\<exists>a. avail d i = Some a \<and> q \<le> a \<and> tickets_ok d' \<and>
    avail d' = (avail d)(i \<mapsto> a - q) \<and> capacity d' = capacity d"
proof -
  have i4: "int4_ok q" and n: "n = count_where (\<lambda>t. tt_ID t = i \<and> q \<le> tt_Available t) (ticket_types d)"
    using r(1) update_tickets_frame(7) by (auto simp: stmt_Reserve_def split: if_splits)
  have "\<exists>t \<in> set (ticket_types d). tt_ID t = i \<and> q \<le> tt_Available t"
    using r(2) unfolding n by (simp add: count_where_0)
  then obtain t where t: "t \<in> set (ticket_types d)" "tt_ID t = i" "q \<le> tt_Available t"
    by blast
  then have a: "avail d i = Some (tt_Available t)"
    using tickets_ok_find [OF ok] by (simp add: avail_def)
  from stmt_Reserve_ok [OF ok a q t(3)] r(1) a t(3) show ?thesis by auto
qed

section \<open>The contract of the seat counter\<close>

text \<open>
  A client of the port sees, per ticket type, the seats that are left and their upper bound;
  \<open>grab\<close> takes seats and reports how many rows it changed, \<open>give\<close> puts them back.
\<close>

locale seat_ledger =
  fixes left :: "'d \<Rightarrow> string \<Rightarrow> int option"
    and bound :: "'d \<Rightarrow> string \<Rightarrow> int option"
    and grab :: "string \<Rightarrow> int \<Rightarrow> ('d, nat) stmt"
    and give :: "string \<Rightarrow> int \<Rightarrow> ('d, nat) stmt"
    and wf :: "'d \<Rightarrow> bool"
  assumes in_range: "wf d \<Longrightarrow> left d i = Some a \<Longrightarrow> \<exists>c. bound d i = Some c \<and> 0 \<le> a \<and> a \<le> c"
    and grab_ok: "wf d \<Longrightarrow> left d i = Some a \<Longrightarrow> 0 \<le> q \<Longrightarrow> q \<le> a \<Longrightarrow>
      \<exists>d'. grab i q d = Inr (1, d')"
    and grab_inv: "wf d \<Longrightarrow> grab i q d = Inr (n, d') \<Longrightarrow> n \<noteq> 0 \<Longrightarrow> 0 \<le> q \<Longrightarrow>
      \<exists>a. left d i = Some a \<and> q \<le> a \<and> wf d' \<and> left d' = (left d)(i \<mapsto> a - q) \<and> bound d' = bound d"
    and give_ok: "wf d \<Longrightarrow> left d i = Some a \<Longrightarrow> bound d i = Some c \<Longrightarrow> 0 \<le> q \<Longrightarrow> a + q \<le> c \<Longrightarrow>
      \<exists>d'. give i q d = Inr (1, d') \<and> wf d' \<and> left d' = (left d)(i \<mapsto> a + q) \<and> bound d' = bound d"
begin

fun grabs :: "(string \<times> int) list \<Rightarrow> 'd \<Rightarrow> 'd option" where
  "grabs [] d = Some d"
| "grabs ((i, q) # xs) d =
     (case grab i q d of Inl _ \<Rightarrow> None | Inr (n, d') \<Rightarrow> if n = 0 then None else grabs xs d')"

fun gives :: "(string \<times> int) list \<Rightarrow> 'd \<Rightarrow> 'd" where
  "gives [] d = d"
| "gives ((i, q) # xs) d =
     gives xs (case give i q d of Inl _ \<Rightarrow> d | Inr (_, d') \<Rightarrow> d')"

lemma grabs_append:
  "grabs (xs @ ys) d = (case grabs xs d of None \<Rightarrow> None | Some d' \<Rightarrow> grabs ys d')"
  by (induction xs arbitrary: d) (auto split: sum.splits)

definition requested :: "string \<Rightarrow> (string \<times> int) list \<Rightarrow> int" where
  "requested i xs = (\<Sum>(j, q) \<leftarrow> xs. if j = i then q else 0)"

lemma requested_simps [simp]:
  "requested i [] = 0"
  "requested i ((j, q) # xs) = (if j = i then q else 0) + requested i xs"
  by (simp_all add: requested_def)

lemma requested_nonneg: "\<forall>(j, q) \<in> set xs. 0 \<le> q \<Longrightarrow> 0 \<le> requested i xs"
  by (induction xs) auto

lemma grabs_left:
  assumes "wf d" "\<forall>(j, q) \<in> set xs. 0 \<le> q" "grabs xs d = Some d'"
  shows "wf d' \<and> bound d' = bound d \<and>
    (\<forall>i. left d' i = map_option (\<lambda>a. a - requested i xs) (left d i)) \<and>
    (\<forall>(j, q) \<in> set xs. left d j \<noteq> None)"
  using assms
proof (induction xs arbitrary: d)
  case Nil
  then show ?case by (simp add: option.map_ident)
next
  case (Cons x xs)
  obtain i q where x: "x = (i, q)" by (cases x)
  with Cons.prems obtain n d1 where g: "grab i q d = Inr (n, d1)" "n \<noteq> 0" "grabs xs d1 = Some d'"
    by (auto split: sum.splits if_splits)
  obtain a where a: "left d i = Some a" "wf d1" "left d1 = (left d)(i \<mapsto> a - q)" "bound d1 = bound d"
    using grab_inv [OF Cons.prems(1) g(1,2)] Cons.prems(2) x by auto
  with Cons.IH [OF a(2) _ g(3)] Cons.prems(2) x show ?case
    by (auto simp: algebra_simps split: if_splits)
qed

lemma gives_left:
  assumes "wf d" "\<forall>(j, q) \<in> set xs. 0 \<le> q \<and> left d j \<noteq> None"
    and "\<And>i a c. left d i = Some a \<Longrightarrow> bound d i = Some c \<Longrightarrow> a + requested i xs \<le> c"
  shows "wf (gives xs d) \<and> bound (gives xs d) = bound d \<and>
    (\<forall>i. left (gives xs d) i = map_option (\<lambda>a. a + requested i xs) (left d i))"
  using assms
proof (induction xs arbitrary: d)
  case Nil
  then show ?case by (simp add: option.map_ident)
next
  case (Cons x xs)
  obtain i q where x: "x = (i, q)" by (cases x)
  with Cons.prems(2) obtain a where a: "left d i = Some a" and q: "0 \<le> q" by auto
  obtain c where c: "bound d i = Some c" using in_range [OF Cons.prems(1) a] by blast
  have "0 \<le> requested i xs" by (rule requested_nonneg) (use Cons.prems(2) in auto)
  then have "a + q \<le> c" using Cons.prems(3) [OF a c] x by simp
  then obtain d1 where d1: "give i q d = Inr (1, d1)" "wf d1" "left d1 = (left d)(i \<mapsto> a + q)"
      "bound d1 = bound d"
    using give_ok [OF Cons.prems(1) a c q] by blast
  have "wf (gives xs d1) \<and> bound (gives xs d1) = bound d1 \<and>
      (\<forall>j. left (gives xs d1) j = map_option (\<lambda>a. a + requested j xs) (left d1 j))"
  proof (rule Cons.IH [OF d1(2)])
    show "\<forall>(j, q) \<in> set xs. 0 \<le> q \<and> left d1 j \<noteq> None"
      using Cons.prems(2) x d1(3) by auto
    show "b + requested j xs \<le> e" if "left d1 j = Some b" "bound d1 j = Some e" for j b e
    proof (cases "j = i")
      case True
      with that d1(3,4) Cons.prems(3) [OF a, of e] x show ?thesis by simp
    next
      case False
      with that d1(3,4) Cons.prems(3) [of j b e] x show ?thesis by simp
    qed
  qed
  with x d1 a show ?case by (auto simp: algebra_simps)
qed

text \<open>Giving back everything that was taken restores the ledger.\<close>

lemma grabs_gives:
  assumes wf: "wf d" and pos: "\<forall>(j, q) \<in> set xs. 0 \<le> q" and g: "grabs xs d = Some d'"
  shows "left (gives xs d') = left d \<and> bound (gives xs d') = bound d \<and> wf (gives xs d')"
proof -
  note t = grabs_left [OF wf pos g]
  have "wf (gives xs d') \<and> bound (gives xs d') = bound d' \<and>
    (\<forall>i. left (gives xs d') i = map_option (\<lambda>a. a + requested i xs) (left d' i))"
  proof (rule gives_left)
    show "wf d'" using t by blast
    show "\<forall>(j, q) \<in> set xs. 0 \<le> q \<and> left d' j \<noteq> None"
      using t pos by fastforce
    show "a + requested i xs \<le> c" if l: "left d' i = Some a" and b: "bound d' i = Some c" for i a c
    proof -
      have "left d' i = map_option (\<lambda>a. a - requested i xs) (left d i)" using t by blast
      then obtain b where "left d i = Some b" "a = b - requested i xs"
        using l by (cases "left d i") auto
      moreover have "b \<le> c" using in_range [OF wf] t b calculation(1) by fastforce
      ultimately show ?thesis by simp
    qed
  qed
  with t show ?thesis
    by (auto simp: fun_eq_iff option.map_comp comp_def option.map_ident)
qed

end

interpretation seats: seat_ledger avail capacity stmt_Reserve stmt_Release tickets_ok
proof
  show "\<exists>c. capacity d i = Some c \<and> 0 \<le> a \<and> a \<le> c" if "tickets_ok d" "avail d i = Some a" for d i a
    using tickets_ok_avail [OF that] by blast
  show "\<exists>d'. stmt_Reserve i q d = Inr (1, d')"
    if "tickets_ok d" "avail d i = Some a" "0 \<le> q" "q \<le> a" for d i a q
    using stmt_Reserve_ok [OF that] by blast
  show "\<exists>a. avail d i = Some a \<and> q \<le> a \<and> tickets_ok d' \<and> avail d' = (avail d)(i \<mapsto> a - q) \<and>
      capacity d' = capacity d"
    if "tickets_ok d" "stmt_Reserve i q d = Inr (n, d')" "n \<noteq> 0" "0 \<le> q" for d i q n d'
    using stmt_Reserve_inv [OF that] .
  show "\<exists>d'. stmt_Release i q d = Inr (1, d') \<and> tickets_ok d' \<and> avail d' = (avail d)(i \<mapsto> a + q) \<and>
      capacity d' = capacity d"
    if "tickets_ok d" "avail d i = Some a" "capacity d i = Some c" "0 \<le> q" "a + q \<le> c" for d i a c q
  proof -
    have "int4_ok (a + q)"
      using tickets_ok_avail [OF that(1,2)] that int4_ok_mid [of c "a + q"] by auto
    then show ?thesis using stmt_Release_ok [OF that(1,2,3,4)] that(5) by (simp add: min_absorb2)
  qed
qed

end
