(* ===== verification/Guarded_Status.thy ===== *)
theory Guarded_Status
  imports Go_Prelude
begin

text \<open>
  The contract behind \<^verbatim>\<open>UpdateStatusIfPending\<close>, \<^verbatim>\<open>TransitionIfActive\<close> and
  \<^verbatim>\<open>TransitionIfInitiated\<close>: a conditional \<^verbatim>\<open>UPDATE ... WHERE status IN (...)\<close> that reports
  whether it changed a row. Both services rely on it to decide races between webhooks, pollers
  and consumers. The repositories interpret the locale on their own statements.
\<close>

section \<open>A guarded statement as a decision\<close>

text \<open>What a caller learns from a guarded statement: whether it was applied, and the new table.\<close>

definition decide :: "('d, nat) stmt \<Rightarrow> 'd \<Rightarrow> bool \<times> 'd" where
  "decide q d = (case q d of Inl _ \<Rightarrow> (False, d) | Inr (n, d') \<Rightarrow> (0 < n, d'))"

locale guarded_status =
  fixes status :: "'d \<Rightarrow> 'k \<Rightarrow> 's option"
    and move :: "'k \<Rightarrow> 's \<Rightarrow> 'd \<Rightarrow> bool \<times> 'd"
    and guard :: "'s \<Rightarrow> bool"
    and valid :: "'s \<Rightarrow> bool"
    and wf :: "'d \<Rightarrow> bool"
  assumes move_applied: "wf d \<Longrightarrow> status d k = Some s \<Longrightarrow> guard s \<Longrightarrow> valid s' \<Longrightarrow>
      \<exists>d'. move k s' d = (True, d') \<and> status d' = (status d)(k \<mapsto> s') \<and> wf d'"
    and move_skipped: "wf d \<Longrightarrow> \<forall>s. status d k = Some s \<longrightarrow> \<not> guard s \<Longrightarrow> valid s' \<Longrightarrow>
      move k s' d = (False, d)"
begin

text \<open>Concurrent callers are serialised by the row lock: a list of moves in some order.\<close>

fun moves :: "('k \<times> 's) list \<Rightarrow> 'd \<Rightarrow> bool list \<times> 'd" where
  "moves [] d = ([], d)"
| "moves ((k, s) # ms) d =
     (let (a, d1) = move k s d; (as, d2) = moves ms d1 in (a # as, d2))"

definition winners :: "'k \<Rightarrow> ('k \<times> 's) list \<Rightarrow> bool list \<Rightarrow> nat" where
  "winners k ms as = length (filter (\<lambda>((j, s), a). j = k \<and> a) (zip ms as))"

lemma winners_simps [simp]:
  "winners k [] as = 0"
  "winners k ((j, s) # ms) (a # as) = (if j = k \<and> a then 1 else 0) + winners k ms as"
  by (auto simp: winners_def)

lemma move_cases:
  assumes "wf d" "valid s'"
  obtains (applied) s d' where "status d k = Some s" "guard s" "move k s' d = (True, d')"
      "status d' = (status d)(k \<mapsto> s')" "wf d'"
    | (skipped) "\<forall>s. status d k = Some s \<longrightarrow> \<not> guard s" "move k s' d = (False, d)"
  using move_applied [OF assms(1) _ _ assms(2)] move_skipped [OF assms(1) _ assms(2)] by metis

lemma moves_Cons:
  "fst (moves ((k, s) # ms) d) = fst (move k s d) # fst (moves ms (snd (move k s d)))"
  "snd (moves ((k, s) # ms) d) = snd (moves ms (snd (move k s d)))"
  by (simp_all add: Let_def split: prod.splits)

declare moves.simps(2) [simp del]

text \<open>A status that no longer satisfies the guard is never left.\<close>

lemma settled_stable:
  assumes "wf d" "status d k = Some s" "\<not> guard s" "\<forall>(j, t) \<in> set ms. valid t"
  shows "status (snd (moves ms d)) k = Some s \<and> winners k ms (fst (moves ms d)) = 0"
  using assms
proof (induction ms arbitrary: d)
  case (Cons m ms)
  obtain j t where m: "m = (j, t)" by (cases m)
  with Cons.prems have "wf d" "valid t" by auto
  then show ?case
  proof (cases rule: move_cases [of d t j])
    case (applied u d')
    with Cons.prems m have "j \<noteq> k" by auto
    with applied Cons.IH [of d'] Cons.prems m show ?thesis by (simp add: moves_Cons)
  next
    case skipped
    with Cons.IH [of d] Cons.prems m show ?thesis by (simp add: moves_Cons)
  qed
qed (simp add: winners_def)

text \<open>
  Of any number of competing moves to settled statuses, the first one for a key wins and every
  later one for that key is refused.
\<close>

lemma first_mover_wins:
  assumes "wf d" "status d k = Some s" "guard s" "\<forall>(j, t) \<in> set ms. valid t \<and> \<not> guard t"
    and "find (\<lambda>(j, t). j = k) ms = Some (k, t)"
  shows "status (snd (moves ms d)) k = Some t \<and> winners k ms (fst (moves ms d)) = 1"
  using assms
proof (induction ms arbitrary: d)
  case (Cons m ms)
  obtain j u where m: "m = (j, u)" by (cases m)
  have rest: "\<forall>(i, v) \<in> set ms. valid v" using Cons.prems(4) by auto
  show ?case
  proof (cases "j = k")
    case True
    obtain d' where d': "move k u d = (True, d')" "status d' = (status d)(k \<mapsto> u)" "wf d'"
      using move_applied [OF Cons.prems(1-3)] Cons.prems(4) m by auto
    then have "status d' k = Some u" "\<not> guard u" "u = t"
      using Cons.prems(4,5) m True by auto
    with settled_stable [OF d'(3) _ _ rest, of k u] d'(1) m True show ?thesis
      by (simp add: moves_Cons)
  next
    case False
    from Cons.prems m have "wf d" "valid u" by auto
    then obtain a d' where d': "move j u d = (a, d')" "wf d'" "status d' k = Some s"
      by (cases rule: move_cases [of d u j]) (use Cons.prems(1,2) False in auto)
    with Cons.IH [OF d'(2,3)] Cons.prems m False show ?thesis
      by (simp add: moves_Cons)
  qed
qed simp

end

end
