(* ===== verification/Booking_Repo.thy ===== *)
theory Booking_Repo
  imports Seat_Counter Guarded_Status
begin

text \<open>
  \<^verbatim>\<open>postgres/booking_repo.go\<close>: the tables \<^verbatim>\<open>bookings\<close> and \<^verbatim>\<open>booking_items\<close>. The second half
  shows how the guarded transitions move seats: \<open>held\<close> is the number of seats of a ticket type
  that pending and confirmed bookings hold, and \<open>no_oversell\<close> says that held and available
  seats together never exceed the quantity on sale.
\<close>

section \<open>Statements\<close>

definition stmt_insert_booking :: "Booking \<Rightarrow> time \<Rightarrow> (ticketing_db, unit) stmt" where
  "stmt_insert_booking b now d =
     (let row = \<lparr>br_ID = bk_ID b, br_UserID = bk_UserID b, br_EventID = bk_EventID b,
                 br_Status = bk_Status b, br_ExpiresAt = bk_ExpiresAt b, br_CreatedAt = now\<rparr>
      in if \<not> booking_check row then Inl CheckViolation
         else if bk_ID b \<in> br_ID ` set (bookings d) then Inl UniqueViolation
         else if bk_EventID b \<notin> ev_ID ` set (events d) then Inl ForeignKeyViolation
         else Inr ((), d\<lparr>bookings := bookings d @ [row]\<rparr>))"

definition stmt_insert_item :: "BookingItem \<Rightarrow> int \<Rightarrow> (ticketing_db, unit) stmt" where
  "stmt_insert_item item totalPrice d =
     (let row = \<lparr>ir_ID = bi_ID item, ir_BookingID = bi_BookingID item,
                 ir_TicketTypeID = bi_TicketTypeID item, ir_Quantity = bi_Quantity item,
                 ir_TotalPriceRupiah = totalPrice\<rparr>
      in if \<not> int4_ok (bi_Quantity item) \<or> \<not> int8_ok totalPrice then Inl OutOfRange
         else if \<not> booking_item_check row then Inl CheckViolation
         else if bi_ID item \<in> ir_ID ` set (booking_items d) then Inl UniqueViolation
         else if bi_BookingID item \<notin> br_ID ` set (bookings d) then Inl ForeignKeyViolation
         else Inr ((), d\<lparr>booking_items := booking_items d @ [row]\<rparr>))"

text \<open>\<^verbatim>\<open>UPDATE bookings SET status=$1 WHERE id=$2 AND status=$3\<close>\<close>

definition stmt_transition :: "string \<Rightarrow> string \<Rightarrow> string \<Rightarrow> (ticketing_db, nat) stmt" where
  "stmt_transition bookingID fromStatus toStatus d =
     (let P = (\<lambda>b. br_ID b = bookingID \<and> br_Status b = fromStatus);
          f = (\<lambda>b. b\<lparr>br_Status := toStatus\<rparr>)
      in if \<exists>b \<in> set (bookings d). P b \<and> \<not> booking_check (f b) then Inl CheckViolation
         else Inr (count_where P (bookings d), d\<lparr>bookings := update_where P f (bookings d)\<rparr>))"

text \<open>
  \<^verbatim>\<open>DELETE FROM bookings WHERE id=$1 AND status='pending'\<close>. The foreign key of
  \<^verbatim>\<open>booking_items.booking_id\<close> has no \<^verbatim>\<open>ON DELETE\<close> action, so a booking with items cannot go.
\<close>

definition stmt_delete_booking :: "string \<Rightarrow> (ticketing_db, unit) stmt" where
  "stmt_delete_booking bookingID d =
     (let P = (\<lambda>b. br_ID b = bookingID \<and> br_Status b = ''pending'')
      in if \<exists>b \<in> set (bookings d). P b \<and> br_ID b \<in> ir_BookingID ` set (booking_items d)
         then Inl ForeignKeyViolation
         else Inr ((), d\<lparr>bookings := filter (\<lambda>b. \<not> P b) (bookings d)\<rparr>))"

section \<open>Operations\<close>

fun insert_items :: "BookingItem list \<Rightarrow> unit ticketing_op" where
  "insert_items [] = retE ()"
| "insert_items (item # items) =
     (let totalPrice = (if bi_TotalPriceRupiah item = 0
                        then wrap64 (bi_UnitPriceRupiah item * bi_Quantity item)
                        else bi_TotalPriceRupiah item)
      in bindE (mapErr DbErr (exec (stmt_insert_item item totalPrice))) (\<lambda>_. insert_items items))"

definition booking_Create :: "Booking \<Rightarrow> unit ticketing_op" where
  "booking_Create b =
     withTx DbErr
       (bindE readClock (\<lambda>now.
        bindE (mapErr DbErr (exec (stmt_insert_booking b now))) (\<lambda>_.
        bindE (insert_items (bk_Items b)) (\<lambda>_.
        retE ((), True)))))"

definition row_to_booking :: "booking_row \<Rightarrow> Booking" where
  "row_to_booking r =
     \<lparr>bk_ID = br_ID r, bk_UserID = br_UserID r, bk_EventID = br_EventID r, bk_Status = br_Status r,
      bk_ExpiresAt = br_ExpiresAt r, bk_TotalRupiah = 0, bk_PaymentID = '''', bk_RefundStatus = '''',
      bk_Items = [], bk_CreatedAt = br_CreatedAt r\<rparr>"

definition scan_item :: "booking_item_row \<Rightarrow> BookingItem" where
  "scan_item r =
     \<lparr>bi_ID = ir_ID r, bi_BookingID = ir_BookingID r, bi_TicketTypeID = ir_TicketTypeID r,
      bi_Quantity = ir_Quantity r,
      bi_UnitPriceRupiah =
        (if 0 < ir_Quantity r then go_div (ir_TotalPriceRupiah r) (ir_Quantity r) else 0),
      bi_TotalPriceRupiah = ir_TotalPriceRupiah r\<rparr>"

fun add_items :: "booking_item_row list \<Rightarrow> Booking \<Rightarrow> Booking" where
  "add_items [] b = b"
| "add_items (r # rs) b =
     add_items rs
       (b\<lparr>bk_TotalRupiah := wrap64 (bk_TotalRupiah b + ir_TotalPriceRupiah r),
          bk_Items := bk_Items b @ [scan_item r]\<rparr>)"

definition loadItems :: "Booking \<Rightarrow> Booking ticketing_op" where
  "loadItems b =
     bindE (mapErr DbErr (exec (\<lambda>d.
              Inr (filter (\<lambda>i. ir_BookingID i = bk_ID b) (booking_items d), d))))
       (\<lambda>rows. retE (add_items rows b))"

definition booking_FindByID :: "string \<Rightarrow> Booking ticketing_op" where
  "booking_FindByID bookingID =
     bindE (mapErr DbErr (exec (\<lambda>d. case find (\<lambda>b. br_ID b = bookingID) (bookings d) of
                                        None \<Rightarrow> Inl NoRows
                                      | Some r \<Rightarrow> Inr (row_to_booking r, d))))
       loadItems"

fun load_each :: "Booking list \<Rightarrow> Booking list ticketing_op" where
  "load_each [] = retE []"
| "load_each (b # bs) = bindE (loadItems b) (\<lambda>b'. bindE (load_each bs) (\<lambda>bs'. retE (b' # bs')))"

definition list_bookings :: "(booking_row \<Rightarrow> bool) \<Rightarrow> Booking list ticketing_op" where
  "list_bookings P =
     bindE (mapErr DbErr (exec (\<lambda>d.
              Inr (map row_to_booking (order_desc br_CreatedAt (filter P (bookings d))), d))))
       load_each"

definition booking_ListByUser :: "string \<Rightarrow> Booking list ticketing_op" where
  "booking_ListByUser userID = list_bookings (\<lambda>b. br_UserID b = userID)"

definition booking_ListByEventID :: "string \<Rightarrow> Booking list ticketing_op" where
  "booking_ListByEventID eventID = list_bookings (\<lambda>b. br_EventID b = eventID)"

definition booking_UpdateStatusIfPending :: "string \<Rightarrow> string \<Rightarrow> bool ticketing_op" where
  "booking_UpdateStatusIfPending bookingID status =
     bindE (mapErr DbErr (exec (stmt_transition bookingID ''pending'' status)))
       (\<lambda>n. retE (n = 1))"

fun release_items :: "BookingItem list \<Rightarrow> unit ticketing_op" where
  "release_items [] = retE ()"
| "release_items (item # items) =
     bindE (mapErr DbErr (exec (stmt_Release (bi_TicketTypeID item) (bi_Quantity item))))
       (\<lambda>_. release_items items)"

definition booking_TransitionAndReleaseSeats :: "Booking \<Rightarrow> string \<Rightarrow> bool ticketing_op" where
  "booking_TransitionAndReleaseSeats b toStatus =
     withTx DbErr
       (bindE (mapErr DbErr (exec (stmt_transition (bk_ID b) (bk_Status b) toStatus))) (\<lambda>n.
        if n = 0 then retE (False, False)
        else bindE (release_items (bk_Items b)) (\<lambda>_. retE (True, True))))"

definition booking_Delete :: "string \<Rightarrow> unit ticketing_op" where
  "booking_Delete bookingID = mapErr DbErr (exec (stmt_delete_booking bookingID))"

section \<open>Seats held by bookings\<close>

definition active_status :: "string \<Rightarrow> bool" where
  "active_status s \<longleftrightarrow> s = ''pending'' \<or> s = ''confirmed''"

definition active_booking :: "ticketing_db \<Rightarrow> string \<Rightarrow> bool" where
  "active_booking d b \<longleftrightarrow> (\<exists>r \<in> set (bookings d). br_ID r = b \<and> active_status (br_Status r))"

definition held :: "ticketing_db \<Rightarrow> string \<Rightarrow> int" where
  "held d t =
     (\<Sum>i \<leftarrow> filter (\<lambda>i. ir_TicketTypeID i = t \<and> active_booking d (ir_BookingID i)) (booking_items d).
        ir_Quantity i)"

definition no_oversell :: "ticketing_db \<Rightarrow> bool" where
  "no_oversell d \<longleftrightarrow>
     (\<forall>t \<in> set (ticket_types d). tt_Available t + held d (tt_ID t) \<le> tt_Quantity t)"

text \<open>Seats that a list of items asks for, per ticket type.\<close>

definition items_qty :: "string \<Rightarrow> BookingItem list \<Rightarrow> int" where
  "items_qty t items = (\<Sum>i \<leftarrow> items. if bi_TicketTypeID i = t then bi_Quantity i else 0)"

lemma items_qty_simps [simp]:
  "items_qty t [] = 0"
  "items_qty t (i # items) = (if bi_TicketTypeID i = t then bi_Quantity i else 0) + items_qty t items"
  "items_qty t (items @ items') = items_qty t items + items_qty t items'"
  by (simp_all add: items_qty_def)

lemma items_qty_nonneg: "\<forall>i \<in> set items. 0 \<le> bi_Quantity i \<Longrightarrow> 0 \<le> items_qty t items"
  by (induction items) auto

lemma item_le_items_qty:
  assumes "it \<in> set items" "\<forall>i \<in> set items. 0 \<le> bi_Quantity i"
  shows "bi_Quantity it \<le> items_qty (bi_TicketTypeID it) items"
  using assms
proof (induction items)
  case (Cons i items)
  then have "0 \<le> items_qty (bi_TicketTypeID it) items" by (intro items_qty_nonneg) simp
  with Cons show ?case by auto
qed simp

text \<open>The copy of a booking that a handler works on lists the items stored for it.\<close>

definition snapshot :: "ticketing_db \<Rightarrow> Booking \<Rightarrow> bool" where
  "snapshot d b \<longleftrightarrow>
     bk_Items b = map scan_item (filter (\<lambda>i. ir_BookingID i = bk_ID b) (booking_items d))"

lemma add_items_props:
  "bk_ID (add_items rs b) = bk_ID b" "bk_Status (add_items rs b) = bk_Status b"
  "bk_EventID (add_items rs b) = bk_EventID b" "bk_UserID (add_items rs b) = bk_UserID b"
  "bk_Items (add_items rs b) = bk_Items b @ map scan_item rs"
  by (induction rs arbitrary: b) auto

lemma scan_item_sel [simp]:
  "bi_TicketTypeID (scan_item r) = ir_TicketTypeID r" "bi_Quantity (scan_item r) = ir_Quantity r"
  "bi_ID (scan_item r) = ir_ID r"
  by (simp_all add: scan_item_def)

lemma items_qty_scan:
  "items_qty t (map scan_item rs) = (\<Sum>i \<leftarrow> rs. if ir_TicketTypeID i = t then ir_Quantity i else 0)"
  by (induction rs) auto

lemma held_alt:
  "held d t = (\<Sum>i \<leftarrow> booking_items d.
     if ir_TicketTypeID i = t \<and> active_booking d (ir_BookingID i) then ir_Quantity i else 0)"
  unfolding held_def by (induction "booking_items d" rule: list.induct) (auto simp: sum_list_map_filter')

section \<open>Guarded transitions\<close>

lemma stmt_transition_frame:
  assumes "stmt_transition i st st' d = Inr (n, d')"
  shows "ticket_types d' = ticket_types d" "events d' = events d" "booking_items d' = booking_items d"
    "outbox d' = outbox d" "outbox_seq d' = outbox_seq d"
    "bookings d' = update_where (\<lambda>b. br_ID b = i \<and> br_Status b = st) (\<lambda>b. b\<lparr>br_Status := st'\<rparr>) (bookings d)"
    "n = count_where (\<lambda>b. br_ID b = i \<and> br_Status b = st) (bookings d)"
  using assms by (auto simp: stmt_transition_def Let_def split: if_splits)

lemma stmt_transition_schema:
  assumes "stmt_transition i st st' d = Inr (n, d')" "schema_ok d"
  shows "schema_ok d'"
proof -
  have "br_ID ` set (bookings d') = br_ID ` set (bookings d)"
    using stmt_transition_frame(6) [OF assms(1)]
      map_update_where [of br_ID "\<lambda>b. b\<lparr>br_Status := st'\<rparr>"] by (metis (no_types, lifting)
      booking_row.select_convs(1) booking_row.surjective booking_row.update_convs(4) image_set)
  with assms show ?thesis
    by (auto simp: stmt_transition_def schema_ok_def map_update_where table_simps Let_def split: if_splits)
qed


section \<open>Releasing seats\<close>

text \<open>
  What the release loop of a transaction may do to the ticket types: each keeps its identity and
  its quantity and gains at most the seats the items ask for.
\<close>

definition shifted :: "(string \<Rightarrow> int) \<Rightarrow> ticketing_db \<Rightarrow> ticketing_db \<Rightarrow> bool" where
  "shifted g d d' \<longleftrightarrow>
     list_all2 (\<lambda>t t'. tt_ID t' = tt_ID t \<and> tt_Quantity t' = tt_Quantity t \<and>
                  tt_Available t' \<le> tt_Available t + g (tt_ID t)) (ticket_types d) (ticket_types d') \<and>
     bookings d' = bookings d \<and> booking_items d' = booking_items d \<and> events d' = events d \<and>
     outbox d' = outbox d \<and> outbox_seq d' = outbox_seq d"

lemma shifted_refl: "shifted (\<lambda>_. 0) d d"
  by (simp add: shifted_def list_all2_refl)

lemma shifted_trans:
  assumes "shifted g d d1" "shifted h d1 d2"
  shows "shifted (\<lambda>t. g t + h t) d d2"
  using assms unfolding shifted_def list_all2_conv_all_nth by (fastforce simp: add.assoc)

lemma list_all2_update_where:
  "(\<And>r. r \<in> set rs \<Longrightarrow> R r (if P r then f r else r)) \<Longrightarrow> list_all2 R rs (update_where P f rs)"
  by (induction rs) auto

lemma stmt_Release_shifted:
  assumes "stmt_Release i q d = Inr (n, d')"
  shows "shifted (\<lambda>t. if i = t then q else 0) d d'"
proof -
  have u: "update_tickets (\<lambda>t. tt_ID t = i) (\<lambda>t. tt_Available t + q)
      (\<lambda>t. t\<lparr>tt_Available := min (tt_Quantity t) (tt_Available t + q)\<rparr>) d = Inr (n, d')"
    using assms by (auto simp: stmt_Release_def split: if_splits)
  show ?thesis
    unfolding shifted_def update_tickets_frame [OF u]
    by (auto intro!: list_all2_update_where)
qed

lemma stmt_Release_schema: "stmt_Release i q d = Inr (n, d') \<Longrightarrow> schema_ok d \<Longrightarrow> schema_ok d'"
  by (auto simp: stmt_Release_def split: if_splits elim!: update_tickets_schema)

lemma stmt_Reserve_schema: "stmt_Reserve i q d = Inr (n, d') \<Longrightarrow> schema_ok d \<Longrightarrow> schema_ok d'"
  by (auto simp: stmt_Reserve_def split: if_splits elim!: update_tickets_schema)

lemma release_items_shifted:
  "release_items items w = (Inr u, w') \<Longrightarrow> schema_ok (db w) \<Longrightarrow>
   schema_ok (db w') \<and> shifted (\<lambda>t. items_qty t items) (db w) (db w')"
proof (induction items arbitrary: w)
  case Nil
  then show ?case by (simp add: op_defs shifted_refl)
next
  case (Cons item items)
  let ?q = "stmt_Release (bi_TicketTypeID item) (bi_Quantity item)"
  obtain n w1 where e: "exec ?q w = (Inr n, w1)" and r: "release_items items w1 = (Inr u, w')"
    using Cons.prems(1) by (auto simp: op_defs mapErr_def split: prod.splits sum.splits)
  note q = exec_Inr(1) [OF e]
  have "schema_ok (db w1)" by (rule stmt_Release_schema [OF q Cons.prems(2)])
  with Cons.IH [OF r] shifted_trans [OF stmt_Release_shifted [OF q]] show ?case
    by simp
qed

section \<open>No transition oversells\<close>

lemma active_booking_transition:
  assumes t: "stmt_transition i st st' d = Inr (n, d')" "n \<noteq> 0" and ok: "schema_ok d"
  shows "active_booking d' x \<longleftrightarrow> (if x = i then active_status st' else active_booking d x)"
    and "\<exists>r \<in> set (bookings d). br_ID r = i \<and> br_Status r = st"
proof -
  note f = stmt_transition_frame [OF t(1)]
  show ex: "\<exists>r \<in> set (bookings d). br_ID r = i \<and> br_Status r = st"
    using t(2) unfolding f(7) by (simp add: count_where_0)
  then obtain r where r: "r \<in> set (bookings d)" "br_ID r = i" "br_Status r = st" by blast
  have uniq: "b = r" if "b \<in> set (bookings d)" "br_ID b = i" for b
    using ok that r unfolding schema_ok_def by (auto dest: inj_onD simp: distinct_map)
  have b': "(b \<in> set (bookings d') \<and> br_ID b = x) \<longleftrightarrow>
      (if x = i then b = r\<lparr>br_Status := st'\<rparr> else b \<in> set (bookings d) \<and> br_ID b = x)" for b
    unfolding f(6) in_set_update_where using r uniq by (cases "x = i") force+
  show "active_booking d' x \<longleftrightarrow> (if x = i then active_status st' else active_booking d x)"
    unfolding active_booking_def Bex_def conj_assoc [symmetric] b' by auto
qed

lemma active_bookingI:
  "r \<in> set (bookings d) \<Longrightarrow> active_status (br_Status r) \<Longrightarrow> active_booking d (br_ID r)"
  by (auto simp: active_booking_def)

lemma held_drop:
  assumes items: "booking_items d' = booking_items d"
    and act: "\<And>x. active_booking d' x \<longleftrightarrow> x \<noteq> i \<and> active_booking d x" and i: "active_booking d i"
  shows "held d' t = held d t -
    items_qty t (map scan_item (filter (\<lambda>r. ir_BookingID r = i) (booking_items d)))"
proof -
  let ?f = "\<lambda>P r. if ir_TicketTypeID r = t \<and> P (ir_BookingID r) then ir_Quantity r else 0"
  have "(\<Sum>r \<leftarrow> rs. ?f (active_booking d') r) = (\<Sum>r \<leftarrow> rs. ?f (active_booking d) r) -
      (\<Sum>r \<leftarrow> filter (\<lambda>r. ir_BookingID r = i) rs. if ir_TicketTypeID r = t then ir_Quantity r else 0)" for rs
    using i by (induction rs) (auto simp: act)
  then show ?thesis by (simp add: held_alt items items_qty_scan)
qed

lemma held_same:
  "booking_items d' = booking_items d \<Longrightarrow> (\<And>x. active_booking d' x = active_booking d x) \<Longrightarrow> held d' t = held d t"
  by (simp add: held_alt)

text \<open>
  \<open>covered g\<close>: beside what the bookings hold, \<open>g\<close> seats of every type are in the hands of
  reservations that are still under way. The inventory invariant is the case without any.
\<close>

definition covered :: "(string \<Rightarrow> int) \<Rightarrow> ticketing_db \<Rightarrow> bool" where
  "covered g d \<longleftrightarrow> schema_ok d \<and>
     (\<forall>t \<in> set (ticket_types d). tt_Available t + (held d (tt_ID t) + g (tt_ID t)) \<le> tt_Quantity t)"

lemma seats_shifted:
  assumes "shifted g d d1" and "ticket_types d' = ticket_types d1" and "\<And>t. h' t + g t \<le> h t"
    and "\<And>t. t \<in> set (ticket_types d) \<Longrightarrow> tt_Available t + h (tt_ID t) \<le> tt_Quantity t"
  shows "\<forall>t \<in> set (ticket_types d'). tt_Available t + h' (tt_ID t) \<le> tt_Quantity t"
proof
  fix t' assume "t' \<in> set (ticket_types d')"
  then obtain k where k: "k < length (ticket_types d')" "t' = ticket_types d' ! k"
    by (auto simp: in_set_conv_nth)
  let ?t = "ticket_types d ! k"
  have eq: "tt_ID t' = tt_ID ?t" "tt_Quantity t' = tt_Quantity ?t" "tt_Available t' \<le> tt_Available ?t + g (tt_ID ?t)"
    and len: "length (ticket_types d) = length (ticket_types d')"
    using assms(1,2) k by (auto simp: shifted_def list_all2_conv_all_nth)
  have "tt_Available ?t + h (tt_ID ?t) \<le> tt_Quantity ?t" using assms(4) k len by simp
  with assms(3) [of "tt_ID ?t"] eq show "tt_Available t' + h' (tt_ID t') \<le> tt_Quantity t'" by simp
qed

lemma covered_shifted:
  assumes "shifted s d d1" "ticket_types d' = ticket_types d1" "schema_ok d'" "covered g d"
    and "\<And>t. held d' t + g' t + s t \<le> held d t + g t"
  shows "covered g' d'"
  unfolding covered_def
  using seats_shifted [OF assms(1,2), of "\<lambda>t. held d' t + g' t" "\<lambda>t. held d t + g t"] assms(3-5)
  by (simp add: covered_def)

lemma no_oversell_shifted:
  assumes "shifted g d d1" and "ticket_types d' = ticket_types d1" and "\<And>t. held d' t + g t \<le> h t"
    and "\<And>t. t \<in> set (ticket_types d) \<Longrightarrow> tt_Available t + h (tt_ID t) \<le> tt_Quantity t"
  shows "no_oversell d'"
  unfolding no_oversell_def by (rule seats_shifted [OF assms])

text \<open>A booking's own transition keeps the held seats, a release gives back exactly its own.\<close>

lemma transition_active_covered:
  assumes t: "stmt_transition i st st' d = Inr (n, d')" and ok: "covered g d"
    and st: "active_status st" "active_status st'"
  shows "covered g d'"
proof -
  note f = stmt_transition_frame [OF t]
  have schema: "schema_ok d" using ok by (simp add: covered_def)
  have act: "active_booking d' x = active_booking d x" for x
  proof (cases "n = 0")
    case True
    then have "bookings d' = bookings d"
      unfolding f(6) by (intro update_where_none) (use f(7) in \<open>auto simp: count_where_0\<close>)
    then show ?thesis by (simp add: active_booking_def)
  next
    case False
    with active_booking_transition [OF t False schema] st show ?thesis by (auto simp: active_booking_def)
  qed
  with ok stmt_transition_schema [OF t schema] show ?thesis
    by (simp add: covered_def f(1) held_same [OF f(3)])
qed

lemma TransitionAndReleaseSeats_body:
  assumes inv: "covered g (db w)" and b: "snapshot (db w) b"
    and st: "active_status (bk_Status b)" "\<not> active_status st'"
    and t: "exec (stmt_transition (bk_ID b) (bk_Status b) st') w = (Inr n, w1)" "n \<noteq> 0"
    and r: "release_items (bk_Items b) w1 = (Inr u, w2)"
  shows "covered g (db w2)"
proof -
  note q = exec_Inr(1) [OF t(1)]
  have schema: "schema_ok (db w)" using inv by (simp add: covered_def)
  note f = stmt_transition_frame [OF q] and act = active_booking_transition [OF q t(2) schema]
  have "active_booking (db w) (bk_ID b)" using act(2) st(1) by (auto simp: active_booking_def)
  with act(1) st(2) b have h: "held (db w1) t = held (db w) t - items_qty t (bk_Items b)" for t
    unfolding snapshot_def by (subst held_drop [OF f(3)]) auto
  have sh: "schema_ok (db w2)" "shifted (\<lambda>t. items_qty t (bk_Items b)) (db w1) (db w2)"
    using release_items_shifted [OF r] stmt_transition_schema [OF q schema] by auto
  have "held (db w2) t = held (db w1) t" for t
    using sh(2) by (intro held_same) (auto simp: shifted_def active_booking_def)
  moreover have cov: "covered (\<lambda>t. g t + items_qty t (bk_Items b)) (db w1)"
    using inv stmt_transition_schema [OF q schema] by (simp add: covered_def f(1) h)
  ultimately show ?thesis by (intro covered_shifted [OF sh(2) refl sh(1) cov]) simp
qed

text \<open>The inventory invariant of the ticketing service.\<close>

definition inventory_ok :: "ticketing_db \<Rightarrow> bool" where
  "inventory_ok d \<longleftrightarrow> schema_ok d \<and> no_oversell d"

lemma inventory_okD: "inventory_ok d \<Longrightarrow> schema_ok d" "inventory_ok d \<Longrightarrow> no_oversell d"
  by (simp_all add: inventory_ok_def)

lemma inventory_ok_outbox [simp]:
  "inventory_ok (d\<lparr>outbox := x\<rparr>) = inventory_ok d" "inventory_ok (d\<lparr>outbox_seq := n\<rparr>) = inventory_ok d"
  by (simp_all add: inventory_ok_def no_oversell_def held_def active_booking_def)

lemma snapshot_items: "booking_items d' = booking_items d \<Longrightarrow> snapshot d' b = snapshot d b"
  by (simp add: snapshot_def)

lemma inventory_covered: "inventory_ok d \<longleftrightarrow> covered (\<lambda>_. 0) d"
  by (simp add: inventory_ok_def covered_def no_oversell_def)

lemma TransitionAndReleaseSeats_covered:
  assumes "active_status (bk_Status b)" "\<not> active_status st'"
  shows "hoare (\<lambda>d. covered g d \<and> booking_items d = its \<and> snapshot d b)
    (booking_TransitionAndReleaseSeats b st')
    (\<lambda>_ d. covered g d \<and> booking_items d = its) (\<lambda>d. covered g d \<and> booking_items d = its)"
  unfolding booking_TransitionAndReleaseSeats_def
proof (rule hoare_withTx)
  fix w a c w'
  assume P: "covered g (db w) \<and> booking_items (db w) = its \<and> snapshot (db w) b"
    and r: "bindE (mapErr DbErr (exec (stmt_transition (bk_ID b) (bk_Status b) st'))) (\<lambda>n.
        if n = 0 then retE (False, False)
        else bindE (release_items (bk_Items b)) (\<lambda>_. retE (True, True))) w = (Inr (a, c), w')"
  show "if c then covered g (db w') \<and> booking_items (db w') = its
        else covered g (db w) \<and> booking_items (db w) = its"
  proof (cases c)
    case True
    then obtain n w1 u where t: "exec (stmt_transition (bk_ID b) (bk_Status b) st') w = (Inr n, w1)" "n \<noteq> 0"
      and rel: "release_items (bk_Items b) w1 = (Inr u, w')"
      using r by (auto simp: op_defs mapErr_def split: prod.splits sum.splits if_splits)
    have "schema_ok (db w1)"
      using stmt_transition_schema [OF exec_Inr(1) [OF t(1)]] P by (simp add: covered_def)
    then have "booking_items (db w') = its"
      using release_items_shifted [OF rel] stmt_transition_frame(3) [OF exec_Inr(1) [OF t(1)]] P
      by (simp add: shifted_def)
    with TransitionAndReleaseSeats_body [OF _ _ assms t rel] P True show ?thesis by simp
  qed (use P in simp)
qed auto

lemmas TransitionAndReleaseSeats_triple = TransitionAndReleaseSeats_covered [where g = "\<lambda>_. 0", folded inventory_covered]

section \<open>What the readers return\<close>

lemma read_only_loadItems [reading]: "read_only (loadItems b)"
  by (auto simp: loadItems_def intro!: reading)

lemma loadItems_Inr:
  "loadItems b w = (Inr b', w') \<Longrightarrow>
   b' = add_items (filter (\<lambda>i. ir_BookingID i = bk_ID b) (booking_items (db w))) b"
  by (auto simp: loadItems_def op_defs mapErr_def split: prod.splits sum.splits dest: exec_Inr)

lemma loadItems_snapshot:
  "loadItems (row_to_booking r) w = (Inr b, w') \<Longrightarrow>
   snapshot (db w) b \<and> bk_ID b = br_ID r \<and> bk_Status b = br_Status r \<and> bk_EventID b = br_EventID r \<and>
   bk_UserID b = br_UserID r"
  by (drule loadItems_Inr) (simp add: snapshot_def add_items_props row_to_booking_def)

lemma read_only_FindByID [reading]: "read_only (booking_FindByID i)"
  by (auto simp: booking_FindByID_def intro!: reading split: option.splits)

lemma FindByID_snapshot:
  assumes "booking_FindByID i w = (Inr b, w')"
  shows "snapshot (db w) b \<and> bk_ID b = i \<and>
    (\<exists>r. find (\<lambda>x. br_ID x = i) (bookings (db w)) = Some r \<and> bk_Status b = br_Status r \<and>
         bk_EventID b = br_EventID r \<and> bk_UserID b = br_UserID r)"
proof -
  obtain r w1 where r: "find (\<lambda>x. br_ID x = i) (bookings (db w)) = Some r" "db w1 = db w"
    and l: "loadItems (row_to_booking r) w1 = (Inr b, w')"
    using assms
    by (auto simp: booking_FindByID_def op_defs mapErr_def split: prod.splits sum.splits option.splits
        dest!: exec_Inr(1))
  from loadItems_snapshot [OF l] r find_SomeD [OF r(1)] show ?thesis by auto
qed

lemma list_all2_back: "list_all2 R xs ys \<Longrightarrow> \<forall>y \<in> set ys. \<exists>x \<in> set xs. R x y"
  by (induction rule: list_all2_induct) auto

lemma read_only_load_each [reading]: "read_only (load_each bs)"
  by (induction bs) (auto intro!: reading)

lemma load_each_snapshot:
  "load_each (map row_to_booking rs) w = (Inr bs, w') \<Longrightarrow> booking_items (db w) = its \<Longrightarrow>
   list_all2 (\<lambda>r b. bk_ID b = br_ID r \<and> bk_Status b = br_Status r \<and> bk_EventID b = br_EventID r \<and>
                bk_UserID b = br_UserID r \<and>
                bk_Items b = map scan_item (filter (\<lambda>i. ir_BookingID i = bk_ID b) its)) rs bs"
proof (induction rs arbitrary: w bs w')
  case (Cons r rs)
  then obtain b w1 bs1 w2 where l: "loadItems (row_to_booking r) w = (Inr b, w1)"
      "load_each (map row_to_booking rs) w1 = (Inr bs1, w2)" and bs: "bs = b # bs1"
    by (auto simp: op_defs split: prod.splits sum.splits)
  have "db w1 = db w" by (rule read_onlyD [OF read_only_loadItems l(1)])
  with Cons.IH [OF l(2)] loadItems_snapshot [OF l(1)] Cons.prems(2) bs show ?case
    by (simp add: snapshot_def)
qed (simp add: op_defs)

lemma read_only_list_bookings [reading]: "read_only (list_bookings P)"
  by (auto simp: list_bookings_def intro!: reading)

lemma list_bookings_snapshot:
  assumes "list_bookings P w = (Inr bs, w')"
  shows "\<forall>b \<in> set bs. snapshot (db w) b \<and>
    (\<exists>r \<in> set (bookings (db w)). P r \<and> br_ID r = bk_ID b \<and> br_Status r = bk_Status b \<and>
       br_EventID r = bk_EventID b \<and> br_UserID r = bk_UserID b)"
proof -
  let ?rs = "order_desc br_CreatedAt (filter P (bookings (db w)))"
  obtain w1 where "load_each (map row_to_booking ?rs) w1 = (Inr bs, w')" "db w1 = db w"
    using assms
    by (auto simp: list_bookings_def op_defs mapErr_def split: prod.splits sum.splits dest!: exec_Inr(1))
  then have "list_all2 (\<lambda>r b. bk_ID b = br_ID r \<and> bk_Status b = br_Status r \<and> bk_EventID b = br_EventID r \<and>
      bk_UserID b = br_UserID r \<and>
      bk_Items b = map scan_item (filter (\<lambda>i. ir_BookingID i = bk_ID b) (booking_items (db w)))) ?rs bs"
    using load_each_snapshot by simp
  then show ?thesis by (fastforce simp: snapshot_def dest!: list_all2_back)
qed


section \<open>Races for a pending booking\<close>

text \<open>
  Confirmation, expiry and cancellation race for a pending booking through
  \<^verbatim>\<open>UPDATE bookings ... WHERE id=$2 AND status='pending'\<close>: the statement is a guarded
  status, so the first of them wins.
\<close>

definition booking_status :: "ticketing_db \<Rightarrow> string \<Rightarrow> string option" where
  "booking_status d i = map_option br_Status (find (\<lambda>b. br_ID b = i) (bookings d))"

definition leave_pending :: "string \<Rightarrow> string \<Rightarrow> ticketing_db \<Rightarrow> bool \<times> ticketing_db" where
  "leave_pending i st = decide (stmt_transition i ''pending'' st)"

lemma schema_ok_booking:
  "schema_ok d \<Longrightarrow> find (\<lambda>b. br_ID b = i) (bookings d) = Some r \<Longrightarrow> b \<in> set (bookings d) \<Longrightarrow>
   br_ID b = i \<Longrightarrow> b = r"
  using distinct_map_find [of br_ID "bookings d" b] by (simp add: schema_ok_def)

lemma stmt_transition_applied:
  assumes ok: "schema_ok d" and s: "booking_status d i = Some fr"
    and st: "st \<in> {''confirmed'', ''expired'', ''cancelled''}"
  shows "\<exists>n d'. stmt_transition i fr st d = Inr (n, d') \<and> 0 < n \<and>
    booking_status d' = (booking_status d)(i \<mapsto> st)"
proof -
  obtain r where r: "find (\<lambda>b. br_ID b = i) (bookings d) = Some r" "br_Status r = fr"
    using s by (auto simp: booking_status_def)
  note mem = find_SomeD [OF r(1)]
  have "\<not> (\<exists>b \<in> set (bookings d). (br_ID b = i \<and> br_Status b = fr) \<and> \<not> booking_check (b\<lparr>br_Status := st\<rparr>))"
    using st by (auto simp: booking_check_def)
  moreover have "0 < count_where (\<lambda>b. br_ID b = i \<and> br_Status b = fr) (bookings d)"
    using mem r(2) by (auto simp: count_where_0 simp flip: neq0_conv)
  ultimately obtain n d' where t: "stmt_transition i fr st d = Inr (n, d')" and n: "0 < n"
    by (auto simp: stmt_transition_def Let_def)
  have "booking_status d' j = ((booking_status d)(i \<mapsto> st)) j" for j
    using stmt_transition_frame(6) [OF t] r mem
    by (cases "find (\<lambda>b. br_ID b = j) (bookings d)")
      (auto simp: booking_status_def find_update_where dest: find_SomeD)
  with t n show ?thesis by auto
qed

lemma leave_pending_applied:
  assumes "schema_ok d" "booking_status d i = Some ''pending''" "st \<in> {''confirmed'', ''expired'', ''cancelled''}"
  shows "\<exists>d'. leave_pending i st d = (True, d') \<and> booking_status d' = (booking_status d)(i \<mapsto> st) \<and> schema_ok d'"
proof -
  obtain n d' where t: "stmt_transition i ''pending'' st d = Inr (n, d')" "0 < n"
      "booking_status d' = (booking_status d)(i \<mapsto> st)"
    using stmt_transition_applied [OF assms] by blast
  with stmt_transition_schema [OF t(1) assms(1)] show ?thesis by (auto simp: leave_pending_def decide_def)
qed

lemma leave_pending_skipped:
  assumes ok: "schema_ok d" and s: "booking_status d i \<noteq> Some ''pending''"
  shows "leave_pending i st d = (False, d)"
proof -
  have none: "\<not> (br_ID b = i \<and> br_Status b = ''pending'')" if "b \<in> set (bookings d)" for b
    using s that distinct_map_find [of br_ID "bookings d" b] ok
    by (auto simp: booking_status_def schema_ok_def)
  then show ?thesis
    by (auto simp: leave_pending_def decide_def stmt_transition_def Let_def count_where_0
        update_where_none [OF none])
qed

interpretation booking_race: guarded_status booking_status leave_pending
  "\<lambda>s. s = ''pending''" "\<lambda>s. s \<in> {''confirmed'', ''expired'', ''cancelled''}" schema_ok
proof
  show "\<exists>d'. leave_pending k s' d = (True, d') \<and> booking_status d' = (booking_status d)(k \<mapsto> s') \<and> schema_ok d'"
    if "schema_ok d" "booking_status d k = Some s" "s = ''pending''"
      "s' \<in> {''confirmed'', ''expired'', ''cancelled''}" for d k s s'
    using leave_pending_applied that by blast
  show "leave_pending k s' d = (False, d)"
    if "schema_ok d" "\<forall>s. booking_status d k = Some s \<longrightarrow> s \<noteq> ''pending''" for d k s'
    using leave_pending_skipped that by blast
qed

section \<open>Deleting a booking\<close>

text \<open>
  A pending booking with items cannot be deleted: the foreign key of its items refuses it.
\<close>

lemma stmt_delete_booking_refused:
  assumes "r \<in> set (bookings d)" "br_ID r = i" "br_Status r = ''pending''"
    "\<exists>it \<in> set (booking_items d). ir_BookingID it = i"
  shows "stmt_delete_booking i d = Inl ForeignKeyViolation"
  using assms by (auto simp: stmt_delete_booking_def Let_def image_iff) metis

section \<open>Races\<close>

text \<open>
  Confirmation, expiry and cancellation of one booking may be attempted any number of
  times in any order; the booking takes the status of the first attempt, exactly one attempt
  is told that it was applied and every later one changes nothing.
\<close>

theorem booking_race_decided:
  assumes "schema_ok d" "booking_status d k = Some ''pending''"
    and "\<forall>(j, t) \<in> set ms. t \<in> {''confirmed'', ''expired'', ''cancelled''}"
    and "find (\<lambda>(j, t). j = k) ms = Some (k, t)"
  shows "booking_status (snd (booking_race.moves ms d)) k = Some t \<and>
    booking_race.winners k ms (fst (booking_race.moves ms d)) = 1"
proof (rule booking_race.first_mover_wins [OF assms(1,2) _ _ assms(4)])
  show "\<forall>(j, t) \<in> set ms. t \<in> {''confirmed'', ''expired'', ''cancelled''} \<and> \<not> t = ''pending''"
    using assms(3) by fastforce
qed simp

end
