(* ===== verification/Event_Repo.thy ===== *)
theory Event_Repo
  imports Seat_Counter
begin

text \<open>
  \<^verbatim>\<open>postgres/event_repo.go\<close> and \<^verbatim>\<open>postgres/event_status_repo.go\<close>: the tables \<^verbatim>\<open>events\<close>
  and \<^verbatim>\<open>ticket_types\<close>. The lists select fewer columns than a lookup does, so their structs
  carry zero values in the others.
\<close>

section \<open>Statements\<close>

definition stmt_insert_event :: "Event \<Rightarrow> time \<Rightarrow> (ticketing_db, unit) stmt" where
  "stmt_insert_event e now d =
     (let row = e\<lparr>ev_ReviewedBy := None, ev_ReviewedAt := None, ev_CreatedAt := now, ev_UpdatedAt := now\<rparr>
      in if \<not> int4_ok (ev_VenueCapacity e) then Inl OutOfRange
         else if \<not> event_check row then Inl CheckViolation
         else if ev_ID e \<in> ev_ID ` set (events d) then Inl UniqueViolation
         else Inr ((), d\<lparr>events := events d @ [row]\<rparr>))"

definition write_event :: "Event \<Rightarrow> time \<Rightarrow> Event \<Rightarrow> Event" where
  "write_event e now row =
     row\<lparr>ev_Title := ev_Title e, ev_Description := ev_Description e, ev_StartAt := ev_StartAt e,
         ev_EndAt := ev_EndAt e, ev_Status := ev_Status e, ev_ReviewedBy := ev_ReviewedBy e,
         ev_ReviewedAt := ev_ReviewedAt e, ev_UpdatedAt := now\<rparr>"

definition stmt_update_event :: "Event \<Rightarrow> time \<Rightarrow> (ticketing_db, unit) stmt" where
  "stmt_update_event e now d =
     (if \<exists>row \<in> set (events d). ev_ID row = ev_ID e \<and> \<not> event_check (write_event e now row)
      then Inl CheckViolation
      else Inr ((), d\<lparr>events := update_where (\<lambda>row. ev_ID row = ev_ID e) (write_event e now) (events d)\<rparr>))"

definition stmt_insert_ticket :: "TicketType \<Rightarrow> (ticketing_db, unit) stmt" where
  "stmt_insert_ticket tt d =
     (let row = tt\<lparr>tt_Available := 0\<rparr>
      in if \<not> int8_ok (tt_PriceRupiah tt) \<or> \<not> int4_ok (tt_Quantity tt) \<or> \<not> int4_ok (tt_MaxPerOrder tt)
         then Inl OutOfRange
         else if \<not> ticket_check row then Inl CheckViolation
         else if tt_ID tt \<in> tt_ID ` set (ticket_types d) then Inl UniqueViolation
         else if tt_EventID tt \<notin> ev_ID ` set (events d) then Inl ForeignKeyViolation
         else Inr ((), d\<lparr>ticket_types := ticket_types d @ [row]\<rparr>))"

section \<open>Operations\<close>

definition repo_CreateEvent :: "Event \<Rightarrow> unit ticketing_op" where
  "repo_CreateEvent e = bindE readClock (\<lambda>now. mapErr DbErr (exec (stmt_insert_event e now)))"

definition repo_UpdateEvent :: "Event \<Rightarrow> unit ticketing_op" where
  "repo_UpdateEvent e = bindE readClock (\<lambda>now. mapErr DbErr (exec (stmt_update_event e now)))"

definition FindEventByID :: "string \<Rightarrow> Event ticketing_op" where
  "FindEventByID i =
     mapErr DbErr (exec (\<lambda>d. case find (\<lambda>e. ev_ID e = i) (events d) of
                                None \<Rightarrow> Inl NoRows
                              | Some e \<Rightarrow> Inr (e, d)))"

definition scan_event :: "Event \<Rightarrow> Event" where
  "scan_event e = e\<lparr>ev_ReviewedBy := None, ev_ReviewedAt := None\<rparr>"

text \<open>The error of the \<^verbatim>\<open>COUNT\<close> query is dropped and leaves a total of zero.\<close>

definition count_events :: "(Event \<Rightarrow> bool) \<Rightarrow> (int \<Rightarrow> 'a ticketing_op) \<Rightarrow> 'a ticketing_op" where
  "count_events P k =
     handleE (exec (\<lambda>d. Inr (int (count_where P (events d)), d))) (\<lambda>_. k 0) k"

definition select_page ::
    "(Event \<Rightarrow> bool) \<Rightarrow> (Event list \<Rightarrow> Event list) \<Rightarrow> int \<Rightarrow> int \<Rightarrow> Event list ticketing_op" where
  "select_page P ord lim off =
     mapErr DbErr (exec (\<lambda>d.
       if lim < 0 \<or> off < 0 then Inl ConnFailed
       else Inr (map scan_event (limit_offset lim off (ord (filter P (events d)))), d)))"

definition repo_ListPublished :: "int \<Rightarrow> int \<Rightarrow> (Event list \<times> int) ticketing_op" where
  "repo_ListPublished lim off =
     count_events (\<lambda>e. ev_Status e = ''published'') (\<lambda>tot.
     bindE (select_page (\<lambda>e. ev_Status e = ''published'') (order_asc ev_StartAt) lim off) (\<lambda>evs.
     retE (evs, tot)))"

definition repo_ListByOrganizer :: "string \<Rightarrow> Event list ticketing_op" where
  "repo_ListByOrganizer organizerID =
     mapErr DbErr (exec (\<lambda>d.
       Inr (map scan_event (order_desc ev_CreatedAt
              (filter (\<lambda>e. ev_OrganizerID e = organizerID) (events d))), d)))"

definition repo_ListPending :: "int \<Rightarrow> int \<Rightarrow> (Event list \<times> int) ticketing_op" where
  "repo_ListPending lim off =
     count_events (\<lambda>e. ev_Status e = ''pending'') (\<lambda>tot.
     bindE (select_page (\<lambda>e. ev_Status e = ''pending'') (order_asc ev_CreatedAt) lim off) (\<lambda>evs.
     retE (evs, tot)))"

definition repo_FindAll :: "string \<Rightarrow> int \<Rightarrow> int \<Rightarrow> (Event list \<times> int) ticketing_op" where
  "repo_FindAll status lim off =
     count_events (\<lambda>e. status = '''' \<or> ev_Status e = status) (\<lambda>tot.
     bindE (select_page (\<lambda>e. status = '''' \<or> ev_Status e = status) (order_desc ev_CreatedAt) lim off) (\<lambda>evs.
     retE (evs, tot)))"

text \<open>The ticket types are inserted one by one, outside a transaction.\<close>

fun CreateTicketTypes :: "TicketType list \<Rightarrow> unit ticketing_op" where
  "CreateTicketTypes [] = retE ()"
| "CreateTicketTypes (tt # types) =
     bindE (mapErr DbErr (exec (stmt_insert_ticket tt))) (\<lambda>_. CreateTicketTypes types)"

definition ListTicketTypesByEvent :: "string \<Rightarrow> TicketType list ticketing_op" where
  "ListTicketTypesByEvent eventID =
     mapErr DbErr (exec (\<lambda>d.
       Inr (map (\<lambda>t. t\<lparr>tt_Available := 0\<rparr>)
              (filter (\<lambda>t. tt_EventID t = eventID) (ticket_types d)), d)))"

definition IsPublished :: "string \<Rightarrow> bool ticketing_op" where
  "IsPublished eventID =
     handleE (exec (\<lambda>d. case find (\<lambda>e. ev_ID e = eventID) (events d) of
                            None \<Rightarrow> Inl NoRows
                          | Some e \<Rightarrow> Inr (ev_Status e, d)))
       (\<lambda>e. if e = NoRows then retE False else failE (DbErr e))
       (\<lambda>status. retE (status = ''published''))"

section \<open>What they keep\<close>

lemma read_only_event_queries [reading]:
  "read_only (FindEventByID i)" "read_only (ListTicketTypesByEvent i)" "read_only (IsPublished i)"
  "read_only (select_page P ord lim off)" "read_only (repo_ListByOrganizer i)"
  by (auto simp: FindEventByID_def ListTicketTypesByEvent_def IsPublished_def select_page_def
      repo_ListByOrganizer_def intro!: reading split: option.splits if_splits)

lemma read_only_count_events [reading]: "(\<And>n. read_only (k n)) \<Longrightarrow> read_only (count_events P k)"
  by (auto simp: count_events_def intro!: reading)

lemma read_only_event_lists [reading]:
  "read_only (repo_ListPublished lim off)" "read_only (repo_ListPending lim off)"
  "read_only (repo_FindAll st lim off)"
  by (auto simp: repo_ListPublished_def repo_ListPending_def repo_FindAll_def intro!: reading)

lemma FindEventByID_Inr:
  "FindEventByID i w = (Inr e, w') \<Longrightarrow> find (\<lambda>x. ev_ID x = i) (events (db w)) = Some e \<and> db w' = db w"
  by (auto simp: FindEventByID_def mapErr_def split: prod.splits sum.splits option.splits dest!: exec_Inr(1))

lemma write_event_ID [simp]:
  "ev_ID (write_event e now row) = ev_ID row" "ev_Status (write_event e now row) = ev_Status e"
  "ev_VenueCapacity (write_event e now row) = ev_VenueCapacity row"
  "ev_OrganizerID (write_event e now row) = ev_OrganizerID row"
  by (simp_all add: write_event_def)

lemma stmt_insert_event_schema:
  "stmt_insert_event e now d = Inr (u, d') \<Longrightarrow> schema_ok d \<Longrightarrow> schema_ok d'"
  by (auto simp: stmt_insert_event_def Let_def schema_ok_def split: if_splits)

lemma stmt_update_event_schema:
  assumes u: "stmt_update_event e now d = Inr (x, d')" and ok: "schema_ok d"
  shows "schema_ok d'"
proof -
  have ids: "map ev_ID (events d') = map ev_ID (events d)"
    using u by (auto simp: stmt_update_event_def map_update_where split: if_splits)
  then have "ev_ID ` set (events d') = ev_ID ` set (events d)" by (metis list.set_map)
  with u ok ids show ?thesis
    by (auto simp: stmt_update_event_def schema_ok_def table_simps split: if_splits)
qed

lemma stmt_insert_ticket_schema:
  "stmt_insert_ticket t d = Inr (u, d') \<Longrightarrow> schema_ok d \<Longrightarrow> schema_ok d'"
  by (auto simp: stmt_insert_ticket_def Let_def schema_ok_def split: if_splits)

lemma preserves_CreateTicketTypes: "preserves schema_ok (CreateTicketTypes types)"
  by (induction types) (auto intro!: preserve dest: stmt_insert_ticket_schema)

end
