(* ===== verification/Booking_Service.thy ===== *)
theory Booking_Service
  imports Booking_Repo Event_Repo
begin

text \<open>
  \<^verbatim>\<open>application/booking\<close>: reserving seats, and the transitions the Kafka consumers trigger.
  The payment client is a port of the service; what a call of it answers is the argument
  \<open>pay\<close> (\<open>None\<close> for success). Theory \<open>Payment_Client\<close> models the client itself.
\<close>

section \<open>Reserve\<close>

type_synonym initiate_call =
  "string \<Rightarrow> string \<Rightarrow> string \<Rightarrow> string \<Rightarrow> int \<Rightarrow> time \<Rightarrow> ticketing_error option"

fun total_from :: "int \<Rightarrow> BookingItem list \<Rightarrow> int" where
  "total_from tot [] = tot"
| "total_from tot (item # items) =
     total_from (wrap64 (tot + wrap64 (bi_UnitPriceRupiah item * bi_Quantity item))) items"

definition calculateTotal :: "BookingItem list \<Rightarrow> int" where
  "calculateTotal items = total_from 0 items"

text \<open>
  The inner loop of a failed reservation: it stops at the first item that has the ticket type of
  the one that failed.
\<close>

fun rollback_until :: "string \<Rightarrow> string \<Rightarrow> BookingItem list \<Rightarrow> unit ticketing_op" where
  "rollback_until eventID failed [] = retE ()"
| "rollback_until eventID failed (rb # rbs) =
     (if bi_TicketTypeID rb = failed then retE ()
      else ignoreE (seat_Release eventID (bi_TicketTypeID rb) (bi_Quantity rb))
             (rollback_until eventID failed rbs))"

fun reserve_loop :: "string \<Rightarrow> BookingItem list \<Rightarrow> BookingItem list \<Rightarrow> unit ticketing_op" where
  "reserve_loop eventID items [] = retE ()"
| "reserve_loop eventID items (item # rest) =
     bindE (seat_GetPrice eventID (bi_TicketTypeID item)) (\<lambda>realPrice.
     if bi_UnitPriceRupiah item \<noteq> realPrice
     then failE (ErrPriceMismatch realPrice (bi_UnitPriceRupiah item))
     else handleE (seat_Reserve eventID (bi_TicketTypeID item) (bi_Quantity item))
            (\<lambda>_. bindE (rollback_until eventID (bi_TicketTypeID item) items) (\<lambda>_.
                 failE ErrNoSeatsAvailable))
            (\<lambda>_. reserve_loop eventID items rest))"

fun stamp_items :: "string \<Rightarrow> BookingItem list \<Rightarrow> BookingItem list ticketing_op" where
  "stamp_items bookingID [] = retE []"
| "stamp_items bookingID (item # items) =
     bindE newUUID (\<lambda>i.
     bindE (stamp_items bookingID items) (\<lambda>items'.
     retE (item\<lparr>bi_ID := i, bi_BookingID := bookingID,
                bi_TotalPriceRupiah := wrap64 (bi_UnitPriceRupiah item * bi_Quantity item)\<rparr> # items')))"

fun rollbackSeats :: "string \<Rightarrow> BookingItem list \<Rightarrow> unit ticketing_op" where
  "rollbackSeats eventID [] = retE ()"
| "rollbackSeats eventID (item # items) =
     ignoreE (seat_Release eventID (bi_TicketTypeID item) (bi_Quantity item)) (rollbackSeats eventID items)"

definition new_reservation ::
    "string \<Rightarrow> string \<Rightarrow> string \<Rightarrow> BookingItem list \<Rightarrow> int \<Rightarrow> time \<Rightarrow> time \<Rightarrow> Reservation" where
  "new_reservation bookingID userID eventID items tot expiresAt now =
     \<lparr>rs_BookingID = bookingID, rs_UserID = userID, rs_EventID = eventID, rs_Items = items,
      rs_TotalRupiah = tot, rs_Status = ''pending'', rs_ExpiresAt = expiresAt, rs_CreatedAt = now\<rparr>"

definition booking_of :: "Reservation \<Rightarrow> Booking" where
  "booking_of res =
     \<lparr>bk_ID = rs_BookingID res, bk_UserID = rs_UserID res, bk_EventID = rs_EventID res,
      bk_Status = ''pending'', bk_ExpiresAt = Some (rs_ExpiresAt res), bk_TotalRupiah = 0,
      bk_PaymentID = '''', bk_RefundStatus = '''', bk_Items = rs_Items res, bk_CreatedAt = 0\<rparr>"

definition Reserve ::
    "int \<Rightarrow> initiate_call \<Rightarrow> string \<Rightarrow> string \<Rightarrow> string \<Rightarrow> BookingItem list \<Rightarrow> Reservation ticketing_op" where
  "Reserve reservationTTL pay userID userEmail eventID items =
     (if items = [] then failE ErrInvalidQuantity
      else
        bindE (reserve_loop eventID items items) (\<lambda>_.
        bindE readClock (\<lambda>t1.
        bindE newUUID (\<lambda>bookingID.
        bindE readClock (\<lambda>now.
        bindE (stamp_items bookingID items) (\<lambda>items'.
        let res = new_reservation bookingID userID eventID items' (calculateTotal items)
                    (t1 + wrap64 (reservationTTL * Second)) now
        in handleE (booking_Create (booking_of res))
             (\<lambda>e. bindE (rollbackSeats eventID items') (\<lambda>_. failE e))
             (\<lambda>_. case pay bookingID eventID userID userEmail (rs_TotalRupiah res) (rs_ExpiresAt res) of
                     Some e \<Rightarrow> ignoreE (booking_Delete bookingID)
                                (bindE (rollbackSeats eventID items') (\<lambda>_. failE e))
                   | None \<Rightarrow> retE res)))))))"

section \<open>Transitions\<close>

text \<open>Every error of the lookup counts as a booking that is not there.\<close>

definition loadPendingBooking :: "string \<Rightarrow> Booking option ticketing_op" where
  "loadPendingBooking bookingID =
     handleE (booking_FindByID bookingID) (\<lambda>_. retE None)
       (\<lambda>b. if bk_Status b \<noteq> ''pending'' then retE None else retE (Some b))"

fun issue_tickets :: "string \<Rightarrow> Booking \<Rightarrow> BookingItem list \<Rightarrow> unit ticketing_op" where
  "issue_tickets bookingID b [] = retE ()"
| "issue_tickets bookingID b (item # items) =
     ignoreE (outbox_Insert ''ticket.issued'' (bookingID @ ''-'' @ bi_ID item)
         (marshal_TicketIssued
            \<lparr>ti_TicketID = bi_ID item, ti_BookingID = bookingID, ti_UserID = bk_UserID b,
             ti_EventID = bk_EventID b, ti_TicketTypeID = bi_TicketTypeID item\<rparr>))
       (issue_tickets bookingID b items)"

definition Confirm :: "string \<Rightarrow> string \<Rightarrow> unit ticketing_op" where
  "Confirm bookingID paymentID =
     bindE (loadPendingBooking bookingID) (\<lambda>bo.
     case bo of
       None \<Rightarrow> retE ()
     | Some b \<Rightarrow>
         bindE (IsPublished (bk_EventID b)) (\<lambda>published.
         if \<not> published
         then bindE (booking_TransitionAndReleaseSeats b ''cancelled'') (\<lambda>applied. retE ())
         else bindE (booking_UpdateStatusIfPending bookingID ''confirmed'') (\<lambda>applied.
              if \<not> applied then retE () else issue_tickets bookingID b (bk_Items b))))"

definition releaseReservation :: "string \<Rightarrow> string \<Rightarrow> unit ticketing_op" where
  "releaseReservation bookingID status =
     bindE (loadPendingBooking bookingID) (\<lambda>bo.
     case bo of
       None \<Rightarrow> retE ()
     | Some b \<Rightarrow> bindE (booking_TransitionAndReleaseSeats b status) (\<lambda>applied. retE ()))"

definition ExpireOnPaymentExpired :: "string \<Rightarrow> unit ticketing_op" where
  "ExpireOnPaymentExpired bookingID = releaseReservation bookingID ''expired''"

fun cancel_each :: "Booking list \<Rightarrow> unit ticketing_op" where
  "cancel_each [] = retE ()"
| "cancel_each (b # bs) =
     (if bk_Status b \<noteq> ''confirmed'' \<and> bk_Status b \<noteq> ''pending'' then cancel_each bs
      else bindE (booking_TransitionAndReleaseSeats b ''cancelled'') (\<lambda>applied. cancel_each bs))"

definition CancelBookings :: "string \<Rightarrow> unit ticketing_op" where
  "CancelBookings eventID = bindE (booking_ListByEventID eventID) cancel_each"

definition GetBooking :: "string \<Rightarrow> Booking ticketing_op" where
  "GetBooking bookingID = booking_FindByID bookingID"

definition ListMyBookings :: "string \<Rightarrow> Booking list ticketing_op" where
  "ListMyBookings userID = booking_ListByUser userID"


section \<open>The transitions keep the inventory\<close>

text \<open>What is appended to the outbox is all that issuing tickets changes.\<close>

lemma preserves_outbox_Insert_frame:
  "(\<And>d x n. I (d\<lparr>outbox := x, outbox_seq := n\<rparr>) = I d) \<Longrightarrow> preserves I (outbox_Insert tp key p)"
  unfolding outbox_Insert_def preserves_def
  by (auto simp: exec_def run_stmt_def split: fault.splits)

lemma preserves_issue_tickets:
  "(\<And>d x n. I (d\<lparr>outbox := x, outbox_seq := n\<rparr>) = I d) \<Longrightarrow> preserves I (issue_tickets i b items)"
  by (induction items) (auto intro!: preserve preserves_outbox_Insert_frame)

lemma read_only_loadPendingBooking [reading]: "read_only (loadPendingBooking i)"
  unfolding loadPendingBooking_def by (auto intro!: reading)

lemma loadPendingBooking_Inr:
  "loadPendingBooking i w = (Inr (Some b), w') \<Longrightarrow>
   snapshot (db w) b \<and> bk_ID b = i \<and> bk_Status b = ''pending'' \<and> i \<in> br_ID ` set (bookings (db w))"
  by (force simp: loadPendingBooking_def op_defs image_iff split: prod.splits sum.splits if_splits
      dest!: FindByID_snapshot find_SomeD)

lemma loadPendingBooking_triple:
  "hoare I (loadPendingBooking i)
     (\<lambda>bo d. I d \<and> (\<forall>b. bo = Some b \<longrightarrow> snapshot d b \<and> bk_ID b = i \<and> bk_Status b = ''pending'')) I"
  by (rule hoare_read_only [OF read_only_loadPendingBooking]) (auto dest!: loadPendingBooking_Inr)

text \<open>
  The three transitions touch bookings and seats only through the guarded confirmation and the
  transaction that moves a booking and releases its seats, and the outbox through the tickets
  they issue. What those keep, the transitions keep, whatever statements fail.
\<close>

locale booking_invariant =
  fixes I :: "ticketing_db \<Rightarrow> bool"
  assumes frame: "I (d\<lparr>outbox := x, outbox_seq := n\<rparr>) = I d"
    and confirm: "hoare I (booking_UpdateStatusIfPending i ''confirmed'') (\<lambda>_. I) I"
    and release: "bk_Status b \<in> {''pending'', ''confirmed''} \<Longrightarrow> st \<in> {''expired'', ''cancelled''} \<Longrightarrow>
      st = ''expired'' \<longrightarrow> bk_Status b = ''pending'' \<Longrightarrow>
      hoare (\<lambda>d. I d \<and> booking_items d = its \<and> snapshot d b) (booking_TransitionAndReleaseSeats b st)
        (\<lambda>_ d. I d \<and> booking_items d = its) (\<lambda>d. I d \<and> booking_items d = its)"
begin

lemma release_pending:
  assumes "bk_Status b = ''pending''" "st \<in> {''expired'', ''cancelled''}"
  shows "hoare (\<lambda>d. I d \<and> snapshot d b) (bindE (booking_TransitionAndReleaseSeats b st) (\<lambda>_. retE ())) (\<lambda>_. I) I"
proof (rule hoare_bindE [OF _ hoare_retE])
  show "hoare (\<lambda>d. I d \<and> snapshot d b) (booking_TransitionAndReleaseSeats b st) (\<lambda>_. I) I"
    unfolding hoare_def
  proof (intro allI impI)
    fix w r w' assume P: "I (db w) \<and> snapshot (db w) b" and r: "booking_TransitionAndReleaseSeats b st w = (r, w')"
    have "I (db w') \<and> booking_items (db w') = booking_items (db w)"
      by (rule hoare_same [OF release _ r]) (use assms P in auto)
    then show "case r of Inl e \<Rightarrow> I (db w') | Inr a \<Rightarrow> I (db w')" by (simp split: sum.split)
  qed
qed

lemma keeps_pending:
  assumes "\<And>b. bk_Status b = ''pending'' \<Longrightarrow> hoare (\<lambda>d. I d \<and> snapshot d b) (k b) (\<lambda>_. I) I"
  shows "preserves I (bindE (loadPendingBooking i) (\<lambda>bo. case bo of None \<Rightarrow> retE () | Some b \<Rightarrow> k b))"
  unfolding hoare_preserves [symmetric]
proof (rule hoare_bindE [OF loadPendingBooking_triple])
  fix bo
  show "hoare (\<lambda>d. I d \<and> (\<forall>b. bo = Some b \<longrightarrow> snapshot d b \<and> bk_ID b = i \<and> bk_Status b = ''pending''))
    (case bo of None \<Rightarrow> retE () | Some b \<Rightarrow> k b) (\<lambda>_. I) I"
  proof (cases bo)
    case (Some b)
    show ?thesis
    proof (cases "bk_Status b = ''pending''")
      case True
      with assms [of b] Some show ?thesis by (auto elim: hoare_pre)
    qed (use Some in \<open>auto simp: hoare_def\<close>)
  qed (auto intro: hoare_retE)
qed

lemma Confirm_keeps: "preserves I (Confirm bookingID paymentID)"
  unfolding Confirm_def
proof (rule keeps_pending, rule hoare_bindE, rule hoare_reading [OF read_only_event_queries(3)])
  fix b :: Booking
  show "I d" if "I d \<and> snapshot d b" for d using that ..
next
  fix b :: Booking and published assume b: "bk_Status b = ''pending''"
  have "hoare I (issue_tickets bookingID b (bk_Items b)) (\<lambda>_. I) I"
    unfolding hoare_preserves by (rule preserves_issue_tickets) (rule frame)
  then have "hoare I (bindE (booking_UpdateStatusIfPending bookingID ''confirmed'') (\<lambda>applied.
      if \<not> applied then retE () else issue_tickets bookingID b (bk_Items b))) (\<lambda>_. I) I"
    by (intro hoare_bindE [OF confirm] hoare_if hoare_retE)
  with b show "hoare (\<lambda>d. I d \<and> snapshot d b)
      (if \<not> published then bindE (booking_TransitionAndReleaseSeats b ''cancelled'') (\<lambda>applied. retE ())
       else bindE (booking_UpdateStatusIfPending bookingID ''confirmed'') (\<lambda>applied.
            if \<not> applied then retE () else issue_tickets bookingID b (bk_Items b))) (\<lambda>_. I) I"
    by (intro hoare_if release_pending) (auto elim: hoare_pre)
qed

lemma Expire_keeps: "preserves I (ExpireOnPaymentExpired bookingID)"
  unfolding ExpireOnPaymentExpired_def releaseReservation_def
  by (rule keeps_pending, rule release_pending) auto

lemma cancel_each_keeps:
  "hoare (\<lambda>d. I d \<and> booking_items d = its \<and> (\<forall>b \<in> set bs. snapshot d b)) (cancel_each bs) (\<lambda>_. I) I"
proof (induction bs)
  case (Cons b bs)
  have keep: "hoare (\<lambda>d. I d \<and> booking_items d = its \<and> (\<forall>b \<in> set (b # bs). snapshot d b))
      (booking_TransitionAndReleaseSeats b ''cancelled'')
      (\<lambda>_ d. I d \<and> booking_items d = its \<and> (\<forall>b \<in> set bs. snapshot d b)) I"
    if "bk_Status b \<in> {''pending'', ''confirmed''}"
    unfolding hoare_def
  proof (intro allI impI)
    fix w r w'
    assume P: "I (db w) \<and> booking_items (db w) = its \<and> (\<forall>b \<in> set (b # bs). snapshot (db w) b)"
      and r: "booking_TransitionAndReleaseSeats b ''cancelled'' w = (r, w')"
    have "I (db w') \<and> booking_items (db w') = its"
      by (rule hoare_same [OF release [OF that] _ r]) (use P in auto)
    with P show "case r of Inl e \<Rightarrow> I (db w')
        | Inr a \<Rightarrow> I (db w') \<and> booking_items (db w') = its \<and> (\<forall>b \<in> set bs. snapshot (db w') b)"
      by (auto simp: snapshot_def split: sum.splits)
  qed
  show ?case unfolding cancel_each.simps
  proof (rule hoare_if)
    show "hoare (\<lambda>d. I d \<and> booking_items d = its \<and> (\<forall>b \<in> set (b # bs). snapshot d b)) (cancel_each bs) (\<lambda>_. I) I"
      by (rule hoare_pre [OF Cons.IH]) simp
    show "hoare (\<lambda>d. I d \<and> booking_items d = its \<and> (\<forall>b \<in> set (b # bs). snapshot d b))
        (bindE (booking_TransitionAndReleaseSeats b ''cancelled'') (\<lambda>applied. cancel_each bs)) (\<lambda>_. I) I"
      if "\<not> (bk_Status b \<noteq> ''confirmed'' \<and> bk_Status b \<noteq> ''pending'')"
      by (rule hoare_bindE [OF keep Cons.IH]) (use that in auto)
  qed
qed (auto intro: hoare_retE)

lemma CancelBookings_keeps: "preserves I (CancelBookings eventID)"
  unfolding hoare_preserves [symmetric] CancelBookings_def booking_ListByEventID_def
proof (rule hoare_bindE)
  show "hoare I (list_bookings (\<lambda>b. br_EventID b = eventID)) (\<lambda>bs d. I d \<and> (\<forall>b \<in> set bs. snapshot d b)) I"
    by (rule hoare_read_only [OF read_only_list_bookings]) (blast dest: list_bookings_snapshot)
  show "hoare (\<lambda>d. I d \<and> (\<forall>b \<in> set bs. snapshot d b)) (cancel_each bs) (\<lambda>_. I) I" for bs
    using cancel_each_keeps [of _ bs] unfolding hoare_def by blast
qed

end

text \<open>
  The inventory is such an invariant: a confirmed booking holds what the pending one held, and
  status change and release of seats are one transaction, so no fault schedule can release seats
  that are still held.
\<close>

interpretation inventory: booking_invariant inventory_ok
proof unfold_locales
  show "hoare inventory_ok (booking_UpdateStatusIfPending i ''confirmed'') (\<lambda>_. inventory_ok) inventory_ok" for i
    unfolding booking_UpdateStatusIfPending_def hoare_preserves
    by (auto intro!: preserve simp: inventory_covered active_status_def dest: transition_active_covered)
qed (auto intro!: TransitionAndReleaseSeats_triple simp: active_status_def)

section \<open>Settled bookings\<close>

lemma loadPendingBooking_settled:
  assumes "booking_status (db w) i \<noteq> Some ''pending''" "loadPendingBooking i w = (r, w')"
  shows "r = Inr None \<and> db w' = db w"
proof -
  obtain r1 w1 where f: "booking_FindByID i w = (r1, w1)" by fastforce
  have "db w1 = db w" by (rule read_onlyD [OF read_only_FindByID f])
  moreover have "bk_Status b \<noteq> ''pending''" if "r1 = Inr b" for b
    using FindByID_snapshot f that assms(1) by (fastforce simp: booking_status_def)
  ultimately show ?thesis
    using assms(2) f by (auto simp: loadPendingBooking_def op_defs split: sum.splits if_splits)
qed

lemma settled_untouched:
  assumes "booking_status (db w) bookingID \<noteq> Some ''pending''"
  shows "fst (Confirm bookingID paymentID w) = Inr () \<and> db (snd (Confirm bookingID paymentID w)) = db w \<and>
    fst (ExpireOnPaymentExpired bookingID w) = Inr () \<and> db (snd (ExpireOnPaymentExpired bookingID w)) = db w"
proof -
  obtain r w' where l: "loadPendingBooking bookingID w = (r, w')" by fastforce
  from loadPendingBooking_settled [OF assms l] show ?thesis
    by (simp add: Confirm_def ExpireOnPaymentExpired_def releaseReservation_def bindE_def l retE_def)
qed

text \<open>
  A late or repeated \<^verbatim>\<open>payment.completed\<close> or \<^verbatim>\<open>payment.expired\<close> message for a
  booking that is confirmed, expired, cancelled or unknown succeeds and changes nothing, under
  every fault schedule: the consumers may deliver a message any number of times.
\<close>

theorem settled_booking_untouched:
  assumes "booking_status (db w) bookingID \<noteq> Some ''pending''"
  shows "fst (Confirm bookingID paymentID w) = Inr () \<and> db (snd (Confirm bookingID paymentID w)) = db w \<and>
    fst (ExpireOnPaymentExpired bookingID w) = Inr () \<and> db (snd (ExpireOnPaymentExpired bookingID w)) = db w"
  using assms by (rule settled_untouched)

section \<open>Runs without faults\<close>

lemma FindByID_calm:
  assumes "calm w" "find (\<lambda>x. br_ID x = i) (bookings (db w)) = Some r"
  shows "booking_FindByID i w =
    (Inr (add_items (filter (\<lambda>it. ir_BookingID it = i) (booking_items (db w))) (row_to_booking r)), w)"
  using assms find_SomeD [OF assms(2)]
  by (simp add: booking_FindByID_def loadItems_def op_defs mapErr_def run_stmt_def row_to_booking_def)

lemma loadPendingBooking_calm:
  assumes "calm w" "find (\<lambda>x. br_ID x = i) (bookings (db w)) = Some r" "br_Status r = ''pending''"
  shows "\<exists>b. loadPendingBooking i w = (Inr (Some b), w) \<and> snapshot (db w) b \<and> bk_ID b = i \<and>
    bk_Status b = ''pending'' \<and> bk_UserID b = br_UserID r \<and> bk_EventID b = br_EventID r"
  using FindByID_calm [OF assms(1,2)] FindByID_snapshot [OF FindByID_calm [OF assms(1,2)]] assms
  by (auto simp: loadPendingBooking_def op_defs)

lemma IsPublished_calm:
  assumes "calm w" "find (\<lambda>e. ev_ID e = i) (events (db w)) = Some e"
  shows "IsPublished i w = (Inr (ev_Status e = ''published''), w)"
  using assms by (simp add: IsPublished_def op_defs run_stmt_def)

definition issued_row :: "string \<Rightarrow> Booking \<Rightarrow> string \<Rightarrow> nat \<Rightarrow> BookingItem \<Rightarrow> outbox_row" where
  "issued_row i b tc n item =
     \<lparr>ob_ID = n, ob_Topic = ''ticket.issued'', ob_Key = i @ ''-'' @ bi_ID item,
      ob_Payload = marshal_TicketIssued
        \<lparr>ti_TicketID = bi_ID item, ti_BookingID = i, ti_UserID = bk_UserID b, ti_EventID = bk_EventID b,
         ti_TicketTypeID = bi_TicketTypeID item\<rparr>,
      ob_TraceContext = (if tc \<noteq> '''' then Some tc else None), ob_Delivered = False\<rparr>"

lemma booking_status_outbox [simp]:
  "booking_status (d\<lparr>outbox := x\<rparr>) = booking_status d" "booking_status (d\<lparr>outbox_seq := n\<rparr>) = booking_status d"
  by (simp_all add: booking_status_def fun_eq_iff)

lemma issue_tickets_calm:
  assumes "calm w"
  shows "issue_tickets i b items w =
    (Inr (), w\<lparr>db := (db w)\<lparr>
       outbox := outbox (db w) @
         map (\<lambda>(n, item). issued_row i b (trace_ctx w) n item)
           (zip [outbox_seq (db w)..<outbox_seq (db w) + length items] items),
       outbox_seq := outbox_seq (db w) + length items\<rparr>\<rparr>)"
  using assms
proof (induction items arbitrary: w)
  case (Cons item items)
  show ?case
    using Cons.prems
    by (simp add: ignoreE_def outbox_Insert_def run_stmt_def Cons.IH issued_row_def upt_conv_Cons del: upt_Suc)
qed (simp add: op_defs)

lemma UpdateStatusIfPending_calm:
  assumes "calm w" "schema_ok (db w)" "booking_status (db w) i = Some ''pending''"
    "st \<in> {''confirmed'', ''expired'', ''cancelled''}"
  shows "\<exists>d'. booking_UpdateStatusIfPending i st w = (Inr True, w\<lparr>db := d'\<rparr>) \<and>
    booking_status d' = (booking_status (db w))(i \<mapsto> st) \<and> ticket_types d' = ticket_types (db w) \<and>
    booking_items d' = booking_items (db w) \<and> events d' = events (db w) \<and> outbox d' = outbox (db w) \<and>
    outbox_seq d' = outbox_seq (db w)"
proof -
  obtain d' where d': "leave_pending i st (db w) = (True, d')" "booking_status d' = (booking_status (db w))(i \<mapsto> st)"
    using leave_pending_applied [OF assms(2-4)] by blast
  then obtain n where t: "stmt_transition i ''pending'' st (db w) = Inr (n, d')" "0 < n"
    by (auto simp: leave_pending_def decide_def split: sum.splits)
  note f = stmt_transition_frame [OF t(1)]
  have "n \<le> 1" unfolding f(7) by (rule count_where_key) (use assms(2) in \<open>simp add: schema_ok_def\<close>)
  with t(2) have "n = 1" by simp
  then have "booking_UpdateStatusIfPending i st w = (Inr True, w\<lparr>db := d'\<rparr>)"
    using t(1) assms(1) by (simp add: booking_UpdateStatusIfPending_def op_defs mapErr_def run_stmt_def)
  with d'(2) f show ?thesis by blast
qed

lemma Confirm_issues:
  assumes "calm w" "schema_ok (db w)"
    and "find (\<lambda>x. br_ID x = i) (bookings (db w)) = Some r" "br_Status r = ''pending''"
    and "find (\<lambda>e. ev_ID e = br_EventID r) (events (db w)) = Some e" "ev_Status e = ''published''"
  shows "\<exists>w'. Confirm i p w = (Inr (), w') \<and>
    booking_status (db w') = (booking_status (db w))(i \<mapsto> ''confirmed'') \<and>
    ticket_types (db w') = ticket_types (db w) \<and>
    map (\<lambda>m. (ob_Topic m, ob_Key m, ob_Payload m, ob_Delivered m)) (outbox (db w')) =
    map (\<lambda>m. (ob_Topic m, ob_Key m, ob_Payload m, ob_Delivered m)) (outbox (db w)) @
    map (\<lambda>it. (''ticket.issued'', i @ ''-'' @ ir_ID it,
                marshal_TicketIssued
                  \<lparr>ti_TicketID = ir_ID it, ti_BookingID = i, ti_UserID = br_UserID r,
                   ti_EventID = br_EventID r, ti_TicketTypeID = ir_TicketTypeID it\<rparr>, False))
      (filter (\<lambda>it. ir_BookingID it = i) (booking_items (db w)))"
proof -
  obtain b where b: "loadPendingBooking i w = (Inr (Some b), w)" "snapshot (db w) b" "bk_ID b = i"
      "bk_UserID b = br_UserID r" "bk_EventID b = br_EventID r"
    using loadPendingBooking_calm [OF assms(1,3,4)] by blast
  have pub: "IsPublished (bk_EventID b) w = (Inr True, w)"
    using IsPublished_calm [OF assms(1,5)] b(5) assms(6) by simp
  have "booking_status (db w) i = Some ''pending''" using assms(3,4) by (simp add: booking_status_def)
  then obtain d' where d': "booking_UpdateStatusIfPending i ''confirmed'' w = (Inr True, w\<lparr>db := d'\<rparr>)"
      "booking_status d' = (booking_status (db w))(i \<mapsto> ''confirmed'')" "ticket_types d' = ticket_types (db w)"
      "outbox d' = outbox (db w)" "outbox_seq d' = outbox_seq (db w)"
    using UpdateStatusIfPending_calm [OF assms(1,2)] by blast
  have run: "Confirm i p w = issue_tickets i b (bk_Items b) (w\<lparr>db := d'\<rparr>)"
    by (simp add: Confirm_def bindE_def b(1) pub d'(1))
  have rows: "map (\<lambda>m. (ob_Topic m, ob_Key m, ob_Payload m, ob_Delivered m))
      (map (\<lambda>(n, item). issued_row i b tc n item) (zip [n..<n + length items] items)) =
    map (\<lambda>item. (''ticket.issued'', i @ ''-'' @ bi_ID item,
          marshal_TicketIssued
            \<lparr>ti_TicketID = bi_ID item, ti_BookingID = i, ti_UserID = bk_UserID b,
             ti_EventID = bk_EventID b, ti_TicketTypeID = bi_TicketTypeID item\<rparr>, False)) items" for tc n items
  proof (induction items arbitrary: n)
    case (Cons item items)
    from Cons.IH [of "Suc n"] show ?case by (simp add: issued_row_def upt_conv_Cons del: upt_Suc)
  qed simp
  note calm = issue_tickets_calm [of "w\<lparr>db := d'\<rparr>" i b "bk_Items b"]
  obtain w' where w': "Confirm i p w = (Inr (), w')" "booking_status (db w') = booking_status d'"
      "ticket_types (db w') = ticket_types d'"
      "outbox (db w') = outbox d' @ map (\<lambda>(n, item). issued_row i b (trace_ctx w) n item)
         (zip [outbox_seq d'..<outbox_seq d' + length (bk_Items b)] (bk_Items b))"
    using calm assms(1) by (simp add: run)
  let ?v = "\<lambda>m. (ob_Topic m, ob_Key m, ob_Payload m, ob_Delivered m)"
  note view = arg_cong [OF w'(4), of "map ?v", unfolded map_append rows]
  show ?thesis
    by (rule exI [of _ w']) (use w'(1-3) b(2-5) d' in \<open>simp add: view snapshot_def comp_def\<close>)
qed

text \<open>
  A confirmation whose lookup of the booking fails reports success: the message is
  then committed, and the paid booking stays pending.
\<close>

theorem Confirm_swallows_lookup_failure:
  assumes "faults w = FaultBefore # fs"
  shows "Confirm bookingID paymentID w = (Inr (), w\<lparr>faults := fs\<rparr>)"
  using assms
  by (simp add: Confirm_def loadPendingBooking_def booking_FindByID_def op_defs mapErr_def exec_def
      next_fault_def drop_fault_def)

end
