(* ===== verification/Reservation.thy ===== *)
theory Reservation
  imports Booking_Service
begin

text \<open>
  What \<^verbatim>\<open>BookingService.Reserve\<close> does: the effect of a reservation that succeeds, the seats a
  failed one leaves, and when it succeeds. The seat counter enters through the interpretation
  \<open>seats\<close> of its contract only.
\<close>

section \<open>Totals\<close>

definition exact_total :: "BookingItem list \<Rightarrow> int" where
  "exact_total items = (\<Sum>i \<leftarrow> items. bi_UnitPriceRupiah i * bi_Quantity i)"

lemma total_from_wrap: "total_from (wrap64 a) items = wrap64 (a + exact_total items)"
proof (induction items arbitrary: a)
  case (Cons i items)
  let ?x = "bi_UnitPriceRupiah i * bi_Quantity i"
  have "total_from (wrap64 a) (i # items) = total_from (wrap64 (a + ?x)) items"
    by (simp add: wrap64_wrap64_add wrap64_add_wrap64)
  also have "\<dots> = wrap64 (a + ?x + exact_total items)" by (rule Cons.IH)
  finally show ?case by (simp add: exact_total_def add.assoc)
qed (simp add: exact_total_def)

text \<open>
  Property C36: the total of a reservation is the sum of price times quantity in 64-bit arithmetic,
  and the mathematical sum whenever that fits 64 bits, also when an intermediate product wraps.
\<close>

theorem calculateTotal_exact:
  "calculateTotal items = wrap64 (exact_total items) \<and>
   (int8_ok (exact_total items) \<longrightarrow> calculateTotal items = exact_total items)"
proof -
  have "wrap64 0 = 0" by (simp add: wrap64_def)
  then show ?thesis using total_from_wrap [of 0 items] by (simp add: calculateTotal_def)
qed

section \<open>Taking the seats\<close>

abbreviation pairs :: "BookingItem list \<Rightarrow> (string \<times> int) list" where
  "pairs items \<equiv> map (\<lambda>i. (bi_TicketTypeID i, bi_Quantity i)) items"

lemma requested_pairs [simp]: "seats.requested t (pairs items) = items_qty t items"
  by (induction items) simp_all

definition tickets_only :: "ticketing_db \<Rightarrow> ticketing_db \<Rightarrow> bool" where
  "tickets_only d d' \<longleftrightarrow> (\<exists>ts. d' = d\<lparr>ticket_types := ts\<rparr>)"

lemma tickets_only_refl [simp]: "tickets_only d d"
  by (cases d) (auto simp: tickets_only_def)

lemma tickets_only_trans: "tickets_only d d1 \<Longrightarrow> tickets_only d1 d2 \<Longrightarrow> tickets_only d d2"
  by (auto simp: tickets_only_def)

lemma tickets_only_frame:
  "tickets_only d d' \<Longrightarrow> bookings d' = bookings d \<and> booking_items d' = booking_items d \<and>
     events d' = events d \<and> outbox d' = outbox d \<and> outbox_seq d' = outbox_seq d"
  by (auto simp: tickets_only_def)

lemma update_tickets_only: "update_tickets P ar f d = Inr (n, d') \<Longrightarrow> tickets_only d d'"
  by (auto simp: update_tickets_def tickets_only_def split: if_splits)

lemma stmt_Reserve_only: "stmt_Reserve i q d = Inr (n, d') \<Longrightarrow> tickets_only d d'"
  by (auto simp: stmt_Reserve_def split: if_splits dest: update_tickets_only)

lemma stmt_Release_only: "stmt_Release i q d = Inr (n, d') \<Longrightarrow> tickets_only d d'"
  by (auto simp: stmt_Release_def split: if_splits dest: update_tickets_only)

lemma stmt_Reserve_zero: "stmt_Reserve i q d = Inr (0, d') \<Longrightarrow> d' = d"
  by (auto simp: stmt_Reserve_def update_tickets_def count_where_0 update_where_none
      split: if_splits)

lemma stmt_Reserve_shifted:
  assumes "tickets_ok d" "stmt_Reserve i q d = Inr (n, d')" "n \<noteq> 0"
  shows "shifted (\<lambda>t. if i = t then - q else 0) d d'"
proof -
  have u: "update_tickets (\<lambda>t. tt_ID t = i \<and> q \<le> tt_Available t) (\<lambda>t. tt_Available t - q)
      (\<lambda>t. t\<lparr>tt_Available := tt_Available t - q\<rparr>) d = Inr (n, d')"
    using assms(2) by (auto simp: stmt_Reserve_def split: if_splits)
  obtain t where t: "t \<in> set (ticket_types d)" "tt_ID t = i" "q \<le> tt_Available t"
    using update_tickets_frame(7) [OF u] assms(3) by (auto simp: count_where_0)
  have "q \<le> tt_Available r" if "r \<in> set (ticket_types d)" "tt_ID r = i" for r
    using tickets_ok_find [OF assms(1) that] tickets_ok_find [OF assms(1) t(1,2)] t(3) by simp
  then show ?thesis
    unfolding shifted_def update_tickets_frame(1-6) [OF u] by (auto intro!: list_all2_update_where)
qed

lemma seat_Reserve_Inr:
  assumes "seat_Reserve ev i q w = (Inr u, w')"
  obtains n where "stmt_Reserve i q (db w) = Inr (n, db w')" "n \<noteq> 0"
  using assms
  by (auto simp: seat_Reserve_def op_defs mapErr_def split: prod.splits sum.splits if_splits dest!: exec_Inr(1))

lemma read_only_seat_GetPrice [reading]: "read_only (seat_GetPrice ev i)"
  unfolding seat_GetPrice_def select_ticket_def by (auto intro!: reading split: option.splits)

lemma seat_GetPrice_Inr:
  "seat_GetPrice ev i w = (Inr p, w') \<Longrightarrow>
   \<exists>t. find (\<lambda>x. tt_ID x = i) (ticket_types (db w)) = Some t \<and> tt_PriceRupiah t = p"
  by (auto simp: seat_GetPrice_def select_ticket_def op_defs split: prod.splits sum.splits option.splits if_splits
      dest!: exec_Inr(1))

lemma reserve_loop_Cons_Inr:
  assumes "reserve_loop ev all (it # rest) w = (Inr u, w')"
  obtains w1 n w2 where "seat_GetPrice ev (bi_TicketTypeID it) w = (Inr (bi_UnitPriceRupiah it), w1)" "db w1 = db w"
    "stmt_Reserve (bi_TicketTypeID it) (bi_Quantity it) (db w) = Inr (n, db w2)" "n \<noteq> 0"
    "reserve_loop ev all rest w2 = (Inr u, w')"
proof -
  obtain w1 w2 v where g: "seat_GetPrice ev (bi_TicketTypeID it) w = (Inr (bi_UnitPriceRupiah it), w1)"
    and s: "seat_Reserve ev (bi_TicketTypeID it) (bi_Quantity it) w1 = (Inr v, w2)"
    and r: "reserve_loop ev all rest w2 = (Inr u, w')"
    using assms by (auto simp: op_defs split: prod.splits sum.splits if_splits)
  have "db w1 = db w" by (rule read_onlyD [OF read_only_seat_GetPrice g])
  then show thesis using that g seat_Reserve_Inr [OF s] r by metis
qed

lemma reserve_loop_grabs:
  assumes "reserve_loop ev all items w = (Inr u, w')" "schema_ok (db w)"
  shows "seats.grabs (pairs items) (db w) = Some (db w') \<and> schema_ok (db w') \<and>
    tickets_only (db w) (db w') \<and> shifted (\<lambda>t. - items_qty t items) (db w) (db w')"
  using assms
proof (induction items arbitrary: w)
  case Nil
  then show ?case by (simp add: op_defs shifted_refl)
next
  case (Cons it rest)
  from Cons.prems(1) obtain w1 n w2
    where "seat_GetPrice ev (bi_TicketTypeID it) w = (Inr (bi_UnitPriceRupiah it), w1)" "db w1 = db w"
    and s: "stmt_Reserve (bi_TicketTypeID it) (bi_Quantity it) (db w) = Inr (n, db w2)" "n \<noteq> 0"
    and r: "reserve_loop ev all rest w2 = (Inr u, w')"
    by (rule reserve_loop_Cons_Inr)
  note IH = Cons.IH [OF r stmt_Reserve_schema [OF s(1) Cons.prems(2)]]
  have eq: "(\<lambda>t. (if bi_TicketTypeID it = t then - bi_Quantity it else 0) + - items_qty t rest) =
      (\<lambda>t. - items_qty t (it # rest))" by auto
  have "shifted (\<lambda>t. - items_qty t (it # rest)) (db w) (db w')"
    unfolding eq [symmetric]
    using shifted_trans stmt_Reserve_shifted [OF schema_ok_tickets [OF Cons.prems(2)] s] IH by blast
  moreover have "tickets_only (db w) (db w')"
    using IH tickets_only_trans [OF stmt_Reserve_only [OF s(1)]] by blast
  moreover have "seats.grabs (pairs (it # rest)) (db w) = Some (db w')" using IH s by simp
  ultimately show ?case using IH by blast
qed

lemma stmt_Reserve_price: "stmt_Reserve i q d = Inr (n, d') \<Longrightarrow> price d' = price d"
  by (auto simp: stmt_Reserve_def price_def fun_eq_iff find_update_where option.map_comp comp_def
      if_distrib [of tt_PriceRupiah] cong: if_cong split: if_splits dest!: update_tickets_frame(6))

lemma reserve_loop_prices:
  "reserve_loop ev all items w = (Inr u, w') \<Longrightarrow>
   \<forall>it \<in> set items. price (db w) (bi_TicketTypeID it) = Some (bi_UnitPriceRupiah it)"
proof (induction items arbitrary: w)
  case (Cons it rest)
  from Cons.prems obtain w1 n w2
    where g: "seat_GetPrice ev (bi_TicketTypeID it) w = (Inr (bi_UnitPriceRupiah it), w1)" "db w1 = db w"
    and s: "stmt_Reserve (bi_TicketTypeID it) (bi_Quantity it) (db w) = Inr (n, db w2)" "n \<noteq> 0"
    and r: "reserve_loop ev all rest w2 = (Inr u, w')"
    by (rule reserve_loop_Cons_Inr)
  from Cons.IH [OF r] seat_GetPrice_Inr [OF g(1)] stmt_Reserve_price [OF s(1)] show ?case
    by (auto simp: price_def)
qed simp

section \<open>Storing the booking\<close>

definition item_row :: "BookingItem \<Rightarrow> booking_item_row" where
  "item_row it =
     \<lparr>ir_ID = bi_ID it, ir_BookingID = bi_BookingID it, ir_TicketTypeID = bi_TicketTypeID it,
      ir_Quantity = bi_Quantity it,
      ir_TotalPriceRupiah =
        (if bi_TotalPriceRupiah it = 0 then wrap64 (bi_UnitPriceRupiah it * bi_Quantity it)
         else bi_TotalPriceRupiah it)\<rparr>"

definition head_row :: "Booking \<Rightarrow> time \<Rightarrow> booking_row" where
  "head_row b now =
     \<lparr>br_ID = bk_ID b, br_UserID = bk_UserID b, br_EventID = bk_EventID b, br_Status = bk_Status b,
      br_ExpiresAt = bk_ExpiresAt b, br_CreatedAt = now\<rparr>"

lemma stmt_insert_item_schema:
  "stmt_insert_item it p d = Inr (u, d') \<Longrightarrow> schema_ok d \<Longrightarrow> schema_ok d'"
  by (auto simp: stmt_insert_item_def Let_def schema_ok_def split: if_splits)

lemma stmt_insert_booking_schema:
  "stmt_insert_booking b now d = Inr (u, d') \<Longrightarrow> schema_ok d \<Longrightarrow> schema_ok d'"
  by (auto simp: stmt_insert_booking_def Let_def schema_ok_def split: if_splits)

lemma insert_items_Inr:
  "insert_items items w = (Inr u, w') \<Longrightarrow> schema_ok (db w) \<Longrightarrow>
   db w' = (db w)\<lparr>booking_items := booking_items (db w) @ map item_row items\<rparr> \<and> schema_ok (db w') \<and>
   (\<forall>it \<in> set items. 0 < bi_Quantity it)"
proof (induction items arbitrary: w)
  case (Cons it items)
  let ?p = "if bi_TotalPriceRupiah it = 0 then wrap64 (bi_UnitPriceRupiah it * bi_Quantity it) else bi_TotalPriceRupiah it"
  obtain v w1 where e: "exec (stmt_insert_item it ?p) w = (Inr v, w1)" and r: "insert_items items w1 = (Inr u, w')"
    using Cons.prems(1) by (auto simp: op_defs mapErr_def Let_def split: prod.splits sum.splits)
  note q = exec_Inr(1) [OF e]
  have d1: "db w1 = (db w)\<lparr>booking_items := booking_items (db w) @ [item_row it]\<rparr>" "0 < bi_Quantity it"
    using q by (auto simp: stmt_insert_item_def item_row_def Let_def booking_item_check_def split: if_splits)
  have "schema_ok (db w1)"
    by (rule stmt_insert_item_schema [OF q Cons.prems(2)])
  with Cons.IH [OF r this] d1 show ?case by (auto simp: d1(1))
qed (simp add: op_defs)

lemma booking_Create_Inr:
  assumes "booking_Create b w = (Inr u, w')" "schema_ok (db w)"
  shows "\<exists>now. db w' = (db w)\<lparr>bookings := bookings (db w) @ [head_row b now],
                         booking_items := booking_items (db w) @ map item_row (bk_Items b)\<rparr> \<and>
    schema_ok (db w') \<and> bk_ID b \<notin> br_ID ` set (bookings (db w)) \<and> (\<forall>it \<in> set (bk_Items b). 0 < bi_Quantity it)"
proof -
  from assms(1) [unfolded booking_Create_def] obtain w1 c w3 where w1: "db w1 = db w"
    and body: "bindE readClock (\<lambda>now.
        bindE (mapErr DbErr (exec (stmt_insert_booking b now))) (\<lambda>_.
        bindE (insert_items (bk_Items b)) (\<lambda>_. retE ((), True)))) w1 = (Inr (u, c), w3)"
    and w': "db w' = (if c then db w3 else db w)"
    by (rule withTx_Inr)
  define w1' where "w1' = w1\<lparr>ticks := Suc (ticks w1)\<rparr>"
  then have w1': "db w1' = db w1" by simp
  obtain now w2 v where e: "exec (stmt_insert_booking b now) w1' = (Inr v, w2)"
    and r: "insert_items (bk_Items b) w2 = (Inr u, w3)" and c: "c"
    using body by (auto simp: run_inv w1'_def)
  note q = exec_Inr(1) [OF e]
  have d2: "db w2 = (db w)\<lparr>bookings := bookings (db w) @ [head_row b now]\<rparr>" "bk_ID b \<notin> br_ID ` set (bookings (db w))"
    using q w1 w1' by (auto simp: stmt_insert_booking_def head_row_def Let_def split: if_splits)
  have "schema_ok (db w2)"
    using stmt_insert_booking_schema [OF q] w1 w1' assms(2) by simp
  with insert_items_Inr [OF r] d2 w' c show ?thesis by auto
qed

section \<open>A reservation that succeeds\<close>

fun stamped :: "string \<Rightarrow> (nat \<Rightarrow> string) \<Rightarrow> nat \<Rightarrow> BookingItem list \<Rightarrow> BookingItem list" where
  "stamped bookingID src n [] = []"
| "stamped bookingID src n (it # items) =
     it\<lparr>bi_ID := src n, bi_BookingID := bookingID,
        bi_TotalPriceRupiah := wrap64 (bi_UnitPriceRupiah it * bi_Quantity it)\<rparr> # stamped bookingID src (Suc n) items"

lemma stamp_items_run:
  "stamp_items i items w = (Inr (stamped i (uuid_src w) (uuid_ctr w) items), w\<lparr>uuid_ctr := uuid_ctr w + length items\<rparr>)"
  by (induction items arbitrary: w) (simp_all add: op_defs)

lemma stamped_props [simp]:
  "items_qty t (stamped i src n items) = items_qty t items"
  "pairs (stamped i src n items) = pairs items"
  "stamped i src n items = [] \<longleftrightarrow> items = []"
  "(\<forall>it \<in> set (stamped i src n items). 0 < bi_Quantity it) \<longleftrightarrow> (\<forall>it \<in> set items. 0 < bi_Quantity it)"
  by (induction items arbitrary: n) auto

lemma stamped_booking: "\<forall>it \<in> set (stamped i src n items). bi_BookingID it = i"
  by (induction items arbitrary: n) auto

lemma Reserve_Inr:
  assumes "Reserve ttl pay userID email ev items w = (Inr res, w')" "schema_ok (db w)"
  obtains w1 u i t1 now n now' where
    "items \<noteq> []" "reserve_loop ev items items w = (Inr u, w1)"
    "res = new_reservation i userID ev (stamped i (uuid_src w1) n items) (calculateTotal items)
             (t1 + wrap64 (ttl * Second)) now"
    "db w' = (db w1)\<lparr>bookings := bookings (db w1) @ [head_row (booking_of res) now'],
                     booking_items := booking_items (db w1) @ map item_row (rs_Items res)\<rparr>"
    "schema_ok (db w')" "i \<notin> br_ID ` set (bookings (db w1))" "\<forall>it \<in> set items. 0 < bi_Quantity it"
    "pay i ev userID email (calculateTotal items) (t1 + wrap64 (ttl * Second)) = None"
proof -
  obtain u w1 where ne: "items \<noteq> []" and l: "reserve_loop ev items items w = (Inr u, w1)"
    using assms(1) by (auto simp: Reserve_def run_inv split: if_splits)
  define i where "i = uuid_src w1 (uuid_ctr w1)"
  define t1 where "t1 = clock w1 (ticks w1)"
  define now where "now = clock w1 (Suc (ticks w1))"
  define rs where "rs = new_reservation i userID ev (stamped i (uuid_src w1) (Suc (uuid_ctr w1)) items)
    (calculateTotal items) (t1 + wrap64 (ttl * Second)) now"
  define w2 where "w2 = w1\<lparr>ticks := Suc (Suc (ticks w1)), uuid_ctr := Suc (uuid_ctr w1) + length items\<rparr>"
  obtain v where c: "booking_Create (booking_of rs) w2 = (Inr v, w')"
    and p: "pay i ev userID email (calculateTotal items) (t1 + wrap64 (ttl * Second)) = None" and res: "res = rs"
    using assms(1) ne l unfolding Reserve_def
    by (auto simp: run_inv stamp_items_run Let_def i_def t1_def now_def rs_def w2_def new_reservation_def
        split: option.splits)
  have "schema_ok (db w2)" using reserve_loop_grabs [OF l assms(2)] by (simp add: w2_def)
  from booking_Create_Inr [OF c this] obtain now' where
    "db w' = (db w1)\<lparr>bookings := bookings (db w1) @ [head_row (booking_of rs) now'],
                     booking_items := booking_items (db w1) @ map item_row (rs_Items rs)\<rparr>"
    "schema_ok (db w')" "i \<notin> br_ID ` set (bookings (db w1))" "\<forall>it \<in> set items. 0 < bi_Quantity it"
    by (auto simp: w2_def booking_of_def rs_def new_reservation_def)
  then show thesis using that ne l p res rs_def by metis
qed

text \<open>The seats a new booking holds.\<close>

lemma held_new_booking:
  assumes ok: "schema_ok d" and i: "br_ID r \<notin> br_ID ` set (bookings d)" and st: "active_status (br_Status r)"
    and its: "\<forall>it \<in> set items. bi_BookingID it = br_ID r"
  shows "held (d\<lparr>bookings := bookings d @ [r], booking_items := booking_items d @ map item_row items\<rparr>) t =
    held d t + items_qty t items"
proof -
  let ?d = "d\<lparr>bookings := bookings d @ [r], booking_items := booking_items d @ map item_row items\<rparr>"
  have act: "active_booking ?d x \<longleftrightarrow> x = br_ID r \<or> active_booking d x" for x
    using st by (auto simp: active_booking_def)
  have "ir_BookingID it \<noteq> br_ID r" if "it \<in> set (booking_items d)" for it
    using ok i that unfolding schema_ok_def by metis
  then have old: "(\<Sum>it \<leftarrow> booking_items d. if ir_TicketTypeID it = t \<and> active_booking ?d (ir_BookingID it)
      then ir_Quantity it else 0) = held d t"
    unfolding held_alt act by (intro arg_cong [where f = sum_list] map_cong refl) simp
  have new: "(\<Sum>it \<leftarrow> map item_row items. if ir_TicketTypeID it = t \<and> active_booking ?d (ir_BookingID it)
      then ir_Quantity it else 0) = items_qty t items"
    using its unfolding act by (induction items) (auto simp: item_row_def)
  show ?thesis unfolding held_alt [of ?d] using old new by simp
qed

lemma Reserve_effect:
  assumes "Reserve ttl pay userID email ev items w = (Inr res, w')" "schema_ok (db w)"
  shows "\<forall>t. avail (db w') t = map_option (\<lambda>a. a - items_qty t items) (avail (db w) t)"
    and "\<forall>it \<in> set items. 0 < bi_Quantity it \<and> price (db w) (bi_TicketTypeID it) = Some (bi_UnitPriceRupiah it)"
    and "rs_TotalRupiah res = wrap64 (exact_total items) \<and> rs_Status res = ''pending'' \<and>
         rs_UserID res = userID \<and> rs_EventID res = ev"
    and "\<exists>now. bookings (db w') = bookings (db w) @
           [\<lparr>br_ID = rs_BookingID res, br_UserID = userID, br_EventID = ev, br_Status = ''pending'',
             br_ExpiresAt = Some (rs_ExpiresAt res), br_CreatedAt = now\<rparr>]"
    and "\<exists>rows. booking_items (db w') = booking_items (db w) @ rows \<and>
           map (\<lambda>r. (ir_BookingID r, ir_TicketTypeID r, ir_Quantity r, ir_TotalPriceRupiah r)) rows =
           map (\<lambda>it. (rs_BookingID res, bi_TicketTypeID it, bi_Quantity it,
                      wrap64 (bi_UnitPriceRupiah it * bi_Quantity it))) items"
    and "events (db w') = events (db w) \<and> outbox (db w') = outbox (db w)"
proof -
  from assms obtain w1 u i t1 now n now' where r: "items \<noteq> []" "reserve_loop ev items items w = (Inr u, w1)"
    "res = new_reservation i userID ev (stamped i (uuid_src w1) n items) (calculateTotal items)
             (t1 + wrap64 (ttl * Second)) now"
    "db w' = (db w1)\<lparr>bookings := bookings (db w1) @ [head_row (booking_of res) now'],
                     booking_items := booking_items (db w1) @ map item_row (rs_Items res)\<rparr>"
    "schema_ok (db w')" "i \<notin> br_ID ` set (bookings (db w1))" and pos: "\<forall>it \<in> set items. 0 < bi_Quantity it"
    "pay i ev userID email (calculateTotal items) (t1 + wrap64 (ttl * Second)) = None"
    by (rule Reserve_Inr)
  note g = reserve_loop_grabs [OF r(2) assms(2)] and f = tickets_only_frame
  have "avail (db w') t = avail (db w1) t" for t using r(4) by (simp add: avail_def)
  moreover have "\<forall>(j, q) \<in> set (pairs items). 0 \<le> q" using pos(1) by auto
  ultimately show "\<forall>t. avail (db w') t = map_option (\<lambda>a. a - items_qty t items) (avail (db w) t)"
    using seats.grabs_left [OF schema_ok_tickets [OF assms(2)], of "pairs items" "db w1"] g by simp
  show "\<forall>it \<in> set items. 0 < bi_Quantity it \<and> price (db w) (bi_TicketTypeID it) = Some (bi_UnitPriceRupiah it)"
    using reserve_loop_prices [OF r(2)] pos(1) by blast
  show "rs_TotalRupiah res = wrap64 (exact_total items) \<and> rs_Status res = ''pending'' \<and>
         rs_UserID res = userID \<and> rs_EventID res = ev"
    using r(3) total_from_wrap [of 0 items] by (simp add: new_reservation_def calculateTotal_def wrap64_def)
  have fr: "bookings (db w1) = bookings (db w)" "booking_items (db w1) = booking_items (db w)"
    "events (db w1) = events (db w)" "outbox (db w1) = outbox (db w)" using f g by blast+
  show "\<exists>now. bookings (db w') = bookings (db w) @
      [\<lparr>br_ID = rs_BookingID res, br_UserID = userID, br_EventID = ev, br_Status = ''pending'',
        br_ExpiresAt = Some (rs_ExpiresAt res), br_CreatedAt = now\<rparr>]"
    using r(3,4) fr by (simp add: head_row_def booking_of_def new_reservation_def)
  have "map (\<lambda>r. (ir_BookingID r, ir_TicketTypeID r, ir_Quantity r, ir_TotalPriceRupiah r))
        (map item_row (stamped i src m items)) =
      map (\<lambda>it. (i, bi_TicketTypeID it, bi_Quantity it, wrap64 (bi_UnitPriceRupiah it * bi_Quantity it))) items" for src m
    by (induction items arbitrary: m) (auto simp: item_row_def)
  then show "\<exists>rows. booking_items (db w') = booking_items (db w) @ rows \<and>
      map (\<lambda>r. (ir_BookingID r, ir_TicketTypeID r, ir_Quantity r, ir_TotalPriceRupiah r)) rows =
      map (\<lambda>it. (rs_BookingID res, bi_TicketTypeID it, bi_Quantity it,
                 wrap64 (bi_UnitPriceRupiah it * bi_Quantity it))) items"
    using r(3,4) fr by (simp add: new_reservation_def)
  show "events (db w') = events (db w) \<and> outbox (db w') = outbox (db w)" using r(4) fr by simp
qed

lemma Reserve_done:
  assumes "Reserve ttl pay userID email ev items w = (Inr res, w')" "schema_ok (db w)"
  shows "(\<forall>t. avail (db w') t = map_option (\<lambda>a. a - items_qty t items) (avail (db w) t)) \<and>
    (\<forall>it \<in> set items. 0 < bi_Quantity it \<and> price (db w) (bi_TicketTypeID it) = Some (bi_UnitPriceRupiah it)) \<and>
    (rs_TotalRupiah res = wrap64 (exact_total items) \<and> rs_Status res = ''pending'' \<and>
     rs_UserID res = userID \<and> rs_EventID res = ev) \<and>
    (\<exists>now. bookings (db w') = bookings (db w) @
       [\<lparr>br_ID = rs_BookingID res, br_UserID = userID, br_EventID = ev, br_Status = ''pending'',
         br_ExpiresAt = Some (rs_ExpiresAt res), br_CreatedAt = now\<rparr>]) \<and>
    (\<exists>rows. booking_items (db w') = booking_items (db w) @ rows \<and>
       map (\<lambda>r. (ir_BookingID r, ir_TicketTypeID r, ir_Quantity r, ir_TotalPriceRupiah r)) rows =
       map (\<lambda>it. (rs_BookingID res, bi_TicketTypeID it, bi_Quantity it,
                  wrap64 (bi_UnitPriceRupiah it * bi_Quantity it))) items) \<and>
    events (db w') = events (db w) \<and> outbox (db w') = outbox (db w)"
  by (intro conjI; use Reserve_effect [OF assms] in blast)

text \<open>
  Property C11: a reservation that succeeds, under any fault schedule, took from every ticket type
  exactly the seats its items ask for and charges the prices stored for them; it added one pending
  booking that expires when the reservation says, with one row per item, and changed nothing else.
\<close>

theorem Reserve_success:
  assumes "Reserve ttl pay userID email ev items w = (Inr res, w')" "schema_ok (db w)"
  shows "(\<forall>t. avail (db w') t = map_option (\<lambda>a. a - items_qty t items) (avail (db w) t)) \<and>
    (\<forall>it \<in> set items. 0 < bi_Quantity it \<and> price (db w) (bi_TicketTypeID it) = Some (bi_UnitPriceRupiah it)) \<and>
    (rs_TotalRupiah res = wrap64 (exact_total items) \<and> rs_Status res = ''pending'' \<and>
     rs_UserID res = userID \<and> rs_EventID res = ev) \<and>
    (\<exists>now. bookings (db w') = bookings (db w) @
       [\<lparr>br_ID = rs_BookingID res, br_UserID = userID, br_EventID = ev, br_Status = ''pending'',
         br_ExpiresAt = Some (rs_ExpiresAt res), br_CreatedAt = now\<rparr>]) \<and>
    (\<exists>rows. booking_items (db w') = booking_items (db w) @ rows \<and>
       map (\<lambda>r. (ir_BookingID r, ir_TicketTypeID r, ir_Quantity r, ir_TotalPriceRupiah r)) rows =
       map (\<lambda>it. (rs_BookingID res, bi_TicketTypeID it, bi_Quantity it,
                  wrap64 (bi_UnitPriceRupiah it * bi_Quantity it))) items) \<and>
    events (db w') = events (db w) \<and> outbox (db w') = outbox (db w)"
  using assms by (rule Reserve_done)

lemma Reserve_success_inventory:
  assumes "Reserve ttl pay userID email ev items w = (Inr res, w')" "inventory_ok (db w)"
  shows "inventory_ok (db w')"
proof -
  note ok = inventory_okD [OF assms(2)]
  from assms(1) ok(1) obtain w1 u i t1 now n now' where r: "items \<noteq> []" "reserve_loop ev items items w = (Inr u, w1)"
    "res = new_reservation i userID ev (stamped i (uuid_src w1) n items) (calculateTotal items)
             (t1 + wrap64 (ttl * Second)) now"
    "db w' = (db w1)\<lparr>bookings := bookings (db w1) @ [head_row (booking_of res) now'],
                     booking_items := booking_items (db w1) @ map item_row (rs_Items res)\<rparr>"
    "schema_ok (db w')" "i \<notin> br_ID ` set (bookings (db w1))" and "\<forall>it \<in> set items. 0 < bi_Quantity it"
    "pay i ev userID email (calculateTotal items) (t1 + wrap64 (ttl * Second)) = None"
    by (rule Reserve_Inr)
  note g = reserve_loop_grabs [OF r(2) ok(1)]
  have "held (db w') t = held (db w1) t + items_qty t items" for t
    using held_new_booking [of "db w1" "head_row (booking_of res) now'" "rs_Items res" t] g r(3,4,6)
    by (simp add: head_row_def booking_of_def new_reservation_def stamped_booking active_status_def)
  moreover have "held (db w1) t = held (db w) t" for t
    using g by (intro held_same) (auto simp: shifted_def active_booking_def)
  ultimately have "no_oversell (db w')"
    using no_oversell_shifted [of "\<lambda>t. - items_qty t items" "db w" "db w1" "db w'" "held (db w)"] g r(4) ok(2)
    by (simp add: no_oversell_def)
  with r(5) show ?thesis by (simp add: inventory_ok_def)
qed

section \<open>Reservations that fail\<close>

lemma shifted_mono: "shifted g d d' \<Longrightarrow> (\<And>t. g t \<le> h t) \<Longrightarrow> shifted h d d'"
  unfolding shifted_def list_all2_conv_all_nth by (fastforce intro: order_trans)

text \<open>What a failed reservation must leave: the schema, and no more free seats than before.\<close>

definition no_gain :: "(string \<Rightarrow> int) \<Rightarrow> ticketing_db \<Rightarrow> ticketing_db \<Rightarrow> bool" where
  "no_gain g d d' \<longleftrightarrow> schema_ok d' \<and> shifted g d d'"

lemma no_gain_trans: "no_gain g d d1 \<Longrightarrow> no_gain h d1 d2 \<Longrightarrow> no_gain (\<lambda>t. g t + h t) d d2"
  by (auto simp: no_gain_def intro: shifted_trans)

lemma no_gain_mono: "no_gain g d d' \<Longrightarrow> (\<And>t. g t \<le> h t) \<Longrightarrow> no_gain h d d'"
  by (auto simp: no_gain_def intro: shifted_mono)

lemma no_gain_refl: "schema_ok d \<Longrightarrow> (\<And>t. 0 \<le> g t) \<Longrightarrow> no_gain g d d"
  by (auto simp: no_gain_def intro: shifted_mono [OF shifted_refl])

lemma no_gain_inventory:
  assumes "no_gain (\<lambda>_. 0) d d'" "inventory_ok d"
  shows "inventory_ok d'"
proof -
  have "held d' t = held d t" for t
    using assms(1) by (intro held_same) (auto simp: no_gain_def shifted_def active_booking_def)
  with no_oversell_shifted [of "\<lambda>_. 0" d d' d' "held d"] assms show ?thesis
    by (simp add: inventory_ok_def no_gain_def no_oversell_def)
qed

lemma seat_Release_gain:
  assumes "seat_Release ev i q w = (r, w')" "schema_ok (db w)" "0 \<le> q"
  shows "no_gain (\<lambda>t. if i = t then q else 0) (db w) (db w')"
proof -
  obtain r1 where e: "exec (stmt_Release i q) w = (r1, w')"
    using assms(1) by (cases r) (auto simp: seat_Release_def run_inv)
  then show ?thesis
  proof (cases rule: exec_cases)
    case 1
    with assms(2,3) show ?thesis by (auto intro: no_gain_refl)
  next
    case 2
    with stmt_Release_schema [OF 2 assms(2)] stmt_Release_shifted [OF 2] show ?thesis
      by (simp add: no_gain_def)
  qed
qed

lemma rollbackSeats_gain:
  "rollbackSeats ev items w = (r, w') \<Longrightarrow> schema_ok (db w) \<Longrightarrow> \<forall>it \<in> set items. 0 \<le> bi_Quantity it \<Longrightarrow>
   r = Inr () \<and> no_gain (\<lambda>t. items_qty t items) (db w) (db w')"
proof (induction items arbitrary: w)
  case (Cons it items)
  then obtain r1 w1 where s: "seat_Release ev (bi_TicketTypeID it) (bi_Quantity it) w = (r1, w1)"
    and k: "rollbackSeats ev items w1 = (r, w')" by (auto simp: run_inv)
  have g: "no_gain (\<lambda>t. if bi_TicketTypeID it = t then bi_Quantity it else 0) (db w) (db w1)"
    using seat_Release_gain [OF s Cons.prems(2)] Cons.prems(3) by simp
  with Cons.IH [OF k] Cons.prems(3) no_gain_trans [OF g] show ?case by (simp add: no_gain_def)
qed (auto simp: run_inv intro: no_gain_refl)

lemma rollbackSeats_never_fails: "rollbackSeats ev items w \<noteq> (Inl e, w')"
  by (induction items arbitrary: w) (simp_all add: run_inv)

text \<open>The inner loop releases the items before the first one of the failed ticket type.\<close>

lemma rollback_until_eq:
  "rollback_until ev failed items = rollbackSeats ev (takeWhile (\<lambda>it. bi_TicketTypeID it \<noteq> failed) items)"
  by (induction items) auto

lemma items_qty_mono:
  "\<forall>it \<in> set (xs @ ys). 0 \<le> bi_Quantity it \<Longrightarrow> items_qty t xs \<le> items_qty t (xs @ ys)"
  using items_qty_nonneg [of ys t] by simp

lemma takeWhile_before:
  "\<not> P x \<Longrightarrow> \<exists>ys. before = takeWhile P (before @ x # rest) @ ys"
  by (induction before) auto

lemma seat_Reserve_Inl:
  assumes "seat_Reserve ev i q w = (Inl e, w')" "schema_ok (db w)" "0 \<le> q"
  shows "no_gain (\<lambda>_. 0) (db w) (db w')"
proof -
  have "db w' = db w \<or> (\<exists>n. stmt_Reserve i q (db w) = Inr (n, db w'))"
    using assms(1) by (auto simp: seat_Reserve_def run_inv split: if_splits dest: exec_Inr(1) exec_Inl)
  then show ?thesis
  proof (elim disjE exE)
    fix n assume n: "stmt_Reserve i q (db w) = Inr (n, db w')"
    show ?thesis
    proof (cases "n = 0")
      case True
      with n stmt_Reserve_zero assms(2) show ?thesis by (fastforce intro: no_gain_refl)
    next
      case False
      from stmt_Reserve_shifted [OF schema_ok_tickets [OF assms(2)] n False] stmt_Reserve_schema [OF n assms(2)] assms(3)
      show ?thesis by (auto simp: no_gain_def intro: shifted_mono)
    qed
  qed (use assms(2) in \<open>auto intro: no_gain_refl\<close>)
qed

lemma reserve_loop_Inl:
  assumes "reserve_loop ev (before @ items) items w = (Inl e, w')" "no_gain (\<lambda>t. - items_qty t before) d (db w)"
    and pos: "\<forall>it \<in> set (before @ items). 0 \<le> bi_Quantity it"
  shows "no_gain (\<lambda>_. 0) d (db w')"
  using assms
proof (induction items arbitrary: w before)
  case (Cons it rest)
  let ?tt = "bi_TicketTypeID it" and ?q = "bi_Quantity it"
  have le: "- items_qty t before \<le> 0" for t using items_qty_nonneg [of before t] Cons.prems(3) by simp
  have ok: "schema_ok (db w)" using Cons.prems(2) by (simp add: no_gain_def)
  have stop: ?case if "db w' = db w" using no_gain_mono [OF Cons.prems(2) le] that by simp
  obtain r1 w1 where g: "seat_GetPrice ev ?tt w = (r1, w1)" by fastforce
  have db1: "db w1 = db w" by (rule read_onlyD [OF read_only_seat_GetPrice g])
  consider "db w' = db w1"
    | (short) e1 w2 w3 where "seat_Reserve ev ?tt ?q w1 = (Inl e1, w2)"
        "rollback_until ev ?tt (before @ it # rest) w2 = (Inr (), w3)" "db w' = db w3"
    | (more) u w2 where "seat_Reserve ev ?tt ?q w1 = (Inr u, w2)"
        "reserve_loop ev (before @ it # rest) rest w2 = (Inl e, w')"
    using Cons.prems(1) g
    by (cases r1) (auto simp: run_inv rollback_until_eq rollbackSeats_never_fails split: if_splits)
  then show ?case
  proof cases
    case 1
    with db1 stop show ?thesis by simp
  next
    case short
    obtain ys where ys: "before = takeWhile (\<lambda>i. bi_TicketTypeID i \<noteq> ?tt) (before @ it # rest) @ ys"
      using takeWhile_before [of _ it] by fastforce
    let ?tw = "takeWhile (\<lambda>i. bi_TicketTypeID i \<noteq> ?tt) (before @ it # rest)"
    have "no_gain (\<lambda>_. 0) (db w) (db w2)"
      using seat_Reserve_Inl [OF short(1)] ok db1 Cons.prems(3) by simp
    note g2 = no_gain_trans [OF Cons.prems(2) this]
    have "\<forall>i \<in> set ?tw. 0 \<le> bi_Quantity i" using ys Cons.prems(3) by (metis UnCI set_append)
    then have "no_gain (\<lambda>t. items_qty t ?tw) (db w2) (db w3)"
      using rollbackSeats_gain [OF short(2) [unfolded rollback_until_eq]] g2 by (simp add: no_gain_def)
    note g3 = no_gain_trans [OF g2 this]
    have "items_qty t ?tw \<le> items_qty t before" for t
      using items_qty_mono [of ?tw ys t] ys Cons.prems(3) by (metis UnCI set_append)
    with g3 short(3) show ?thesis by (auto intro: no_gain_mono)
  next
    case more
    obtain n where n: "stmt_Reserve ?tt ?q (db w) = Inr (n, db w2)" "n \<noteq> 0"
      using seat_Reserve_Inr [OF more(1)] db1 by metis
    have "no_gain (\<lambda>t. if ?tt = t then - ?q else 0) (db w) (db w2)"
      using stmt_Reserve_shifted [OF schema_ok_tickets [OF ok] n] stmt_Reserve_schema [OF n(1) ok]
      by (simp add: no_gain_def)
    from no_gain_trans [OF Cons.prems(2) this]
    have "no_gain (\<lambda>t. - items_qty t (before @ [it])) d (db w2)" by (rule no_gain_mono) simp
    with Cons.IH [of "before @ [it]" w2] more(2) Cons.prems(3) show ?thesis by simp
  qed
qed (simp add: run_inv)

lemma keeps_clear_reserve [clearing]:
  "keeps_clear (seat_GetPrice ev i)" "keeps_clear (seat_Reserve ev i q)" "keeps_clear (seat_Release ev i q)"
  unfolding seat_GetPrice_def seat_Reserve_def seat_Release_def select_ticket_def
  by (auto intro!: clearing)

lemma keeps_clear_rollbackSeats [clearing]: "keeps_clear (rollbackSeats ev items)"
  by (induction items) (auto intro!: clearing)

lemma keeps_clear_reserve_loop [clearing]: "keeps_clear (reserve_loop ev all items)"
  by (induction items) (auto intro!: clearing simp: rollback_until_eq)

lemma keeps_clear_insert_items [clearing]: "keeps_clear (insert_items items)"
  by (induction items) (auto intro!: clearing simp: Let_def)

lemma booking_Create_clear:
  assumes "clear w" "booking_Create b w = (Inl e, w')"
  shows "db w' = db w"
proof (rule withTx_clear_Inl [OF _ assms(1) assms(2) [unfolded booking_Create_def]])
  show "keeps_clear (bindE readClock (\<lambda>now. bindE (mapErr DbErr (exec (stmt_insert_booking b now))) (\<lambda>_.
      bindE (insert_items (bk_Items b)) (\<lambda>_. retE ((), True)))))"
    by (auto intro!: clearing)
qed

lemma Reserve_failure_no_gain:
  assumes r: "Reserve ttl pay userID email ev items w = (Inl e, w')" and ok: "schema_ok (db w)" and c: "clear w"
    and pay: "\<And>i tot ex. pay i ev userID email tot ex = None" and pos: "\<forall>it \<in> set items. 0 < bi_Quantity it"
  shows "no_gain (\<lambda>_. 0) (db w) (db w')"
proof -
  have nn: "\<forall>it \<in> set items. 0 \<le> bi_Quantity it" using pos by auto
  consider "db w' = db w" | "reserve_loop ev items items w = (Inl e, w')"
    | (create) u w1 rs a b w3 i n where "reserve_loop ev items items w = (Inr u, w1)"
      "booking_Create (booking_of rs) (w1\<lparr>ticks := a, uuid_ctr := b\<rparr>) = (Inl e, w3)"
      "rollbackSeats ev (stamped i (uuid_src w1) n items) w3 = (Inr (), w')"
    using r unfolding Reserve_def
    by (auto simp: run_inv stamp_items_run Let_def pay rollbackSeats_never_fails split: if_splits)
  then show ?thesis
  proof cases
    case 1
    with ok show ?thesis by (auto intro: no_gain_refl)
  next
    case 2
    have "no_gain (\<lambda>t. - items_qty t []) (db w) (db w)" using ok by (auto intro: no_gain_refl)
    with reserve_loop_Inl [of ev "[]" items w e w' "db w"] 2 nn show ?thesis by simp
  next
    case create
    note g = reserve_loop_grabs [OF create(1) ok]
    have "clear (w1\<lparr>ticks := a, uuid_ctr := b\<rparr>)"
      using keeps_clearD [OF keeps_clear_reserve_loop c create(1)] by simp
    from booking_Create_clear [OF this create(2)] have "db w3 = db w1" by simp
    moreover have "\<forall>it \<in> set (stamped i (uuid_src w1) n items). 0 < bi_Quantity it" using pos by simp
    then have "\<forall>it \<in> set (stamped i (uuid_src w1) n items). 0 \<le> bi_Quantity it" using less_imp_le by blast
    ultimately have undo: "no_gain (\<lambda>t. items_qty t items) (db w1) (db w')"
      using rollbackSeats_gain [OF create(3)] g by simp
    have "no_gain (\<lambda>t. - items_qty t items) (db w) (db w1)" using g by (simp add: no_gain_def)
    from no_gain_trans [OF this undo] show ?thesis by simp
  qed
qed

lemma Reserve_keeps:
  assumes "inventory_ok (db w)" "clear w" "\<And>i tot ex. pay i ev userID email tot ex = None"
    and "\<forall>it \<in> set items. 0 < bi_Quantity it"
  shows "inventory_ok (db (snd (Reserve ttl pay userID email ev items w)))"
proof (cases "Reserve ttl pay userID email ev items w")
  case (Pair r w')
  show ?thesis
  proof (cases r)
    case (Inl e)
    have "no_gain (\<lambda>_. 0) (db w) (db w')"
      by (rule Reserve_failure_no_gain [OF Pair [unfolded Inl] inventory_okD(1) [OF assms(1)] assms(2)])
        (fact assms)+
    from no_gain_inventory [OF this assms(1)] Pair show ?thesis by simp
  next
    case (Inr res)
    with Pair Reserve_success_inventory assms(1) show ?thesis by simp
  qed
qed

end
