(* ===== verification/Reservation_Paths.thy ===== *)
theory Reservation_Paths
  imports Reservation
begin

text \<open>
  Paths through a reservation on a healthy database: a shortage gives everything back, enough
  seats always suffice, and an expiry returns exactly what the reservation took. The last section
  evaluates the paths on which the code loses or double-counts seats.
\<close>

section \<open>Shortage\<close>

lemma seat_Release_calm:
  "calm w \<Longrightarrow> snd (seat_Release ev i q w) =
     w\<lparr>db := (case stmt_Release i q (db w) of Inl _ \<Rightarrow> db w | Inr (_, d') \<Rightarrow> d')\<rparr>"
  by (auto simp: seat_Release_def op_defs mapErr_def run_stmt_def split: sum.splits)

lemma rollbackSeats_calm:
  "calm w \<Longrightarrow> rollbackSeats ev items w = (Inr (), w\<lparr>db := seats.gives (pairs items) (db w)\<rparr>)"
proof (induction items arbitrary: w)
  case (Cons it items)
  then show ?case by (simp add: ignoreE_def seat_Release_calm)
qed (simp add: retE_def)

lemma seat_GetPrice_calm:
  "calm w \<Longrightarrow> seat_GetPrice ev i w =
     (case price (db w) i of None \<Rightarrow> Inl ErrReservationNotFound | Some p \<Rightarrow> Inr p, w)"
  by (auto simp: seat_GetPrice_def select_ticket_def op_defs run_stmt_def price_def split: option.splits)

lemma seat_Reserve_calm:
  "calm w \<Longrightarrow> seat_Reserve ev i q w =
     (case stmt_Reserve i q (db w) of
        Inl e \<Rightarrow> (Inl (DbErr e), w)
      | Inr (n, d') \<Rightarrow> if n = 0 then (Inl ErrNoSeatsAvailable, w) else (Inr (), w\<lparr>db := d'\<rparr>))"
  using stmt_Reserve_zero [of i q "db w"]
  by (auto simp: seat_Reserve_def op_defs mapErr_def run_stmt_def split: sum.splits)

lemma takeWhile_distinct:
  "bi_TicketTypeID it \<notin> bi_TicketTypeID ` set before \<Longrightarrow>
   takeWhile (\<lambda>i. bi_TicketTypeID i \<noteq> bi_TicketTypeID it) (before @ it # rest) = before"
  by (induction before) auto

lemma reserve_loop_short:
  assumes "reserve_loop ev (before @ items) items w = (Inl ErrNoSeatsAvailable, w')" "calm w"
    and "seats.grabs (pairs before) d = Some (db w)" "distinct (map bi_TicketTypeID (before @ items))"
  shows "\<exists>xs d1. set xs \<subseteq> set (before @ items) \<and> seats.grabs (pairs xs) d = Some d1 \<and>
    db w' = seats.gives (pairs xs) d1"
  using assms
proof (induction items arbitrary: w before)
  case (Cons it rest)
  let ?tt = "bi_TicketTypeID it" and ?q = "bi_Quantity it"
  have price: "price (db w) ?tt = Some (bi_UnitPriceRupiah it)"
    using Cons.prems(1,2) by (auto simp: bindE_def seat_GetPrice_calm failE_def split: option.splits if_splits)
  have run: "handleE (seat_Reserve ev ?tt ?q)
      (\<lambda>_. bindE (rollback_until ev ?tt (before @ it # rest)) (\<lambda>_. failE ErrNoSeatsAvailable))
      (\<lambda>_. reserve_loop ev (before @ it # rest) rest) w = (Inl ErrNoSeatsAvailable, w')"
    using Cons.prems(1,2) by (simp add: bindE_def seat_GetPrice_calm price)
  have tw: "takeWhile (\<lambda>i. bi_TicketTypeID i \<noteq> ?tt) (before @ it # rest) = before"
    by (rule takeWhile_distinct) (use Cons.prems(4) in auto)
  have stop: ?case if "db w' = seats.gives (pairs before) (db w)"
    using that Cons.prems(3) by (intro exI [of _ before] exI [of _ "db w"]) auto
  show ?case
  proof (cases "\<exists>n d'. stmt_Reserve ?tt ?q (db w) = Inr (n, d') \<and> n \<noteq> 0")
    case True
    then obtain n d' where n: "stmt_Reserve ?tt ?q (db w) = Inr (n, d')" "n \<noteq> 0" by blast
    have g: "seats.grabs (pairs (before @ [it])) d = Some (db (w\<lparr>db := d'\<rparr>))"
      using Cons.prems(3) n by (simp add: seats.grabs_append)
    have l: "reserve_loop ev ((before @ [it]) @ rest) rest (w\<lparr>db := d'\<rparr>) = (Inl ErrNoSeatsAvailable, w')"
      using run n Cons.prems(2) by (simp add: handleE_def seat_Reserve_calm)
    from Cons.IH [OF l _ g] Cons.prems(2,4) show ?thesis by simp
  next
    case False
    with run Cons.prems(2) have "w' = w\<lparr>db := seats.gives (pairs before) (db w)\<rparr>"
      by (auto simp: handleE_def seat_Reserve_calm bindE_def rollback_until_eq rollbackSeats_calm tw failE_def
          split: sum.splits if_splits)
    with stop show ?thesis by simp
  qed
qed (simp add: run_inv)

lemma grabs_only: "seats.grabs xs d = Some d' \<Longrightarrow> tickets_only d d'"
proof (induction xs arbitrary: d)
  case (Cons x xs)
  then obtain n d1 where "stmt_Reserve (fst x) (snd x) d = Inr (n, d1)" "seats.grabs xs d1 = Some d'"
    by (cases x) (auto split: sum.splits if_splits)
  with Cons.IH stmt_Reserve_only show ?case by (blast intro: tickets_only_trans)
qed simp

lemma gives_only: "tickets_only d (seats.gives xs d)"
proof (induction xs arbitrary: d)
  case (Cons x xs)
  obtain i q where x: "x = (i, q)" by (cases x)
  have "tickets_only d (case stmt_Release i q d of Inl _ \<Rightarrow> d | Inr (_, d') \<Rightarrow> d')"
    by (auto split: sum.splits dest: stmt_Release_only)
  with Cons.IH x show ?case by (auto intro: tickets_only_trans)
qed simp

lemma booking_Create_DbErr: "booking_Create b w = (Inl e, w') \<Longrightarrow> \<exists>e'. e = DbErr e'"
proof -
  assume r: "booking_Create b w = (Inl e, w')"
  have ins: "insert_items items v = (Inl e, v') \<Longrightarrow> \<exists>e'. e = DbErr e'" for items v v'
    by (induction items arbitrary: v) (auto simp: run_inv Let_def)
  show ?thesis
    using r by (auto simp: booking_Create_def withTx_def run_inv split: prod.splits sum.splits if_splits fault.splits
        dest!: ins)
qed

text \<open>
  Property C22: on a healthy database, a reservation over distinct ticket types that is refused for
  lack of seats leaves every table as it was, the available seats included.
\<close>

theorem Reserve_shortage_restores:
  assumes "calm w" "schema_ok (db w)" "\<forall>it \<in> set items. 0 < bi_Quantity it" "distinct (map bi_TicketTypeID items)"
    and "\<And>i tot ex. pay i ev userID email tot ex \<noteq> Some ErrNoSeatsAvailable"
    and "Reserve ttl pay userID email ev items w = (Inl ErrNoSeatsAvailable, w')"
  shows "avail (db w') = avail (db w) \<and> capacity (db w') = capacity (db w) \<and>
    bookings (db w') = bookings (db w) \<and> booking_items (db w') = booking_items (db w)"
proof -
  have l: "reserve_loop ev ([] @ items) items w = (Inl ErrNoSeatsAvailable, w')"
    using assms(5,6) by (auto simp: Reserve_def run_inv stamp_items_run Let_def rollbackSeats_never_fails
        split: if_splits option.splits dest!: booking_Create_DbErr)
  obtain xs d1 where xs: "set xs \<subseteq> set items" "seats.grabs (pairs xs) (db w) = Some d1"
    "db w' = seats.gives (pairs xs) d1"
    using reserve_loop_short [OF l assms(1)] assms(4) by auto
  have "\<forall>(j, q) \<in> set (pairs xs). 0 \<le> q" using xs(1) assms(3) by fastforce
  from seats.grabs_gives [OF schema_ok_tickets [OF assms(2)] this xs(2)] xs(3)
  have "avail (db w') = avail (db w)" "capacity (db w') = capacity (db w)" by simp_all
  moreover have "tickets_only (db w) d1" by (rule grabs_only [OF xs(2)])
  then have "tickets_only (db w) (db w')" using gives_only xs(3) tickets_only_trans by metis
  ultimately show ?thesis using tickets_only_frame by blast
qed

section \<open>Enough seats suffice\<close>

lemma reserve_loop_enough:
  assumes "calm w" "schema_ok (db w)"
    and "\<forall>it \<in> set items. 0 < bi_Quantity it \<and> price (db w) (bi_TicketTypeID it) = Some (bi_UnitPriceRupiah it)"
    and "\<And>t a. avail (db w) t = Some a \<Longrightarrow> items_qty t items \<le> a"
  shows "\<exists>d'. reserve_loop ev all items w = (Inr (), w\<lparr>db := d'\<rparr>)"
  using assms
proof (induction items arbitrary: w)
  case (Cons it rest)
  let ?tt = "bi_TicketTypeID it" and ?q = "bi_Quantity it"
  obtain a where a: "avail (db w) ?tt = Some a"
    using Cons.prems(3) by (auto simp: price_def avail_def)
  have "0 \<le> items_qty ?tt rest" using Cons.prems(3) by (intro items_qty_nonneg) (auto simp: less_imp_le)
  then have q: "0 \<le> ?q" "?q \<le> a" using Cons.prems(3) Cons.prems(4) [OF a] by auto
  obtain d' where d': "stmt_Reserve ?tt ?q (db w) = Inr (1, d')" "avail d' = (avail (db w))(?tt \<mapsto> a - ?q)"
    using stmt_Reserve_ok [OF schema_ok_tickets [OF Cons.prems(2)] a q] by blast
  have "\<exists>d''. reserve_loop ev all rest (w\<lparr>db := d'\<rparr>) = (Inr (), (w\<lparr>db := d'\<rparr>)\<lparr>db := d''\<rparr>)"
  proof (rule Cons.IH)
    show "schema_ok (db (w\<lparr>db := d'\<rparr>))" using stmt_Reserve_schema [OF d'(1) Cons.prems(2)] by simp
    show "items_qty t rest \<le> b" if "avail (db (w\<lparr>db := d'\<rparr>)) t = Some b" for t b
      using that d'(2) a Cons.prems(4) [of t] by (auto split: if_splits)
  qed (use Cons.prems(1,3) stmt_Reserve_price [OF d'(1)] in auto)
  then obtain d'' where "reserve_loop ev all rest (w\<lparr>db := d'\<rparr>) = (Inr (), w\<lparr>db := d''\<rparr>)" by auto
  with d'(1) Cons.prems(1,3) show ?case
    by (auto simp: bindE_def handleE_def seat_GetPrice_calm seat_Reserve_calm)
qed (simp add: retE_def, metis world.surjective world.update_convs(1))

lemma insert_items_calm:
  assumes "calm w" "distinct (map bi_ID items)"
    and "\<forall>it \<in> set items. bi_ID it \<notin> ir_ID ` set (booking_items (db w)) \<and>
           bi_BookingID it \<in> br_ID ` set (bookings (db w)) \<and> 0 < bi_Quantity it \<and> int4_ok (bi_Quantity it) \<and>
           0 \<le> ir_TotalPriceRupiah (item_row it) \<and> int8_ok (ir_TotalPriceRupiah (item_row it))"
  shows "\<exists>d'. insert_items items w = (Inr (), w\<lparr>db := d'\<rparr>)"
  using assms
proof (induction items arbitrary: w)
  case (Cons it items)
  let ?d = "(db w)\<lparr>booking_items := booking_items (db w) @ [item_row it]\<rparr>"
  have q: "stmt_insert_item it (ir_TotalPriceRupiah (item_row it)) (db w) = Inr ((), ?d)"
    using Cons.prems(3) by (simp add: stmt_insert_item_def Let_def booking_item_check_def item_row_def)
  have "\<exists>d'. insert_items items (w\<lparr>db := ?d\<rparr>) = (Inr (), w\<lparr>db := ?d\<rparr>\<lparr>db := d'\<rparr>)"
    by (rule Cons.IH) (use Cons.prems in \<open>auto simp: item_row_def [of it], metis image_eqI\<close>)
  then obtain d' where "insert_items items (w\<lparr>db := ?d\<rparr>) = (Inr (), w\<lparr>db := d'\<rparr>)" by auto
  with q Cons.prems(1) show ?case
    by (auto simp: bindE_def mapErr_def run_stmt_def Let_def item_row_def [of it])
qed (simp add: retE_def, metis world.surjective world.update_convs(1))

lemma stamped_ids: "map bi_ID (stamped i src n items) = map src [n..<n + length items]"
  by (induction items arbitrary: n) (simp_all add: upt_conv_Cons del: upt_Suc)

lemma stamped_item:
  "x \<in> set (stamped i src n items) \<Longrightarrow> \<exists>it \<in> set items. bi_Quantity x = bi_Quantity it \<and>
     ir_TotalPriceRupiah (item_row x) = wrap64 (bi_UnitPriceRupiah it * bi_Quantity it) \<and>
     bi_BookingID x = i \<and> bi_ID x \<in> src ` {n..}"
proof (induction items arbitrary: n)
  case (Cons it items)
  have "bi_ID x \<in> src ` {Suc n..} \<Longrightarrow> bi_ID x \<in> src ` {n..}" by auto
  with Cons show ?case by (force simp: item_row_def)
qed simp

lemma booking_Create_calm:
  assumes "calm w" "bk_Status b = ''pending''" "bk_ExpiresAt b \<noteq> None"
    and "bk_ID b \<notin> br_ID ` set (bookings (db w))" "bk_EventID b \<in> ev_ID ` set (events (db w))"
    and "distinct (map bi_ID (bk_Items b))"
    and "\<forall>it \<in> set (bk_Items b). bi_ID it \<notin> ir_ID ` set (booking_items (db w)) \<and> bi_BookingID it = bk_ID b \<and>
           0 < bi_Quantity it \<and> int4_ok (bi_Quantity it) \<and>
           0 \<le> ir_TotalPriceRupiah (item_row it) \<and> int8_ok (ir_TotalPriceRupiah (item_row it))"
  shows "\<exists>w'. booking_Create b w = (Inr (), w') \<and> calm w'"
proof -
  let ?body = "bindE readClock (\<lambda>now. bindE (mapErr DbErr (exec (stmt_insert_booking b now))) (\<lambda>_.
    bindE (insert_items (bk_Items b)) (\<lambda>_. retE ((), True))))"
  let ?w = "w\<lparr>ticks := Suc (ticks w)\<rparr>"
  let ?d = "(db w)\<lparr>bookings := bookings (db w) @ [head_row b (clock w (ticks w))]\<rparr>"
  have q: "stmt_insert_booking b (clock w (ticks w)) (db w) = Inr ((), ?d)"
    using assms by (simp add: stmt_insert_booking_def Let_def booking_check_def head_row_def)
  have "\<exists>d'. insert_items (bk_Items b) (?w\<lparr>db := ?d\<rparr>) = (Inr (), ?w\<lparr>db := ?d\<rparr>\<lparr>db := d'\<rparr>)"
    by (rule insert_items_calm) (use assms in \<open>auto simp: head_row_def\<close>)
  then obtain d' where "insert_items (bk_Items b) (?w\<lparr>db := ?d\<rparr>) = (Inr (), ?w\<lparr>db := d'\<rparr>)" by auto
  then have body: "?body w = (Inr ((), True), ?w\<lparr>db := d'\<rparr>)"
    using q assms(1) by (simp add: bindE_def readClock_def mapErr_def run_stmt_def retE_def)
  then show ?thesis
    using withTx_calm [of w ?body "Inr ((), True)" "?w\<lparr>db := d'\<rparr>" DbErr] assms(1)
    by (simp add: booking_Create_def)
qed

lemma avail_row: "avail d t = Some a \<Longrightarrow> \<exists>r \<in> set (ticket_types d). tt_ID r = t \<and> tt_Available r = a"
  by (auto simp: avail_def dest: find_SomeD)

text \<open>
  A request the service can serve: the prices are the stored ones, every ticket type has enough
  seats, and the identifiers still to be drawn are fresh.
\<close>

definition servable :: "ticketing_db world \<Rightarrow> string \<Rightarrow> BookingItem list \<Rightarrow> bool" where
  "servable w ev items \<longleftrightarrow>
     calm w \<and> schema_ok (db w) \<and> items \<noteq> [] \<and> ev \<in> ev_ID ` set (events (db w)) \<and>
     (\<forall>it \<in> set items. 0 < bi_Quantity it \<and> price (db w) (bi_TicketTypeID it) = Some (bi_UnitPriceRupiah it) \<and>
        int8_ok (bi_UnitPriceRupiah it * bi_Quantity it)) \<and>
     (\<forall>t \<in> set (ticket_types (db w)). items_qty (tt_ID t) items \<le> tt_Available t) \<and>
     inj (uuid_src w) \<and>
     (\<forall>n. uuid_src w n \<notin> br_ID ` set (bookings (db w)) \<and> uuid_src w n \<notin> ir_ID ` set (booking_items (db w)))"

lemma servable_item:
  assumes "servable w ev items" and it: "it \<in> set items"
  shows "0 \<le> bi_UnitPriceRupiah it * bi_Quantity it" "int4_ok (bi_Quantity it)"
proof -
  have pos: "\<forall>i \<in> set items. 0 \<le> bi_Quantity i" and ok: "schema_ok (db w)" and q: "0 < bi_Quantity it"
    using assms by (auto simp: servable_def)
  obtain t where t: "find (\<lambda>x. tt_ID x = bi_TicketTypeID it) (ticket_types (db w)) = Some t"
      "tt_PriceRupiah t = bi_UnitPriceRupiah it"
    using assms by (auto simp: price_def servable_def)
  have row: "ticket_check t" "int4_ok (tt_Quantity t)"
    using tickets_ok_row [OF schema_ok_tickets [OF ok] t(1)] by auto
  have "bi_Quantity it \<le> tt_Available t"
    using item_le_items_qty [OF it pos] assms(1) find_SomeD [OF t(1)] by (fastforce simp: servable_def)
  with row t(2) q show "0 \<le> bi_UnitPriceRupiah it * bi_Quantity it" "int4_ok (bi_Quantity it)"
    by (auto simp: ticket_check_def int4_ok_def)
qed

lemma servable_create:
  assumes sv: "servable w ev items" and d1: "tickets_only (db w) d1"
    and rs: "rs = new_reservation (uuid_src w m) userID ev (stamped (uuid_src w m) (uuid_src w) n items) tot ex now"
  shows "\<exists>w'. booking_Create (booking_of rs) (w\<lparr>db := d1, ticks := a, uuid_ctr := b\<rparr>) = (Inr (), w') \<and> calm w'"
proof (rule booking_Create_calm)
  let ?w = "w\<lparr>db := d1, ticks := a, uuid_ctr := b\<rparr>" and ?b = "booking_of rs"
  note f = tickets_only_frame [OF d1]
  show "distinct (map bi_ID (bk_Items ?b))"
    using sv by (simp add: servable_def booking_of_def rs new_reservation_def stamped_ids distinct_map inj_on_def inj_def)
  show "\<forall>it \<in> set (bk_Items ?b). bi_ID it \<notin> ir_ID ` set (booking_items (db ?w)) \<and> bi_BookingID it = bk_ID ?b \<and>
      0 < bi_Quantity it \<and> int4_ok (bi_Quantity it) \<and>
      0 \<le> ir_TotalPriceRupiah (item_row it) \<and> int8_ok (ir_TotalPriceRupiah (item_row it))"
  proof
    fix x assume "x \<in> set (bk_Items ?b)"
    then have "x \<in> set (stamped (uuid_src w m) (uuid_src w) n items)"
      by (simp add: booking_of_def rs new_reservation_def)
    from stamped_item [OF this] obtain it k where it: "it \<in> set items" "bi_Quantity x = bi_Quantity it"
      "ir_TotalPriceRupiah (item_row x) = wrap64 (bi_UnitPriceRupiah it * bi_Quantity it)"
      "bi_BookingID x = uuid_src w m" and k: "bi_ID x = uuid_src w k" by blast
    have "uuid_src w k \<notin> ir_ID ` set (booking_items (db w))" using sv unfolding servable_def by blast
    then have "bi_ID x \<notin> ir_ID ` set (booking_items (db ?w))" using k f by simp
    with it sv servable_item [OF sv it(1)]
    show "bi_ID x \<notin> ir_ID ` set (booking_items (db ?w)) \<and> bi_BookingID x = bk_ID ?b \<and>
        0 < bi_Quantity x \<and> int4_ok (bi_Quantity x) \<and>
        0 \<le> ir_TotalPriceRupiah (item_row x) \<and> int8_ok (ir_TotalPriceRupiah (item_row x))"
      by (simp add: booking_of_def rs new_reservation_def servable_def)
  qed
qed (use sv tickets_only_frame [OF d1] in \<open>auto simp: servable_def booking_of_def rs new_reservation_def\<close>)

text \<open>Up to the call of the payment service a servable request runs like this.\<close>

lemma Reserve_until_payment:
  assumes sv: "servable w ev items"
  obtains w1 rs w2 w3 i n where "reserve_loop ev items items w = (Inr (), w1)"
    "booking_Create (booking_of rs) w2 = (Inr (), w3)" "calm w3" "db w2 = db w1" "rs_BookingID rs = i"
    "rs_Items rs = stamped i (uuid_src w) n items" "rs_Status rs = ''pending''"
    "Reserve ttl pay userID email ev items w =
       (case pay i ev userID email (rs_TotalRupiah rs) (rs_ExpiresAt rs) of
          None \<Rightarrow> (Inr rs, w3)
        | Some e \<Rightarrow> (Inl e, snd (rollbackSeats ev (rs_Items rs) (snd (booking_Delete i w3)))))"
proof -
  have sv': "calm w" "schema_ok (db w)" "items \<noteq> []" using sv by (auto simp: servable_def)
  have "items_qty t items \<le> a" if "avail (db w) t = Some a" for t a
    using sv avail_row [OF that] by (auto simp: servable_def)
  then obtain d1 where l: "reserve_loop ev items items w = (Inr (), w\<lparr>db := d1\<rparr>)"
    using reserve_loop_enough [OF sv'(1,2), of items ev items] sv by (auto simp: servable_def)
  have g: "tickets_only (db w) d1" using reserve_loop_grabs [OF l sv'(2)] by simp
  let ?i = "uuid_src w (uuid_ctr w)"
  define rs where "rs = new_reservation ?i userID ev (stamped ?i (uuid_src w) (Suc (uuid_ctr w)) items)
    (calculateTotal items) (clock w (ticks w) + wrap64 (ttl * Second)) (clock w (Suc (ticks w)))"
  define w2 where "w2 = w\<lparr>db := d1, ticks := Suc (Suc (ticks w)), uuid_ctr := Suc (uuid_ctr w) + length items\<rparr>"
  obtain w3 where c: "booking_Create (booking_of rs) w2 = (Inr (), w3)" "calm w3"
    unfolding w2_def using servable_create [OF sv g rs_def] by blast
  have "Reserve ttl pay userID email ev items w =
      (case pay ?i ev userID email (rs_TotalRupiah rs) (rs_ExpiresAt rs) of
         None \<Rightarrow> (Inr rs, w3)
       | Some e \<Rightarrow> (Inl e, snd (rollbackSeats ev (rs_Items rs) (snd (booking_Delete ?i w3)))))"
  proof -
    obtain w4 where w4: "rollbackSeats ev (rs_Items rs) (snd (booking_Delete ?i w3)) = (Inr (), w4)"
      by (cases "rollbackSeats ev (rs_Items rs) (snd (booking_Delete ?i w3))"; cases "fst (rollbackSeats ev (rs_Items rs) (snd (booking_Delete ?i w3)))")
        (auto simp: rollbackSeats_never_fails)
    with sv'(3) l c(1) show ?thesis
      by (auto simp: Reserve_def bindE_def handleE_def ignoreE_def readClock_def newUUID_def stamp_items_run Let_def
          retE_def failE_def rs_def w2_def new_reservation_def split: option.splits)
  qed
  moreover have "db w2 = db (w\<lparr>db := d1\<rparr>)" "rs_BookingID rs = ?i" "rs_Status rs = ''pending''"
    "rs_Items rs = stamped ?i (uuid_src w) (Suc (uuid_ctr w)) items"
    by (simp_all add: w2_def rs_def new_reservation_def)
  ultimately show thesis using that [OF l c] by simp
qed

text \<open>
  Property C21: a request whose prices are the stored ones and for which every ticket type has
  enough seats is never refused: on a healthy database with fresh identifiers, and with a payment
  service that accepts it, the reservation succeeds.
\<close>

theorem Reserve_succeeds:
  assumes "servable w ev items" "\<And>i tot ex. pay i ev userID email tot ex = None"
  shows "\<exists>res w'. Reserve ttl pay userID email ev items w = (Inr res, w')"
  by (rule Reserve_until_payment [OF assms(1), of ttl pay userID email]) (use assms(2) in auto)

section \<open>Seats come back\<close>

lemma release_items_gives:
  assumes "calm w" "tickets_ok (db w)" "\<forall>it \<in> set items. 0 \<le> bi_Quantity it \<and> avail (db w) (bi_TicketTypeID it) \<noteq> None"
    and "\<And>t a c. avail (db w) t = Some a \<Longrightarrow> capacity (db w) t = Some c \<Longrightarrow> a + items_qty t items \<le> c"
  shows "release_items items w = (Inr (), w\<lparr>db := seats.gives (pairs items) (db w)\<rparr>)"
  using assms
proof (induction items arbitrary: w)
  case (Cons it rest)
  let ?tt = "bi_TicketTypeID it" and ?q = "bi_Quantity it"
  obtain a where a: "avail (db w) ?tt = Some a" and q: "0 \<le> ?q" using Cons.prems(3) by auto
  obtain c where c: "capacity (db w) ?tt = Some c" using tickets_ok_avail [OF Cons.prems(2) a] by blast
  have rest: "0 \<le> items_qty t rest" for t using Cons.prems(3) by (intro items_qty_nonneg) auto
  have "a + ?q \<le> c" using Cons.prems(4) [OF a c] rest [of ?tt] by simp
  then obtain d1 where d1: "stmt_Release ?tt ?q (db w) = Inr (1, d1)" "tickets_ok d1"
      "avail d1 = (avail (db w))(?tt \<mapsto> a + ?q)" "capacity d1 = capacity (db w)"
    using seats.give_ok [OF Cons.prems(2) a c q] by blast
  have "release_items rest (w\<lparr>db := d1\<rparr>) = (Inr (), w\<lparr>db := d1\<rparr>\<lparr>db := seats.gives (pairs rest) (db (w\<lparr>db := d1\<rparr>))\<rparr>)"
  proof (rule Cons.IH)
    show "b + items_qty t rest \<le> e"
      if "avail (db (w\<lparr>db := d1\<rparr>)) t = Some b" "capacity (db (w\<lparr>db := d1\<rparr>)) t = Some e" for t b e
    proof (cases "t = ?tt")
      case True
      with that d1(3,4) Cons.prems(4) [OF a, of e] show ?thesis by simp
    next
      case False
      with that d1(3,4) Cons.prems(4) [of t b e] show ?thesis by simp
    qed
  qed (use Cons.prems(1,3) d1 in auto)
  with d1(1) Cons.prems(1) show ?case by (simp add: bindE_def mapErr_def run_stmt_def)
qed (simp add: retE_def)

lemma held_nonneg: "schema_ok d \<Longrightarrow> 0 \<le> held d t"
  unfolding held_def by (rule sum_list_nonneg) (auto simp: schema_ok_def booking_item_check_def less_imp_le)

lemma TransitionAndReleaseSeats_calm:
  assumes "calm w" "inventory_ok (db w)" and b: "snapshot (db w) b"
    and s: "booking_status (db w) (bk_ID b) = Some (bk_Status b)" "active_status (bk_Status b)"
    and st: "st \<in> {''expired'', ''cancelled''}" and known: "\<forall>it \<in> set (bk_Items b). avail (db w) (bi_TicketTypeID it) \<noteq> None"
  shows "\<exists>d'. booking_TransitionAndReleaseSeats b st w = (Inr True, w\<lparr>db := d'\<rparr>) \<and>
    booking_status d' = (booking_status (db w))(bk_ID b \<mapsto> st) \<and>
    (\<forall>t. avail d' t = map_option (\<lambda>a. a + items_qty t (bk_Items b)) (avail (db w) t)) \<and>
    capacity d' = capacity (db w) \<and> booking_items d' = booking_items (db w) \<and> events d' = events (db w) \<and> outbox d' = outbox (db w)"
proof -
  note ok = inventory_okD [OF assms(2)]
  obtain n d1 where t: "stmt_transition (bk_ID b) (bk_Status b) st (db w) = Inr (n, d1)" "0 < n"
      "booking_status d1 = (booking_status (db w))(bk_ID b \<mapsto> st)"
    using stmt_transition_applied [OF ok(1) s(1)] st by blast
  note f = stmt_transition_frame [OF t(1)]
  have same: "avail d1 = avail (db w)" "capacity d1 = capacity (db w)"
    by (simp_all add: fun_eq_iff avail_def capacity_def f(1))
  have ok1: "tickets_ok d1" using schema_ok_tickets [OF stmt_transition_schema [OF t(1) ok(1)]] .
  have pos: "\<forall>it \<in> set (bk_Items b). 0 \<le> bi_Quantity it"
    using b ok(1) by (auto simp: snapshot_def schema_ok_def booking_item_check_def less_imp_le)
  have n: "n \<noteq> 0" and st': "\<not> active_status st" using t(2) st by (auto simp: active_status_def)
  have act: "active_booking d1 x \<longleftrightarrow> x \<noteq> bk_ID b \<and> active_booking (db w) x" for x
    using active_booking_transition(1) [OF t(1) n ok(1)] st' by simp
  have "\<exists>r \<in> set (bookings (db w)). br_ID r = bk_ID b \<and> br_Status r = bk_Status b"
    using active_booking_transition(2) [OF t(1) n ok(1)] .
  with s(2) have act0: "active_booking (db w) (bk_ID b)" unfolding active_booking_def by metis
  have "held d1 t = held (db w) t - items_qty t (bk_Items b)" for t
    using held_drop [OF f(3) act act0] b by (simp only: snapshot_def)
  then have le: "items_qty t (bk_Items b) \<le> held (db w) t" for t
    using held_nonneg [OF stmt_transition_schema [OF t(1) ok(1)], of t] by simp
  have room: "a + items_qty t (bk_Items b) \<le> c" if av: "avail d1 t = Some a" and ca: "capacity d1 t = Some c" for t a c
  proof -
    obtain r where r: "r \<in> set (ticket_types (db w))" "tt_ID r = t" "tt_Available r = a"
      using avail_row [OF av [unfolded same(1)]] by blast
    then have "a + held (db w) t \<le> tt_Quantity r" using ok(2) by (auto simp: no_oversell_def)
    moreover have "tt_Quantity r = c"
      using capacity_tickets [OF schema_ok_tickets [OF ok(1)] _ r(1,2)] ca same by simp
    ultimately show ?thesis using le [of t] by simp
  qed
  let ?w1 = "w\<lparr>db := d1\<rparr>" and ?d2 = "seats.gives (pairs (bk_Items b)) d1"
  have "release_items (bk_Items b) ?w1 = (Inr (), ?w1\<lparr>db := seats.gives (pairs (bk_Items b)) (db ?w1)\<rparr>)"
    by (rule release_items_gives) (use assms(1) ok1 pos known same room in auto)
  then have rel: "release_items (bk_Items b) ?w1 = (Inr (), w\<lparr>db := ?d2\<rparr>)" by simp
  let ?body = "bindE (mapErr DbErr (exec (stmt_transition (bk_ID b) (bk_Status b) st))) (\<lambda>n.
        if n = 0 then retE (False, False) else bindE (release_items (bk_Items b)) (\<lambda>_. retE (True, True)))"
  have body: "?body w = (Inr (True, True), w\<lparr>db := ?d2\<rparr>)"
    using t(1,2) assms(1) rel by (simp add: bindE_def mapErr_def run_stmt_def retE_def)
  have run: "booking_TransitionAndReleaseSeats b st w = (Inr True, w\<lparr>db := ?d2\<rparr>)"
    using withTx_calm [of w ?body "Inr (True, True)" "w\<lparr>db := ?d2\<rparr>" DbErr] assms(1) body
    by (simp add: booking_TransitionAndReleaseSeats_def)
  have left: "\<forall>t. avail ?d2 t = map_option (\<lambda>a. a + items_qty t (bk_Items b)) (avail d1 t)" "capacity ?d2 = capacity d1"
    using seats.gives_left [OF ok1, of "pairs (bk_Items b)"] pos known same room by auto
  show ?thesis
    using run t(3) left same f tickets_only_frame [OF gives_only [of d1 "pairs (bk_Items b)"]]
    by (intro exI [of _ ?d2]) (auto simp: booking_status_def fun_eq_iff)
qed

lemma Expire_returns:
  assumes "calm w" "inventory_ok (db w)"
    and "find (\<lambda>x. br_ID x = i) (bookings (db w)) = Some r" "br_Status r = ''pending''"
    and "\<forall>it \<in> set (booking_items (db w)). ir_BookingID it = i \<longrightarrow> avail (db w) (ir_TicketTypeID it) \<noteq> None"
  shows "\<exists>w'. ExpireOnPaymentExpired i w = (Inr (), w') \<and>
    booking_status (db w') = (booking_status (db w))(i \<mapsto> ''expired'') \<and>
    (\<forall>t. avail (db w') t = map_option (\<lambda>a. a +
        (\<Sum>it \<leftarrow> filter (\<lambda>it. ir_BookingID it = i) (booking_items (db w)).
           if ir_TicketTypeID it = t then ir_Quantity it else 0)) (avail (db w) t))"
proof -
  obtain b where b: "loadPendingBooking i w = (Inr (Some b), w)" "snapshot (db w) b" "bk_ID b = i" "bk_Status b = ''pending''"
    using loadPendingBooking_calm [OF assms(1,3,4)] by blast
  have s: "booking_status (db w) (bk_ID b) = Some (bk_Status b)" "active_status (bk_Status b)"
    using assms(3,4) b by (simp_all add: booking_status_def active_status_def)
  have known: "\<forall>it \<in> set (bk_Items b). avail (db w) (bi_TicketTypeID it) \<noteq> None"
    using b(2,3) assms(5) by (auto simp: snapshot_def)
  obtain d' where d': "booking_TransitionAndReleaseSeats b ''expired'' w = (Inr True, w\<lparr>db := d'\<rparr>)"
      "booking_status d' = (booking_status (db w))(bk_ID b \<mapsto> ''expired'')"
      "\<forall>t. avail d' t = map_option (\<lambda>a. a + items_qty t (bk_Items b)) (avail (db w) t)"
    using TransitionAndReleaseSeats_calm [OF assms(1,2) b(2) s _ known, of "''expired''"] by blast
  have "items_qty t (bk_Items b) = (\<Sum>it \<leftarrow> filter (\<lambda>it. ir_BookingID it = i) (booking_items (db w)).
      if ir_TicketTypeID it = t then ir_Quantity it else 0)" for t
    using b(2,3) by (simp add: snapshot_def items_qty_scan)
  moreover have "ExpireOnPaymentExpired i w = (Inr (), w\<lparr>db := d'\<rparr>)"
    by (simp add: ExpireOnPaymentExpired_def releaseReservation_def bindE_def b(1) d'(1) retE_def)
  ultimately show ?thesis using d'(2,3) b(3) by simp
qed

lemma own_rows:
  "map (\<lambda>r. (ir_BookingID r, g r)) rows = map (\<lambda>it. (i, h it)) items \<Longrightarrow> filter (\<lambda>r. ir_BookingID r = i) rows = rows"
  by (induction rows items rule: list_induct2') auto

lemma rows_qty:
  "map (\<lambda>r. (ir_BookingID r, ir_TicketTypeID r, ir_Quantity r, g r)) rows =
   map (\<lambda>it. (i, bi_TicketTypeID it, bi_Quantity it, h it)) items \<Longrightarrow>
   (\<Sum>r \<leftarrow> rows. if ir_TicketTypeID r = t then ir_Quantity r else 0) = items_qty t items"
  by (induction rows items rule: list_induct2') auto

lemma rows_member:
  "map (\<lambda>r. (ir_BookingID r, ir_TicketTypeID r, g r)) rows = map (\<lambda>it. (i, bi_TicketTypeID it, h it)) items \<Longrightarrow>
   r \<in> set rows \<Longrightarrow> \<exists>it \<in> set items. bi_TicketTypeID it = ir_TicketTypeID r"
  by (induction rows items rule: list_induct2') auto

text \<open>
  When the payment of a pending booking expires, the booking becomes expired and
  every ticket type gets back exactly the seats of its items, no more and no fewer.
\<close>

theorem Expire_returns_seats:
  assumes "calm w" "inventory_ok (db w)"
    and "find (\<lambda>x. br_ID x = i) (bookings (db w)) = Some r" "br_Status r = ''pending''"
    and "\<forall>it \<in> set (booking_items (db w)). ir_BookingID it = i \<longrightarrow> avail (db w) (ir_TicketTypeID it) \<noteq> None"
  shows "\<exists>w'. ExpireOnPaymentExpired i w = (Inr (), w') \<and>
    booking_status (db w') = (booking_status (db w))(i \<mapsto> ''expired'') \<and>
    (\<forall>t. avail (db w') t = map_option (\<lambda>a. a +
        (\<Sum>it \<leftarrow> filter (\<lambda>it. ir_BookingID it = i) (booking_items (db w)).
           if ir_TicketTypeID it = t then ir_Quantity it else 0)) (avail (db w) t))"
  using assms by (rule Expire_returns)

text \<open>How the tables hold a booking that was just reserved.\<close>

lemma reserved_booking:
  assumes "Reserve ttl pay userID email ev items w = (Inr res, w1)" "inventory_ok (db w)"
  obtains r where "find (\<lambda>x. br_ID x = rs_BookingID res) (bookings (db w1)) = Some r" "br_Status r = ''pending''"
    "\<forall>t. (\<Sum>it \<leftarrow> filter (\<lambda>it. ir_BookingID it = rs_BookingID res) (booking_items (db w1)).
        if ir_TicketTypeID it = t then ir_Quantity it else 0) = items_qty t items"
    "\<forall>it \<in> set (booking_items (db w1)). ir_BookingID it = rs_BookingID res \<longrightarrow> avail (db w1) (ir_TicketTypeID it) \<noteq> None"
proof -
  note ok = inventory_okD(1) [OF assms(2)]
  note eff = Reserve_effect [OF assms(1) ok]
  have inv1: "inventory_ok (db w1)" by (rule Reserve_success_inventory [OF assms(1,2)])
  let ?i = "rs_BookingID res"
  obtain now where bk: "bookings (db w1) = bookings (db w) @
      [\<lparr>br_ID = ?i, br_UserID = userID, br_EventID = ev, br_Status = ''pending'',
        br_ExpiresAt = Some (rs_ExpiresAt res), br_CreatedAt = now\<rparr>]" using eff(4) by blast
  have new: "?i \<notin> br_ID ` set (bookings (db w))"
    using inventory_okD(1) [OF inv1] bk by (simp add: schema_ok_def)
  obtain rows where rows: "booking_items (db w1) = booking_items (db w) @ rows"
      "map (\<lambda>r. (ir_BookingID r, ir_TicketTypeID r, ir_Quantity r, ir_TotalPriceRupiah r)) rows =
       map (\<lambda>it. (?i, bi_TicketTypeID it, bi_Quantity it, wrap64 (bi_UnitPriceRupiah it * bi_Quantity it))) items"
    using eff(5) by blast
  have old: "ir_BookingID it \<noteq> ?i" if "it \<in> set (booking_items (db w))" for it
    using ok new that unfolding schema_ok_def by metis
  have own: "filter (\<lambda>it. ir_BookingID it = ?i) (booking_items (db w1)) = rows"
    using rows own_rows [OF rows(2)] old by (simp add: filter_empty_conv)
  have sum: "(\<Sum>it \<leftarrow> rows. if ir_TicketTypeID it = t then ir_Quantity it else 0) = items_qty t items" for t
    by (rule rows_qty [OF rows(2)])
  have "find (\<lambda>x. br_ID x = ?i) (bookings (db w)) = None" using new by (force simp: find_None_iff)
  then have f: "find (\<lambda>x. br_ID x = ?i) (bookings (db w1)) =
      Some \<lparr>br_ID = ?i, br_UserID = userID, br_EventID = ev, br_Status = ''pending'',
        br_ExpiresAt = Some (rs_ExpiresAt res), br_CreatedAt = now\<rparr>"
    by (simp add: bk find_append)
  have known: "\<forall>it \<in> set (booking_items (db w1)). ir_BookingID it = ?i \<longrightarrow> avail (db w1) (ir_TicketTypeID it) \<noteq> None"
  proof (intro ballI impI)
    fix r assume "r \<in> set (booking_items (db w1))" "ir_BookingID r = ?i"
    then have "r \<in> set rows" using own by auto
    then obtain it where "it \<in> set items" "bi_TicketTypeID it = ir_TicketTypeID r"
      using rows_member [OF rows(2)] by blast
    then show "avail (db w1) (ir_TicketTypeID r) \<noteq> None"
      using eff(1,2) by (auto simp: price_def avail_def)
  qed
  show thesis by (rule that [OF f _ _ known]) (simp_all add: own sum)
qed

text \<open>
  Property C23: reserving and then letting the payment expire is a round trip: the available seats
  of every ticket type are what they were before the reservation.
\<close>

theorem Reserve_Expire_round_trip:
  assumes "Reserve ttl pay userID email ev items w = (Inr res, w1)" "inventory_ok (db w)" "calm w1"
  shows "\<exists>w2. ExpireOnPaymentExpired (rs_BookingID res) w1 = (Inr (), w2) \<and> avail (db w2) = avail (db w) \<and>
    booking_status (db w2) (rs_BookingID res) = Some ''expired''"
proof -
  note eff = Reserve_effect [OF assms(1) inventory_okD(1) [OF assms(2)]]
  obtain r where r: "find (\<lambda>x. br_ID x = rs_BookingID res) (bookings (db w1)) = Some r" "br_Status r = ''pending''"
    "\<forall>t. (\<Sum>it \<leftarrow> filter (\<lambda>it. ir_BookingID it = rs_BookingID res) (booking_items (db w1)).
        if ir_TicketTypeID it = t then ir_Quantity it else 0) = items_qty t items"
    "\<forall>it \<in> set (booking_items (db w1)). ir_BookingID it = rs_BookingID res \<longrightarrow> avail (db w1) (ir_TicketTypeID it) \<noteq> None"
    using assms(1,2) by (rule reserved_booking)
  from Expire_returns [OF assms(3) Reserve_success_inventory [OF assms(1,2)] r(1,2,4)]
  obtain w2 where w2: "ExpireOnPaymentExpired (rs_BookingID res) w1 = (Inr (), w2)"
    "booking_status (db w2) = (booking_status (db w1))(rs_BookingID res \<mapsto> ''expired'')"
    "\<forall>t. avail (db w2) t = map_option (\<lambda>a. a + items_qty t items) (avail (db w1) t)"
    using r(3) by auto
  have "avail (db w2) t = avail (db w) t" for t
    using w2(3) eff(1) by (simp add: option.map_comp comp_def option.map_ident)
  then have "avail (db w2) = avail (db w)" ..
  with w2 show ?thesis by simp
qed

section \<open>Cancelling the bookings of an event\<close>

lemma load_each_calm:
  "calm w \<Longrightarrow> load_each (map row_to_booking rs) w =
     (Inr (map (\<lambda>r. add_items (filter (\<lambda>it. ir_BookingID it = br_ID r) (booking_items (db w))) (row_to_booking r)) rs), w)"
  by (induction rs) (simp_all add: loadItems_def bindE_def mapErr_def run_stmt_def retE_def row_to_booking_def)

lemma list_bookings_calm:
  "calm w \<Longrightarrow> list_bookings P w =
     (Inr (map (\<lambda>r. add_items (filter (\<lambda>it. ir_BookingID it = br_ID r) (booking_items (db w))) (row_to_booking r))
             (order_desc br_CreatedAt (filter P (bookings (db w))))), w)"
  by (simp add: list_bookings_def bindE_def mapErr_def run_stmt_def load_each_calm)

lemma TransitionAndReleaseSeats_calm_inventory:
  assumes "calm w" "inventory_ok (db w)" "snapshot (db w) b" "active_status (bk_Status b)" "\<not> active_status st"
    and "booking_TransitionAndReleaseSeats b st w = (r, w')"
  shows "inventory_ok (db w')"
  using hoare_same [OF TransitionAndReleaseSeats_triple [OF assms(4,5)] _ assms(6), of "booking_items (db w)"] assms(2,3)
  by blast

text \<open>Copies that still agree with the database, one per booking.\<close>

definition current :: "ticketing_db \<Rightarrow> Booking list \<Rightarrow> bool" where
  "current d bs \<longleftrightarrow> distinct (map bk_ID bs) \<and>
     (\<forall>b \<in> set bs. snapshot d b \<and> booking_status d (bk_ID b) = Some (bk_Status b) \<and>
        (\<forall>it \<in> set (bk_Items b). avail d (bi_TicketTypeID it) \<noteq> None))"

lemma cancel_each_calm:
  assumes "calm w" "inventory_ok (db w)" "current (db w) bs"
  shows "\<exists>d'. cancel_each bs w = (Inr (), w\<lparr>db := d'\<rparr>) \<and>
    booking_status d' = (\<lambda>i. if \<exists>b \<in> set bs. bk_ID b = i \<and> active_status (bk_Status b)
                             then Some ''cancelled'' else booking_status (db w) i) \<and>
    booking_items d' = booking_items (db w) \<and>
    (\<forall>t. avail d' t = map_option (\<lambda>a. a + (\<Sum>b \<leftarrow> filter (\<lambda>b. active_status (bk_Status b)) bs. items_qty t (bk_Items b))) (avail (db w) t))"
  using assms
proof (induction bs arbitrary: w)
  case Nil
  then show ?case by (intro exI [of _ "db w"]) (simp add: retE_def option.map_ident)
next
  case (Cons b bs)
  show ?case
  proof (cases "active_status (bk_Status b)")
    case False
    have "current (db w) bs" using Cons.prems(3) by (simp add: current_def)
    from Cons.IH [OF Cons.prems(1,2) this] False show ?thesis by (auto simp: active_status_def)
  next
    case True
    have b: "snapshot (db w) b" "booking_status (db w) (bk_ID b) = Some (bk_Status b)"
      "\<forall>it \<in> set (bk_Items b). avail (db w) (bi_TicketTypeID it) \<noteq> None"
      using Cons.prems(3) by (simp_all add: current_def)
    obtain d1 where d1: "booking_TransitionAndReleaseSeats b ''cancelled'' w = (Inr True, w\<lparr>db := d1\<rparr>)"
      "booking_status d1 = (booking_status (db w))(bk_ID b \<mapsto> ''cancelled'')"
      "\<forall>t. avail d1 t = map_option (\<lambda>a. a + items_qty t (bk_Items b)) (avail (db w) t)"
      "booking_items d1 = booking_items (db w)"
      using TransitionAndReleaseSeats_calm [OF Cons.prems(1,2) b(1,2) True _ b(3), of "''cancelled''"] by blast
    have inv: "inventory_ok (db (w\<lparr>db := d1\<rparr>))"
      by (rule TransitionAndReleaseSeats_calm_inventory [OF Cons.prems(1,2) b(1) True _ d1(1)])
        (simp add: active_status_def)
    have "current (db (w\<lparr>db := d1\<rparr>)) bs"
      unfolding current_def
    proof (intro conjI ballI)
      fix x assume x: "x \<in> set bs"
      then have "bk_ID x \<in> bk_ID ` set bs" by simp
      moreover have "bk_ID b \<notin> bk_ID ` set bs" using Cons.prems(3) by (simp add: current_def)
      ultimately have "bk_ID x \<noteq> bk_ID b" by metis
      with x Cons.prems(3) d1(2-4) show "snapshot (db (w\<lparr>db := d1\<rparr>)) x"
        "booking_status (db (w\<lparr>db := d1\<rparr>)) (bk_ID x) = Some (bk_Status x)"
        "\<And>it. it \<in> set (bk_Items x) \<Longrightarrow> avail (db (w\<lparr>db := d1\<rparr>)) (bi_TicketTypeID it) \<noteq> None"
        by (auto simp: current_def snapshot_def)
    qed (use Cons.prems(3) in \<open>simp add: current_def\<close>)
    moreover have "calm (w\<lparr>db := d1\<rparr>)" using Cons.prems(1) by simp
    ultimately obtain d' where "cancel_each bs (w\<lparr>db := d1\<rparr>) = (Inr (), w\<lparr>db := d1\<rparr>\<lparr>db := d'\<rparr>)"
      "booking_status d' = (\<lambda>i. if \<exists>b \<in> set bs. bk_ID b = i \<and> active_status (bk_Status b)
         then Some ''cancelled'' else booking_status (db (w\<lparr>db := d1\<rparr>)) i)" "booking_items d' = booking_items d1"
      "\<forall>t. avail d' t = map_option (\<lambda>a. a + (\<Sum>b \<leftarrow> filter (\<lambda>b. active_status (bk_Status b)) bs. items_qty t (bk_Items b))) (avail d1 t)"
      using Cons.IH [of "w\<lparr>db := d1\<rparr>"] inv by fastforce
    then have d': "cancel_each bs (w\<lparr>db := d1\<rparr>) = (Inr (), w\<lparr>db := d'\<rparr>)"
      "booking_status d' = (\<lambda>i. if \<exists>b \<in> set bs. bk_ID b = i \<and> active_status (bk_Status b)
         then Some ''cancelled'' else booking_status d1 i)" "booking_items d' = booking_items (db w)"
      "avail d' t = map_option (\<lambda>a. a + (items_qty t (bk_Items b) + (\<Sum>b \<leftarrow> filter (\<lambda>b. active_status (bk_Status b)) bs. items_qty t (bk_Items b))))
         (avail (db w) t)" for t
      using d1(3,4) by (simp_all add: option.map_comp comp_def add.assoc cong: if_cong)
    have "cancel_each (b # bs) w = (Inr (), w\<lparr>db := d'\<rparr>)"
      using True d1(1) d'(1) by (auto simp: active_status_def bindE_def)
    with d'(2-4) d1(2) True show ?thesis by (intro exI [of _ d']) (auto simp: fun_eq_iff)
  qed
qed

lemma distinct_order_desc: "distinct (map f (order_desc k (filter P rs))) \<longleftrightarrow> distinct (map f (filter P rs))"
proof -
  have "mset (map f (order_desc k (filter P rs))) = mset (map f (filter P rs))" by (simp add: order_desc_def)
  then show ?thesis by (metis mset_eq_imp_distinct_iff)
qed

lemma CancelBookings_calm:
  assumes "calm w" "inventory_ok (db w)"
    and "\<forall>it \<in> set (booking_items (db w)). avail (db w) (ir_TicketTypeID it) \<noteq> None"
  shows "\<exists>w' rs. CancelBookings eventID w = (Inr (), w') \<and> calm w' \<and> booking_items (db w') = booking_items (db w) \<and>
    booking_status (db w') = (\<lambda>i. if \<exists>r \<in> set (bookings (db w)). br_ID r = i \<and> br_EventID r = eventID \<and>
        br_Status r \<in> {''pending'', ''confirmed''} then Some ''cancelled'' else booking_status (db w) i) \<and>
    mset rs = mset (filter (\<lambda>r. br_EventID r = eventID \<and> active_status (br_Status r)) (bookings (db w))) \<and>
    (\<forall>t. avail (db w') t = map_option (\<lambda>a. a + (\<Sum>r \<leftarrow> rs. \<Sum>it \<leftarrow> filter (\<lambda>it. ir_BookingID it = br_ID r) (booking_items (db w)).
        if ir_TicketTypeID it = t then ir_Quantity it else 0)) (avail (db w) t))"
proof -
  note ok = inventory_okD(1) [OF assms(2)]
  let ?rs = "order_desc br_CreatedAt (filter (\<lambda>b. br_EventID b = eventID) (bookings (db w)))"
  let ?bk = "\<lambda>r. add_items (filter (\<lambda>it. ir_BookingID it = br_ID r) (booking_items (db w))) (row_to_booking r)"
  have id: "bk_ID (?bk r) = br_ID r" "bk_Status (?bk r) = br_Status r" for r
    by (simp_all add: add_items_props row_to_booking_def)
  have "distinct (map br_ID ?rs)"
    using ok by (simp add: distinct_order_desc schema_ok_def distinct_map_filter)
  moreover have "booking_status (db w) (br_ID r) = Some (br_Status r)" if "r \<in> set (bookings (db w))" for r
    using distinct_map_find [of br_ID "bookings (db w)" r] ok that by (simp add: booking_status_def schema_ok_def)
  ultimately have cur: "current (db w) (map ?bk ?rs)"
    using assms(3) by (auto simp: current_def snapshot_def comp_def id) (auto simp: add_items_props row_to_booking_def)
  obtain d' where d': "cancel_each (map ?bk ?rs) w = (Inr (), w\<lparr>db := d'\<rparr>)"
    "booking_status d' = (\<lambda>i. if \<exists>b \<in> set (map ?bk ?rs). bk_ID b = i \<and> active_status (bk_Status b)
       then Some ''cancelled'' else booking_status (db w) i)" "booking_items d' = booking_items (db w)"
    "\<forall>t. avail d' t = map_option (\<lambda>a. a + (\<Sum>b \<leftarrow> filter (\<lambda>b. active_status (bk_Status b)) (map ?bk ?rs). items_qty t (bk_Items b))) (avail (db w) t)"
    using cancel_each_calm [OF assms(1,2) cur] by blast
  have qty: "items_qty t (bk_Items (?bk r)) = (\<Sum>it \<leftarrow> filter (\<lambda>it. ir_BookingID it = br_ID r) (booking_items (db w)).
      if ir_TicketTypeID it = t then ir_Quantity it else 0)" for t r
    by (simp add: add_items_props row_to_booking_def items_qty_scan)
  show ?thesis
  proof (intro exI [of _ "w\<lparr>db := d'\<rparr>"] exI [of _ "filter (\<lambda>r. active_status (br_Status r)) ?rs"] conjI allI)
    show "CancelBookings eventID w = (Inr (), w\<lparr>db := d'\<rparr>)"
      using assms(1) d'(1) by (simp add: CancelBookings_def booking_ListByEventID_def bindE_def list_bookings_calm)
    show "avail (db (w\<lparr>db := d'\<rparr>)) t = map_option (\<lambda>a. a + (\<Sum>r \<leftarrow> filter (\<lambda>r. active_status (br_Status r)) ?rs.
        \<Sum>it \<leftarrow> filter (\<lambda>it. ir_BookingID it = br_ID r) (booking_items (db w)). if ir_TicketTypeID it = t then ir_Quantity it else 0)) (avail (db w) t)" for t
      using d'(4) by (simp add: filter_map comp_def id qty)
    show "mset (filter (\<lambda>r. active_status (br_Status r)) ?rs) = mset (filter (\<lambda>r. br_EventID r = eventID \<and> active_status (br_Status r)) (bookings (db w)))"
      by (simp add: order_desc_def mset_filter conj_commute filter_filter_mset)
  qed (use assms(1) d'(2,3) in \<open>auto simp: id active_status_def fun_eq_iff\<close>)
qed

text \<open>
  When an event is cancelled, every pending or confirmed booking of it becomes
  cancelled and no other booking changes.
\<close>

theorem CancelBookings_cancels_all:
  assumes "calm w" "inventory_ok (db w)"
    and "\<forall>it \<in> set (booking_items (db w)). avail (db w) (ir_TicketTypeID it) \<noteq> None"
  shows "\<exists>w'. CancelBookings eventID w = (Inr (), w') \<and>
    booking_status (db w') = (\<lambda>i. if \<exists>r \<in> set (bookings (db w)). br_ID r = i \<and> br_EventID r = eventID \<and>
        br_Status r \<in> {''pending'', ''confirmed''} then Some ''cancelled'' else booking_status (db w) i)"
  using CancelBookings_calm [OF assms, of eventID] by blast

section \<open>Paths on which seats and bookings part\<close>

lemma stmt_Release_tickets:
  "ticket_types d1 = ticket_types d2 \<Longrightarrow>
   map_sum id (ticket_types \<circ> snd) (stmt_Release i q d1) = map_sum id (ticket_types \<circ> snd) (stmt_Release i q d2)"
  by (auto simp: stmt_Release_def update_tickets_def)

lemma gives_tickets:
  "ticket_types d1 = ticket_types d2 \<Longrightarrow>
   ticket_types (seats.gives xs d1) = ticket_types (seats.gives xs d2)"
proof (induction xs arbitrary: d1 d2)
  case (Cons x xs)
  obtain i q where x: "x = (i, q)" by (cases x)
  have "ticket_types (case stmt_Release i q d1 of Inl _ \<Rightarrow> d1 | Inr (_, d') \<Rightarrow> d') =
      ticket_types (case stmt_Release i q d2 of Inl _ \<Rightarrow> d2 | Inr (_, d') \<Rightarrow> d')"
    using stmt_Release_tickets [OF Cons.prems, of i q] Cons.prems
    by (cases "stmt_Release i q d1"; cases "stmt_Release i q d2") (simp_all add: case_prod_unfold)
  from Cons.IH [OF this] show ?case by (simp add: x)
qed simp

lemma booking_status_fresh: "i \<notin> br_ID ` set (bookings d) \<Longrightarrow> booking_status d i = None"
  by (force simp: booking_status_def find_None_iff)

lemma booking_status_new:
  fixes r :: booking_row and d d' :: ticketing_db
  assumes "br_ID r \<notin> br_ID ` set (bookings d)" "bookings d' = bookings d @ [r]"
  shows "booking_status d' (br_ID r) = Some (br_Status r)"
  using booking_status_fresh [OF assms(1)] by (simp add: booking_status_def assms(2) find_append)

text \<open>Seats that are given back beside a booking that still holds them.\<close>

lemma gives_beside_booking:
  assumes "schema_ok d" "br_ID r \<notin> br_ID ` set (bookings d)" "active_status (br_Status r)" "\<forall>it \<in> set its. bi_BookingID it = br_ID r"
    and "d' = d\<lparr>bookings := bookings d @ [r], booking_items := booking_items d @ map item_row its\<rparr>"
  shows "booking_status (seats.gives ps d') (br_ID r) = Some (br_Status r)"
    and "held (seats.gives ps d') t = held d t + items_qty t its"
    and "avail (seats.gives ps d') = avail (seats.gives ps d)"
proof -
  have f: "bookings (seats.gives ps d') = bookings d'" "booking_items (seats.gives ps d') = booking_items d'"
    using tickets_only_frame [OF gives_only] by blast+
  show "booking_status (seats.gives ps d') (br_ID r) = Some (br_Status r)"
    by (rule booking_status_new [OF assms(2)]) (simp only: f(1), simp add: assms(5))
  have "held (seats.gives ps d') t = held d' t" by (rule held_same) (simp_all add: f active_booking_def)
  with held_new_booking [OF assms(1-4)] show "held (seats.gives ps d') t = held d t + items_qty t its" by (simp add: assms(5))
  have "ticket_types (seats.gives ps d') = ticket_types (seats.gives ps d)" by (rule gives_tickets) (simp add: assms(5))
  then show "avail (seats.gives ps d') = avail (seats.gives ps d)" by (simp add: avail_def fun_eq_iff)
qed

text \<open>
  Property C39: when the payment service refuses a booking, the reservation reports the error and
  gives the seats back, but the booking stays: deleting it is refused by the foreign key of its
  items and the error is dropped. Its seats count as held and as available at the same time.
\<close>

theorem Reserve_payment_failure_keeps_booking:
  assumes "servable w ev items" "\<And>i tot ex. pay i ev userID email tot ex = Some err"
  shows "\<exists>i w'. Reserve ttl pay userID email ev items w = (Inl err, w') \<and>
    booking_status (db w') i = Some ''pending'' \<and> booking_status (db w) i = None \<and>
    avail (db w') = avail (db w) \<and> (\<forall>t. held (db w') t = held (db w) t + items_qty t items)"
proof -
  have sv: "calm w" "schema_ok (db w)" "items \<noteq> []" and pos: "\<forall>(j, q) \<in> set (pairs items). 0 \<le> q"
    using assms(1) by (auto simp: servable_def)
  from assms(1) obtain w1 rs w2 w3 i n where l: "reserve_loop ev items items w = (Inr (), w1)"
    and c: "booking_Create (booking_of rs) w2 = (Inr (), w3)" "calm w3"
    and rs: "db w2 = db w1" "rs_BookingID rs = i" "rs_Items rs = stamped i (uuid_src w) n items" "rs_Status rs = ''pending''"
    and run: "Reserve ttl pay userID email ev items w =
       (case pay i ev userID email (rs_TotalRupiah rs) (rs_ExpiresAt rs) of
          None \<Rightarrow> (Inr rs, w3)
        | Some e \<Rightarrow> (Inl e, snd (rollbackSeats ev (rs_Items rs) (snd (booking_Delete i w3)))))"
    by (rule Reserve_until_payment)
  note g = reserve_loop_grabs [OF l sv(2)]
  then have "schema_ok (db w2)" using rs(1) by simp
  from booking_Create_Inr [OF c(1) this] rs obtain now where d3:
    "db w3 = (db w1)\<lparr>bookings := bookings (db w1) @ [head_row (booking_of rs) now],
                     booking_items := booking_items (db w1) @ map item_row (stamped i (uuid_src w) n items)\<rparr>"
    and fresh: "i \<notin> br_ID ` set (bookings (db w1))"
    by (auto simp: booking_of_def)
  have row: "br_ID (head_row (booking_of rs) now) = i" "br_Status (head_row (booking_of rs) now) = ''pending''"
    using rs by (simp_all add: head_row_def booking_of_def)
  obtain x xs where x: "stamped i (uuid_src w) n items = x # xs" "bi_BookingID x = i"
    using sv(3) stamped_booking [of i "uuid_src w" n items] by (cases items) auto
  have "stmt_delete_booking i (db w3) = Inl ForeignKeyViolation"
    by (rule stmt_delete_booking_refused [OF _ row]) (auto simp: d3 x(1) item_row_def x(2))
  then have del: "snd (booking_Delete i w3) = w3"
    using c(2) by (simp add: booking_Delete_def mapErr_def run_stmt_def)
  let ?d = "seats.gives (pairs items) (db w3)"
  have "Reserve ttl pay userID email ev items w = (Inl err, w3\<lparr>db := ?d\<rparr>)"
    using run assms(2) by (simp add: del rollbackSeats_calm [OF c(2)] rs(3))
  moreover note beside = gives_beside_booking [OF conjunct1 [OF conjunct2 [OF g]] _ _ _ d3, unfolded row, OF fresh _ stamped_booking]
  have "booking_status (db w) i = None"
    using booking_status_fresh [of i "db w"] tickets_only_frame [of "db w" "db w1"] g fresh by simp
  moreover have "avail ?d = avail (db w)"
    using beside(3) seats.grabs_gives [OF schema_ok_tickets [OF sv(2)] pos, of "db w1"] g by (simp add: active_status_def)
  moreover have "held (db w1) t = held (db w) t" for t
    using g by (intro held_same) (auto simp: shifted_def active_booking_def)
  ultimately show ?thesis
    using beside(1,2) by (intro exI [of _ i] exI [of _ "w3\<lparr>db := ?d\<rparr>"]) (simp add: active_status_def)
qed

text \<open>
  Property C40: a price mismatch on an item behind the first aborts the reservation without giving
  back the seats already taken: no booking holds them and no counter offers them.
\<close>

theorem Reserve_price_mismatch_leaks:
  assumes "calm w" "schema_ok (db w)" "0 < bi_Quantity a" "price (db w) (bi_TicketTypeID a) = Some (bi_UnitPriceRupiah a)"
    and "avail (db w) (bi_TicketTypeID a) = Some n" "bi_Quantity a \<le> n"
    and "price (db w) (bi_TicketTypeID b) = Some p" "p \<noteq> bi_UnitPriceRupiah b"
  shows "\<exists>w'. Reserve ttl pay userID email ev (a # b # rest) w = (Inl (ErrPriceMismatch p (bi_UnitPriceRupiah b)), w') \<and>
    avail (db w') = (avail (db w))(bi_TicketTypeID a \<mapsto> n - bi_Quantity a) \<and>
    bookings (db w') = bookings (db w) \<and> booking_items (db w') = booking_items (db w)"
proof -
  obtain d' where d': "stmt_Reserve (bi_TicketTypeID a) (bi_Quantity a) (db w) = Inr (1, d')"
      "avail d' = (avail (db w))(bi_TicketTypeID a \<mapsto> n - bi_Quantity a)"
    using stmt_Reserve_ok [OF schema_ok_tickets [OF assms(2)] assms(5) less_imp_le [OF assms(3)] assms(6)] by blast
  have "Reserve ttl pay userID email ev (a # b # rest) w =
      (Inl (ErrPriceMismatch p (bi_UnitPriceRupiah b)), w\<lparr>db := d'\<rparr>)"
    using assms(1,4,7,8) d'(1) stmt_Reserve_price [OF d'(1)]
    by (simp add: Reserve_def bindE_def handleE_def seat_GetPrice_calm seat_Reserve_calm failE_def)
  with d'(2) tickets_only_frame [OF stmt_Reserve_only [OF d'(1)]] show ?thesis by simp
qed

text \<open>
  When one request names a ticket type twice and the second item finds too few seats,
  the rollback loop stops at the first item, which has the same ticket type, and the seats of the
  first item are lost.
\<close>

theorem Reserve_duplicate_type_leaks:
  assumes "calm w" "schema_ok (db w)" "0 < bi_Quantity a" "price (db w) (bi_TicketTypeID a) = Some (bi_UnitPriceRupiah a)"
    and "avail (db w) (bi_TicketTypeID a) = Some n" "bi_Quantity a \<le> n"
    and "bi_TicketTypeID b = bi_TicketTypeID a" "bi_UnitPriceRupiah b = bi_UnitPriceRupiah a"
    and "n < bi_Quantity a + bi_Quantity b" "int4_ok (bi_Quantity b)"
  shows "\<exists>w'. Reserve ttl pay userID email ev (a # b # rest) w = (Inl ErrNoSeatsAvailable, w') \<and>
    avail (db w') = (avail (db w))(bi_TicketTypeID a \<mapsto> n - bi_Quantity a) \<and>
    bookings (db w') = bookings (db w) \<and> booking_items (db w') = booking_items (db w)"
proof -
  obtain d' where d': "stmt_Reserve (bi_TicketTypeID a) (bi_Quantity a) (db w) = Inr (1, d')" "tickets_ok d'"
      "avail d' = (avail (db w))(bi_TicketTypeID a \<mapsto> n - bi_Quantity a)"
    using stmt_Reserve_ok [OF schema_ok_tickets [OF assms(2)] assms(5) less_imp_le [OF assms(3)] assms(6)] by blast
  have "stmt_Reserve (bi_TicketTypeID a) (bi_Quantity b) d' = Inr (0, d')"
    by (rule stmt_Reserve_short [OF d'(2)]) (use d'(3) assms(9,10) in auto)
  then have "Reserve ttl pay userID email ev (a # b # rest) w = (Inl ErrNoSeatsAvailable, w\<lparr>db := d'\<rparr>)"
    using assms(1,4,7,8) d'(1) stmt_Reserve_price [OF d'(1)]
    by (simp add: Reserve_def bindE_def handleE_def seat_GetPrice_calm seat_Reserve_calm failE_def retE_def)
  with d'(3) tickets_only_frame [OF stmt_Reserve_only [OF d'(1)]] show ?thesis by simp
qed

end
