(* ===== verification/Payment_Store.thy ===== *)
theory Payment_Store
  imports Outbox Guarded_Status
begin

text \<open>
  The data of the payment service and its repositories: the structs of
  \<^verbatim>\<open>service/payment/internal/domain\<close>, the tables of \<^verbatim>\<open>migrations/payment\<close> and the statements
  of \<^verbatim>\<open>postgres/transaction_repo.go\<close> and \<^verbatim>\<open>postgres/refund_repo.go\<close>.
\<close>

section \<open>Structs and errors\<close>

datatype payment_error =
    ErrTransactionNotFound
  | ErrAlreadyProcessed
  | ErrTransactionExpired
  | ErrUnsupportedChannel
  | ErrGatewayUnavailable string
  | ErrInvalidPayload
  | ErrMissingReference
  | PayErr db_error

record Transaction =
  tx_ID :: string
  tx_UserID :: string
  tx_BookingID :: string
  tx_EventID :: string
  tx_AmountRupiah :: int
  tx_Currency :: string
  tx_Status :: string
  tx_Provider :: string
  tx_ProviderRef :: string
  tx_PaymentLinkURL :: string
  tx_CustomerEmail :: string
  tx_RefundStatus :: string
  tx_ExpiresAt :: "time option"
  tx_CreatedAt :: time
  tx_UpdatedAt :: time

abbreviation StatusInitiated :: string where "StatusInitiated \<equiv> ''initiated''"
abbreviation StatusPending :: string where "StatusPending \<equiv> ''pending''"
abbreviation StatusCompleted :: string where "StatusCompleted \<equiv> ''completed''"
abbreviation StatusExpired :: string where "StatusExpired \<equiv> ''expired''"

definition GatewayExpiredReason :: string where
  "GatewayExpiredReason = ''gateway_expired''"

definition ActiveStatuses :: "string list" where
  "ActiveStatuses = [StatusInitiated, StatusPending]"

record RefundRequest =
  rf_ID :: string
  rf_EventID :: string
  rf_BookingID :: string
  rf_TransactionID :: string
  rf_CustomerEmail :: string
  rf_AmountRupiah :: int
  rf_Currency :: string
  rf_Status :: string
  rf_Reason :: string
  rf_ProviderRef :: string
  rf_IdempotencyKey :: string
  rf_CreatedAt :: time
  rf_UpdatedAt :: time
  rf_ProcessedAt :: "time option"

definition RefundPending :: string where
  "RefundPending = ''pending''"

record SessionResult =
  sr_ProviderRef :: string
  sr_PaymentLinkURL :: string
  sr_ExpiresAt :: time

text \<open>
  The calls made to the payment gateway are recorded beside the tables, so that properties can
  speak about them; no statement reads the record.
\<close>

datatype gateway_call =
    CreateCall string int string time "string list" string
  | CancelCall string

record payment_db = outbox_db +
  transactions :: "Transaction list"
  refund_requests :: "RefundRequest list"
  gateway_calls :: "gateway_call list"

type_synonym 'a payment_op = "(payment_error, payment_db, 'a) op"

section \<open>Constraints of the schema\<close>

definition txn_check :: "Transaction \<Rightarrow> bool" where
  "txn_check t \<longleftrightarrow>
     0 \<le> tx_AmountRupiah t \<and> tx_Status t \<in> {''initiated'', ''pending'', ''completed'', ''expired''} \<and>
     tx_RefundStatus t \<in> {''none'', ''pending'', ''success''}"

definition refund_check :: "RefundRequest \<Rightarrow> bool" where
  "refund_check r \<longleftrightarrow>
     0 \<le> rf_AmountRupiah r \<and> rf_Status r \<in> {''pending'', ''processing'', ''succeeded'', ''failed''}"

definition pay_schema :: "payment_db \<Rightarrow> bool" where
  "pay_schema d \<longleftrightarrow>
     distinct (map tx_ID (transactions d)) \<and> distinct (map tx_BookingID (transactions d)) \<and>
     (\<forall>t \<in> set (transactions d). txn_check t) \<and>
     distinct (map rf_ID (refund_requests d)) \<and> distinct (map rf_IdempotencyKey (refund_requests d)) \<and>
     (\<forall>r \<in> set (refund_requests d). refund_check r) \<and>
     (\<forall>r \<in> set (refund_requests d). rf_TransactionID r \<in> tx_ID ` set (transactions d))"

section \<open>Statements\<close>

definition stmt_insert_txn :: "Transaction \<Rightarrow> time \<Rightarrow> (payment_db, unit) stmt" where
  "stmt_insert_txn txn now d =
     (let row = txn\<lparr>tx_CreatedAt := now, tx_UpdatedAt := now\<rparr>
      in if \<not> int8_ok (tx_AmountRupiah txn) then Inl OutOfRange
         else if \<not> txn_check row then Inl CheckViolation
         else if tx_ID txn \<in> tx_ID ` set (transactions d) \<or> tx_BookingID txn \<in> tx_BookingID ` set (transactions d)
              then Inl UniqueViolation
         else Inr ((), d\<lparr>transactions := transactions d @ [row]\<rparr>))"

definition stmt_update_txn ::
    "(Transaction \<Rightarrow> bool) \<Rightarrow> (Transaction \<Rightarrow> Transaction) \<Rightarrow> (payment_db, nat) stmt" where
  "stmt_update_txn P f d =
     (if \<exists>t \<in> set (transactions d). P t \<and> \<not> txn_check (f t) then Inl CheckViolation
      else Inr (count_where P (transactions d), d\<lparr>transactions := update_where P f (transactions d)\<rparr>))"

definition stmt_settle :: "(string \<Rightarrow> bool) \<Rightarrow> string \<Rightarrow> string \<Rightarrow> string \<Rightarrow> time \<Rightarrow> (payment_db, nat) stmt" where
  "stmt_settle guard i status providerRef now =
     stmt_update_txn (\<lambda>t. tx_ID t = i \<and> guard (tx_Status t))
       (\<lambda>t. t\<lparr>tx_Status := status, tx_ProviderRef := providerRef, tx_UpdatedAt := now\<rparr>)"

text \<open>\<^verbatim>\<open>ON CONFLICT (idempotency_key) DO NOTHING\<close>; a clash of the primary key is still an error.\<close>

definition stmt_insert_refund :: "RefundRequest \<Rightarrow> time \<Rightarrow> (payment_db, unit) stmt" where
  "stmt_insert_refund r now d =
     (let row = r\<lparr>rf_CreatedAt := now, rf_UpdatedAt := now, rf_ProcessedAt := None\<rparr>
      in if \<not> int8_ok (rf_AmountRupiah r) then Inl OutOfRange
         else if \<not> refund_check row then Inl CheckViolation
         else if rf_IdempotencyKey r \<in> rf_IdempotencyKey ` set (refund_requests d) then Inr ((), d)
         else if rf_ID r \<in> rf_ID ` set (refund_requests d) then Inl UniqueViolation
         else if rf_TransactionID r \<notin> tx_ID ` set (transactions d) then Inl ForeignKeyViolation
         else Inr ((), d\<lparr>refund_requests := refund_requests d @ [row]\<rparr>))"

section \<open>Repositories\<close>

definition txn_Create :: "Transaction \<Rightarrow> unit payment_op" where
  "txn_Create txn = bindE readClock (\<lambda>now. mapErr PayErr (exec (stmt_insert_txn txn now)))"

definition select_txn :: "(Transaction list \<Rightarrow> Transaction list) \<Rightarrow> Transaction payment_op" where
  "select_txn q =
     mapErr PayErr (exec (\<lambda>d. case q (transactions d) of [] \<Rightarrow> Inl NoRows | t # _ \<Rightarrow> Inr (t, d)))"

definition txn_FindByID :: "string \<Rightarrow> Transaction payment_op" where
  "txn_FindByID i = select_txn (filter (\<lambda>t. tx_ID t = i))"

definition txn_FindByBookingID :: "string \<Rightarrow> Transaction payment_op" where
  "txn_FindByBookingID bookingID =
     select_txn (\<lambda>ts. order_desc tx_CreatedAt (filter (\<lambda>t. tx_BookingID t = bookingID) ts))"

definition txn_UpdateStatus :: "string \<Rightarrow> string \<Rightarrow> string \<Rightarrow> unit payment_op" where
  "txn_UpdateStatus i status providerRef =
     bindE readClock (\<lambda>now.
     bindE (mapErr PayErr (exec (stmt_settle (\<lambda>_. True) i status providerRef now))) (\<lambda>_. retE ()))"

definition txn_TransitionIfActive :: "string \<Rightarrow> string \<Rightarrow> string \<Rightarrow> bool payment_op" where
  "txn_TransitionIfActive i status providerRef =
     bindE readClock (\<lambda>now.
     bindE (mapErr PayErr (exec (stmt_settle (\<lambda>s. s \<in> set ActiveStatuses) i status providerRef now)))
       (\<lambda>n. retE (0 < n)))"

definition txn_TransitionIfInitiated :: "string \<Rightarrow> string \<Rightarrow> string \<Rightarrow> bool payment_op" where
  "txn_TransitionIfInitiated i status providerRef =
     bindE readClock (\<lambda>now.
     bindE (mapErr PayErr (exec (stmt_settle (\<lambda>s. s = ''initiated'') i status providerRef now)))
       (\<lambda>n. retE (0 < n)))"

definition txn_UpdateSession :: "string \<Rightarrow> string \<Rightarrow> string \<Rightarrow> unit payment_op" where
  "txn_UpdateSession i providerRef paymentLinkURL =
     bindE readClock (\<lambda>now.
     bindE (mapErr PayErr (exec (stmt_update_txn (\<lambda>t. tx_ID t = i)
              (\<lambda>t. t\<lparr>tx_ProviderRef := providerRef, tx_PaymentLinkURL := paymentLinkURL, tx_UpdatedAt := now\<rparr>))))
       (\<lambda>_. retE ()))"

definition txn_UpdateRefundStatus :: "string \<Rightarrow> string \<Rightarrow> unit payment_op" where
  "txn_UpdateRefundStatus i refundStatus =
     bindE readClock (\<lambda>now.
     bindE (mapErr PayErr (exec (stmt_update_txn (\<lambda>t. tx_ID t = i)
              (\<lambda>t. t\<lparr>tx_RefundStatus := refundStatus, tx_UpdatedAt := now\<rparr>))))
       (\<lambda>_. retE ()))"

definition list_txns :: "(Transaction list \<Rightarrow> db_error + Transaction list) \<Rightarrow> Transaction list payment_op" where
  "list_txns q =
     mapErr PayErr (exec (\<lambda>d. case q (transactions d) of Inl e \<Rightarrow> Inl e | Inr ts \<Rightarrow> Inr (ts, d)))"

definition txn_ListByUser :: "string \<Rightarrow> Transaction list payment_op" where
  "txn_ListByUser userID = list_txns (\<lambda>ts. Inr (order_desc tx_CreatedAt (filter (\<lambda>t. tx_UserID t = userID) ts)))"

definition txn_ListByEventID :: "string \<Rightarrow> Transaction list payment_op" where
  "txn_ListByEventID eventID = list_txns (\<lambda>ts. Inr (order_desc tx_CreatedAt (filter (\<lambda>t. tx_EventID t = eventID) ts)))"

definition overdue :: "time \<Rightarrow> Transaction \<Rightarrow> bool" where
  "overdue now t \<longleftrightarrow> tx_Status t \<in> set ActiveStatuses \<and> (case tx_ExpiresAt t of None \<Rightarrow> False | Some e \<Rightarrow> e \<le> now)"

definition txn_ListActiveExpired :: "time \<Rightarrow> int \<Rightarrow> Transaction list payment_op" where
  "txn_ListActiveExpired now lim =
     list_txns (\<lambda>ts. if lim < 0 then Inl ConnFailed
       else Inr (limit_offset lim 0 (order_asc (\<lambda>t. case tx_ExpiresAt t of None \<Rightarrow> 0 | Some e \<Rightarrow> e) (filter (overdue now) ts))))"

definition refund_Create :: "RefundRequest \<Rightarrow> unit payment_op" where
  "refund_Create r = bindE readClock (\<lambda>now. mapErr PayErr (exec (stmt_insert_refund r now)))"

section \<open>What the statements do\<close>

definition txn_status :: "payment_db \<Rightarrow> string \<Rightarrow> string option" where
  "txn_status d i = map_option tx_Status (find (\<lambda>t. tx_ID t = i) (transactions d))"

lemma pay_schema_frame [simp]:
  "pay_schema (d\<lparr>outbox := x\<rparr>) = pay_schema d" "pay_schema (d\<lparr>outbox_seq := n\<rparr>) = pay_schema d"
  "pay_schema (d\<lparr>gateway_calls := g\<rparr>) = pay_schema d"
  by (simp_all add: pay_schema_def)

lemma pay_schema_find:
  "pay_schema d \<Longrightarrow> t \<in> set (transactions d) \<Longrightarrow> tx_ID t = i \<Longrightarrow> find (\<lambda>x. tx_ID x = i) (transactions d) = Some t"
  using distinct_map_find [of tx_ID "transactions d" t] by (simp add: pay_schema_def)

lemma stmt_update_txn_frame:
  assumes "stmt_update_txn P f d = Inr (n, d')"
  shows "transactions d' = update_where P f (transactions d)" "refund_requests d' = refund_requests d"
    "outbox d' = outbox d" "outbox_seq d' = outbox_seq d" "gateway_calls d' = gateway_calls d"
    "n = count_where P (transactions d)"
  using assms by (auto simp: stmt_update_txn_def split: if_splits)

lemma stmt_update_txn_schema:
  assumes u: "stmt_update_txn P f d = Inr (n, d')" and ok: "pay_schema d"
    and f: "\<And>t. tx_ID (f t) = tx_ID t" "\<And>t. tx_BookingID (f t) = tx_BookingID t"
  shows "pay_schema d'"
proof -
  have ids: "map tx_ID (transactions d') = map tx_ID (transactions d)"
    "map tx_BookingID (transactions d') = map tx_BookingID (transactions d)"
    using stmt_update_txn_frame(1) [OF u] f by (simp_all add: map_update_where)
  then have "tx_ID ` set (transactions d') = tx_ID ` set (transactions d)" by (metis list.set_map)
  with u ok ids show ?thesis
    by (auto simp: stmt_update_txn_def pay_schema_def table_simps split: if_splits)
qed

lemma stmt_settle_schema: "stmt_settle g i st ref now d = Inr (n, d') \<Longrightarrow> pay_schema d \<Longrightarrow> pay_schema d'"
  unfolding stmt_settle_def by (erule stmt_update_txn_schema) auto

lemma stmt_insert_txn_schema: "stmt_insert_txn t now d = Inr (u, d') \<Longrightarrow> pay_schema d \<Longrightarrow> pay_schema d'"
  by (auto simp: stmt_insert_txn_def Let_def pay_schema_def split: if_splits)

lemma stmt_insert_refund_schema: "stmt_insert_refund r now d = Inr (u, d') \<Longrightarrow> pay_schema d \<Longrightarrow> pay_schema d'"
  by (auto simp: stmt_insert_refund_def Let_def pay_schema_def split: if_splits)

lemma read_only_select_txn [reading]: "read_only (select_txn q)"
  unfolding select_txn_def by (auto intro!: reading split: list.splits)

lemma read_only_list_txns [reading]: "read_only (list_txns q)"
  unfolding list_txns_def by (auto intro!: reading split: sum.splits)

lemma read_only_txn_queries [reading]:
  "read_only (txn_FindByID i)" "read_only (txn_FindByBookingID i)" "read_only (txn_ListByUser u)"
  "read_only (txn_ListByEventID e)" "read_only (txn_ListActiveExpired now lim)"
  by (auto simp: txn_FindByID_def txn_FindByBookingID_def txn_ListByUser_def txn_ListByEventID_def
      txn_ListActiveExpired_def intro!: reading)

end
