(* ===== verification/Payment_Service.thy ===== *)
theory Payment_Service
  imports Payment_Store
begin

text \<open>
  The application layer of the payment service (\<^verbatim>\<open>service/payment/internal/application\<close>) and the
  handler of its Kafka consumer. The payment gateway is outside the repository: \<open>gateway\<close> holds
  what it answers to a call, given the number of calls made before.
\<close>

section \<open>The service\<close>

record gateway =
  gw_create :: "nat \<Rightarrow> string \<Rightarrow> int \<Rightarrow> string \<Rightarrow> time \<Rightarrow> string list \<Rightarrow> string \<Rightarrow> string + SessionResult"
  gw_cancel :: "nat \<Rightarrow> string \<Rightarrow> string option"

record PaymentService =
  processor :: gateway
  provider :: string
  gatewayExpiryBufferMin :: int
  allowedChannels :: "string list"

definition log_call :: "gateway_call \<Rightarrow> payment_db world \<Rightarrow> payment_db world" where
  "log_call c w = w\<lparr>db := (db w)\<lparr>gateway_calls := gateway_calls (db w) @ [c]\<rparr>\<rparr>"

definition CreateSession ::
    "PaymentService \<Rightarrow> string \<Rightarrow> int \<Rightarrow> string \<Rightarrow> time \<Rightarrow> string list \<Rightarrow> string \<Rightarrow> (string, payment_db, SessionResult) op" where
  "CreateSession s refID amount cur expiresAt chans email w =
     (gw_create (processor s) (length (gateway_calls (db w))) refID amount cur expiresAt chans email,
      log_call (CreateCall refID amount cur expiresAt chans email) w)"

definition CancelSession :: "PaymentService \<Rightarrow> string \<Rightarrow> (string, payment_db, unit) op" where
  "CancelSession s ref w =
     (case gw_cancel (processor s) (length (gateway_calls (db w))) ref of None \<Rightarrow> Inr () | Some e \<Rightarrow> Inl e,
      log_call (CancelCall ref) w)"

section \<open>Transactions\<close>

definition new_txn :: "PaymentService \<Rightarrow> string \<Rightarrow> string \<Rightarrow> string \<Rightarrow> string \<Rightarrow> string \<Rightarrow> int \<Rightarrow> time \<Rightarrow> Transaction" where
  "new_txn s i bookingID eventID userID email amount expiresAt =
     \<lparr>tx_ID = i, tx_UserID = userID, tx_BookingID = bookingID, tx_EventID = eventID,
      tx_AmountRupiah = amount, tx_Currency = ''IDR'', tx_Status = StatusInitiated, tx_Provider = provider s,
      tx_ProviderRef = '''', tx_PaymentLinkURL = '''', tx_CustomerEmail = email, tx_RefundStatus = ''none'',
      tx_ExpiresAt = Some expiresAt, tx_CreatedAt = 0, tx_UpdatedAt = 0\<rparr>"

definition InitiateTxnForBooking ::
    "PaymentService \<Rightarrow> string \<Rightarrow> string \<Rightarrow> string \<Rightarrow> string \<Rightarrow> int \<Rightarrow> time \<Rightarrow> Transaction payment_op" where
  "InitiateTxnForBooking s bookingID eventID userID email amountRupiah expiresAt =
     bindE newUUID (\<lambda>i.
     let txn = new_txn s i bookingID eventID userID email amountRupiah expiresAt
     in handleE (txn_Create txn)
          (\<lambda>err. if err = PayErr UniqueViolation then txn_FindByBookingID bookingID else failE err)
          (\<lambda>_. retE txn))"

definition GetPaymentStatus :: "string \<Rightarrow> Transaction payment_op" where
  "GetPaymentStatus bookingID = handleE (txn_FindByBookingID bookingID) (\<lambda>_. failE ErrTransactionNotFound) retE"

definition GetTransaction :: "string \<Rightarrow> Transaction payment_op" where
  "GetTransaction txnID = txn_FindByID txnID"

definition ListMyTransactions :: "string \<Rightarrow> Transaction list payment_op" where
  "ListMyTransactions userID = txn_ListByUser userID"

text \<open>
  The test of the deadline reads the clock once for \<^verbatim>\<open>After\<close> and, if that holds, once more for
  \<^verbatim>\<open>Until\<close>.
\<close>

definition deadline_passed :: "time option \<Rightarrow> bool payment_op" where
  "deadline_passed expiresAt =
     (case expiresAt of
        None \<Rightarrow> retE True
      | Some e \<Rightarrow>
          bindE readClock (\<lambda>now1. if \<not> now1 < e then retE True
          else bindE readClock (\<lambda>now2. retE (e - now2 < Minute))))"

definition ProcessPayment :: "PaymentService \<Rightarrow> string \<Rightarrow> string \<Rightarrow> (Transaction \<times> SessionResult) payment_op" where
  "ProcessPayment s bookingID userID =
     handleE (txn_FindByBookingID bookingID) (\<lambda>_. failE ErrTransactionNotFound) (\<lambda>txn.
     if tx_Status txn \<noteq> StatusInitiated then failE ErrAlreadyProcessed
     else bindE (deadline_passed (tx_ExpiresAt txn)) (\<lambda>late.
     if late then failE ErrTransactionExpired
     else if tx_UserID txn \<noteq> userID then failE ErrTransactionNotFound
     else bindE readClock (\<lambda>now.
     let gatewayExpiresAt = the (tx_ExpiresAt txn) + wrap64 (wrap64 (- gatewayExpiryBufferMin s) * Minute);
         minGatewayExpiry = now + 10 * Minute;
         gatewayExpiresAt = (if gatewayExpiresAt < minGatewayExpiry then minGatewayExpiry else gatewayExpiresAt)
     in handleE (CreateSession s bookingID (tx_AmountRupiah txn) (tx_Currency txn) gatewayExpiresAt
                   (allowedChannels s) (tx_CustomerEmail txn))
          (\<lambda>err. failE (ErrGatewayUnavailable err))
          (\<lambda>result.
        bindE (txn_TransitionIfInitiated (tx_ID txn) StatusPending (sr_ProviderRef result)) (\<lambda>applied.
        if \<not> applied then ignoreE (CancelSession s (sr_ProviderRef result)) (failE ErrAlreadyProcessed)
        else bindE (txn_UpdateSession (tx_ID txn) (sr_ProviderRef result) (sr_PaymentLinkURL result)) (\<lambda>_.
             retE (txn, result)))))))"

section \<open>Webhooks\<close>

record sessionWebhookPayload =
  wh_Event :: string
  wh_ReferenceID :: string
  wh_PaymentSessionID :: string
  wh_ID :: string
  wh_Status :: string

definition unmarshal_webhook :: "json \<Rightarrow> sessionWebhookPayload option" where
  "unmarshal_webhook j =
     (case dec_top j of None \<Rightarrow> None | Some kvs \<Rightarrow>
     (case (dec_str ''event'' kvs, dec_obj ''data'' kvs) of
        (Some ev, Some dat) \<Rightarrow>
          (case (dec_str ''reference_id'' dat, dec_str ''payment_session_id'' dat, dec_str ''id'' dat,
                 dec_str ''status'' dat) of
             (Some r, Some p, Some i, Some st) \<Rightarrow>
               Some \<lparr>wh_Event = ev, wh_ReferenceID = r, wh_PaymentSessionID = p, wh_ID = i, wh_Status = st\<rparr>
           | _ \<Rightarrow> None)
      | _ \<Rightarrow> None))"

definition sessionID :: "sessionWebhookPayload \<Rightarrow> string" where
  "sessionID p = (if wh_PaymentSessionID p \<noteq> '''' then wh_PaymentSessionID p else wh_ID p)"

definition refund_for :: "string \<Rightarrow> string \<Rightarrow> string \<Rightarrow> Transaction \<Rightarrow> RefundRequest" where
  "refund_for i reason prefix txn =
     \<lparr>rf_ID = i, rf_EventID = tx_EventID txn, rf_BookingID = tx_BookingID txn, rf_TransactionID = tx_ID txn,
      rf_CustomerEmail = tx_CustomerEmail txn, rf_AmountRupiah = tx_AmountRupiah txn,
      rf_Currency = tx_Currency txn, rf_Status = RefundPending, rf_Reason = reason,
      rf_ProviderRef = tx_ProviderRef txn, rf_IdempotencyKey = prefix @ tx_ID txn,
      rf_CreatedAt = 0, rf_UpdatedAt = 0, rf_ProcessedAt = None\<rparr>"

definition requestLatePaymentRefund :: "Transaction \<Rightarrow> unit payment_op" where
  "requestLatePaymentRefund txn =
     bindE newUUID (\<lambda>i.
     handleE (refund_Create (refund_for i ''late_payment'' ''late-payment:'' txn))
       (\<lambda>_. retE ())
       (\<lambda>_. ignoreE (txn_UpdateRefundStatus (tx_ID txn) ''pending'') (retE ())))"

definition emit_completed :: "Transaction \<Rightarrow> unit payment_op" where
  "emit_completed txn =
     bindE readClock (\<lambda>now.
     ignoreE (outbox_Insert ''payment.completed'' (tx_ID txn)
                (marshal_PaymentCompleted \<lparr>pc_TransactionID = tx_ID txn, pc_BookingID = tx_BookingID txn,
                   pc_EventID = tx_EventID txn, pc_UserID = tx_UserID txn, pc_At = now\<rparr>))
       (retE ()))"

definition emit_expired :: "string \<Rightarrow> Transaction \<Rightarrow> unit payment_op" where
  "emit_expired reason txn =
     bindE readClock (\<lambda>now.
     ignoreE (outbox_Insert ''payment.expired'' (tx_ID txn)
                (marshal_PaymentExpired \<lparr>px_TransactionID = tx_ID txn, px_BookingID = tx_BookingID txn,
                   px_EventID = tx_EventID txn, px_UserID = tx_UserID txn, px_Reason = reason, px_At = now\<rparr>))
       (retE ()))"

text \<open>The two cases of the \<^verbatim>\<open>switch\<close>, on the copy of the transaction the handler read before.\<close>

definition webhook_completed :: "Transaction \<Rightarrow> unit payment_op" where
  "webhook_completed txn =
     bindE (txn_TransitionIfActive (tx_ID txn) StatusCompleted (tx_ProviderRef txn)) (\<lambda>applied.
     if applied then emit_completed txn
     else if tx_Status txn = StatusExpired then requestLatePaymentRefund txn
     else retE ())"

definition webhook_expired :: "Transaction \<Rightarrow> unit payment_op" where
  "webhook_expired txn =
     bindE (txn_TransitionIfActive (tx_ID txn) StatusExpired (tx_ProviderRef txn)) (\<lambda>applied.
     if applied then emit_expired GatewayExpiredReason txn else retE ())"

text \<open>\<open>payload\<close> is \<open>None\<close> when the bytes are not JSON.\<close>

definition HandleSessionWebhook :: "json option \<Rightarrow> unit payment_op" where
  "HandleSessionWebhook payload =
     (case Option.bind payload unmarshal_webhook of
        None \<Rightarrow> failE ErrInvalidPayload
      | Some event \<Rightarrow>
          if wh_ReferenceID event = '''' then failE ErrMissingReference
          else bindE (txn_FindByBookingID (wh_ReferenceID event)) (\<lambda>txn.
            if sessionID event \<noteq> '''' \<and> sessionID event \<noteq> tx_ProviderRef txn then retE ()
            else if wh_Event event = ''payment_session.completed'' then webhook_completed txn
            else if wh_Event event = ''payment_session.expired'' then webhook_expired txn
            else retE ()))"

section \<open>The expiry poller\<close>

definition expire_one :: "PaymentService \<Rightarrow> Transaction \<Rightarrow> unit payment_op" where
  "expire_one s txn =
     (let settle = handleE (txn_TransitionIfActive (tx_ID txn) StatusExpired (tx_ProviderRef txn))
            (\<lambda>_. retE ())
            (\<lambda>applied. if \<not> applied then retE () else emit_expired ''internal_expiry_fallback'' txn)
      in if tx_ProviderRef txn \<noteq> '''' then ignoreE (CancelSession s (tx_ProviderRef txn)) settle else settle)"

fun expire_each :: "PaymentService \<Rightarrow> Transaction list \<Rightarrow> unit payment_op" where
  "expire_each s [] = retE ()"
| "expire_each s (txn # txns) = bindE (expire_one s txn) (\<lambda>_. expire_each s txns)"

definition ProcessExpired :: "PaymentService \<Rightarrow> int \<Rightarrow> unit payment_op" where
  "ProcessExpired s limit =
     bindE readClock (\<lambda>now. bindE (txn_ListActiveExpired now limit) (expire_each s))"

text \<open>\<^verbatim>\<open>StartExpiryPoller\<close> logs an error of a poll and goes on: \<open>n\<close> ticks of its loop.\<close>

fun expiry_poller :: "PaymentService \<Rightarrow> nat \<Rightarrow> unit payment_op" where
  "expiry_poller s 0 = retE ()"
| "expiry_poller s (Suc n) = ignoreE (ProcessExpired s 100) (expiry_poller s n)"

section \<open>Cancelled events\<close>

definition refund_cancelled :: "Transaction \<Rightarrow> unit payment_op" where
  "refund_cancelled txn =
     (if tx_Status txn = StatusCompleted then
        bindE newUUID (\<lambda>i.
        bindE (refund_Create (refund_for i ''event_cancelled'' ''event-cancelled:'' txn)) (\<lambda>_.
        txn_UpdateRefundStatus (tx_ID txn) ''pending''))
      else retE ())"

fun refund_each :: "Transaction list \<Rightarrow> unit payment_op" where
  "refund_each [] = retE ()"
| "refund_each (txn # txns) = bindE (refund_cancelled txn) (\<lambda>_. refund_each txns)"

definition HandleEventCancelled :: "string \<Rightarrow> unit payment_op" where
  "HandleEventCancelled eventID = bindE (txn_ListByEventID eventID) refund_each"

text \<open>The handler the consumer of \<^verbatim>\<open>event.cancelled\<close> runs for one message.\<close>

definition on_event_cancelled :: "json option \<Rightarrow> unit payment_op" where
  "on_event_cancelled payload =
     (case Option.bind payload unmarshal_EventCancelled of
        None \<Rightarrow> failE ErrInvalidPayload
      | Some ev \<Rightarrow> HandleEventCancelled (ec_EventID ev))"

end
