(* ===== verification/Payment_Invariant.thy ===== *)
theory Payment_Invariant
  imports Payment_Service
begin

text \<open>
  What the payment service promises under every fault schedule and for every order of its
  handlers: a transaction gets at most one outcome message and it agrees with its status, and at
  most one refund, of the amount of the transaction. The handlers decide on a copy of the
  transaction they read before, so the lemmas speak about such copies (\<open>read_of\<close>).
\<close>

section \<open>The invariant\<close>

definition terminal :: "string \<Rightarrow> bool" where
  "terminal s \<longleftrightarrow> s = StatusCompleted \<or> s = StatusExpired"

text \<open>The status a message of the outbox announces.\<close>

definition outcome_of :: "string \<Rightarrow> string option" where
  "outcome_of topic =
     (if topic = ''payment.completed'' then Some StatusCompleted
      else if topic = ''payment.expired'' then Some StatusExpired else None)"

definition outcome_keys :: "payment_db \<Rightarrow> string list" where
  "outcome_keys d = map ob_Key (filter (\<lambda>r. outcome_of (ob_Topic r) \<noteq> None) (outbox d))"

definition refund_key_ok :: "Transaction \<Rightarrow> string \<Rightarrow> bool" where
  "refund_key_ok t k \<longleftrightarrow>
     (tx_Status t = StatusExpired \<and> k = ''late-payment:'' @ tx_ID t) \<or>
     (tx_Status t = StatusCompleted \<and> k = ''event-cancelled:'' @ tx_ID t)"

definition refund_ok :: "payment_db \<Rightarrow> RefundRequest \<Rightarrow> bool" where
  "refund_ok d r \<longleftrightarrow>
     (\<exists>t \<in> set (transactions d). tx_ID t = rf_TransactionID r \<and> tx_AmountRupiah t = rf_AmountRupiah r \<and>
        refund_key_ok t (rf_IdempotencyKey r))"

definition pay_inv :: "payment_db \<Rightarrow> bool" where
  "pay_inv d \<longleftrightarrow>
     pay_schema d \<and> distinct (outcome_keys d) \<and>
     (\<forall>r \<in> set (outbox d). \<forall>s. outcome_of (ob_Topic r) = Some s \<longrightarrow> txn_status d (ob_Key r) = Some s) \<and>
     (\<forall>r \<in> set (refund_requests d). refund_ok d r)"

text \<open>
  \<open>t\<close> was read from the table at some time before: its identity and amount are still there, and a
  terminal status it had is the status of the row.
\<close>

definition read_of :: "Transaction \<Rightarrow> payment_db \<Rightarrow> bool" where
  "read_of t d \<longleftrightarrow>
     (\<exists>t' \<in> set (transactions d). tx_ID t' = tx_ID t \<and> tx_BookingID t' = tx_BookingID t \<and>
        tx_AmountRupiah t' = tx_AmountRupiah t \<and> (terminal (tx_Status t) \<longrightarrow> tx_Status t' = tx_Status t))"

text \<open>What no statement of the service undoes.\<close>

definition moves_on :: "payment_db \<Rightarrow> payment_db \<Rightarrow> bool" where
  "moves_on d d' \<longleftrightarrow>
     (\<forall>t \<in> set (transactions d). \<exists>t' \<in> set (transactions d'). tx_ID t' = tx_ID t \<and>
        tx_BookingID t' = tx_BookingID t \<and> tx_AmountRupiah t' = tx_AmountRupiah t \<and>
        (terminal (tx_Status t) \<longrightarrow> tx_Status t' = tx_Status t))"

lemma moves_on_refl [simp]: "moves_on d d"
  by (auto simp: moves_on_def)

lemma moves_on_read: "moves_on d d' \<Longrightarrow> read_of t d \<Longrightarrow> read_of t d'"
  unfolding moves_on_def read_of_def by metis

lemma read_of_here: "t \<in> set (transactions d) \<Longrightarrow> read_of t d"
  by (auto simp: read_of_def)

lemma terminal_simps [simp]:
  "terminal StatusCompleted" "terminal StatusExpired" "\<not> terminal StatusInitiated" "\<not> terminal StatusPending"
  by (simp_all add: terminal_def)

lemma active_not_terminal: "s \<in> set ActiveStatuses \<Longrightarrow> \<not> terminal s"
  by (auto simp: ActiveStatuses_def)

lemma outcome_terminal: "outcome_of tp = Some s \<Longrightarrow> terminal s"
  by (auto simp: outcome_of_def split: if_splits)

lemma txn_status_terminal:
  assumes "moves_on d d'" "pay_schema d'" "txn_status d i = Some s" "terminal s"
  shows "txn_status d' i = Some s"
proof -
  obtain t where t: "t \<in> set (transactions d)" "tx_ID t = i" "tx_Status t = s"
    using assms(3) by (auto simp: txn_status_def dest: find_SomeD)
  then obtain t' where "t' \<in> set (transactions d')" "tx_ID t' = i" "tx_Status t' = s"
    using assms(1,4) unfolding moves_on_def by metis
  with pay_schema_find [OF assms(2), of t' i] show ?thesis by (simp add: txn_status_def)
qed

lemma moves_on_refund: "moves_on d d' \<Longrightarrow> refund_ok d r \<Longrightarrow> refund_ok d' r"
proof -
  assume m: "moves_on d d'" and r: "refund_ok d r"
  obtain t where t: "t \<in> set (transactions d)" "tx_ID t = rf_TransactionID r"
      "tx_AmountRupiah t = rf_AmountRupiah r" "refund_key_ok t (rf_IdempotencyKey r)"
    using r by (auto simp: refund_ok_def)
  then have "terminal (tx_Status t)" by (auto simp: refund_key_ok_def)
  then obtain t' where "t' \<in> set (transactions d')" "tx_ID t' = tx_ID t" "tx_AmountRupiah t' = tx_AmountRupiah t"
      "tx_Status t' = tx_Status t"
    using m t(1) unfolding moves_on_def by metis
  with t show ?thesis by (auto simp: refund_ok_def refund_key_ok_def intro!: bexI [of _ t'])
qed

text \<open>The invariant survives every step that changes neither outbox nor refunds and only moves on.\<close>

lemma pay_inv_step:
  assumes "pay_inv d" "moves_on d d'" "pay_schema d'" "outbox d' = outbox d" "refund_requests d' = refund_requests d"
  shows "pay_inv d'"
  using assms txn_status_terminal [OF assms(2,3)] moves_on_refund [OF assms(2)] outcome_terminal
  by (auto simp: pay_inv_def outcome_keys_def)

section \<open>The statements\<close>

lemma moves_on_update:
  assumes "\<And>t. t \<in> set (transactions d) \<Longrightarrow> P t \<Longrightarrow>
      tx_ID (f t) = tx_ID t \<and> tx_BookingID (f t) = tx_BookingID t \<and> tx_AmountRupiah (f t) = tx_AmountRupiah t \<and>
      (terminal (tx_Status t) \<longrightarrow> tx_Status (f t) = tx_Status t)"
    and "transactions d' = update_where P f (transactions d)"
  shows "moves_on d d'"
  unfolding moves_on_def assms(2)
proof
  fix t assume t: "t \<in> set (transactions d)"
  have "(if P t then f t else t) \<in> set (update_where P f (transactions d))"
    using t by (auto simp: table_simps)
  with assms(1) [OF t] show "\<exists>t' \<in> set (update_where P f (transactions d)). tx_ID t' = tx_ID t \<and>
      tx_BookingID t' = tx_BookingID t \<and> tx_AmountRupiah t' = tx_AmountRupiah t \<and>
      (terminal (tx_Status t) \<longrightarrow> tx_Status t' = tx_Status t)"
    by (intro bexI) auto
qed

lemma stmt_settle_moves:
  assumes "stmt_settle g i st ref now d = Inr (n, d')" "\<And>s. g s \<Longrightarrow> \<not> terminal s"
  shows "moves_on d d'"
  using stmt_update_txn_frame(1) [OF assms(1) [unfolded stmt_settle_def]] assms(2)
  by (intro moves_on_update) auto

lemma stmt_settle_inv:
  assumes "stmt_settle g i st ref now d = Inr (n, d')" "\<And>s. g s \<Longrightarrow> \<not> terminal s" "pay_inv d"
  shows "pay_inv d'"
  using pay_inv_step [OF assms(3) stmt_settle_moves [OF assms(1,2)] stmt_settle_schema [OF assms(1)]] assms(3)
    stmt_update_txn_frame [OF assms(1) [unfolded stmt_settle_def]] by (auto simp: pay_inv_def)

text \<open>A transition that was applied found the row active, so nothing announced its outcome yet.\<close>

lemma stmt_settle_applied:
  assumes s: "stmt_settle g i st ref now d = Inr (n, d')" and n: "0 < n" and g: "\<And>s. g s \<Longrightarrow> \<not> terminal s"
    and inv: "pay_inv d"
  shows "txn_status d' i = Some st \<and> i \<notin> set (outcome_keys d')"
proof -
  note fr = stmt_update_txn_frame [OF s [unfolded stmt_settle_def]]
  obtain t where t: "t \<in> set (transactions d)" "tx_ID t = i" "g (tx_Status t)"
    using n fr(6) by (auto simp: count_where_0 simp flip: neq0_conv)
  have ok: "pay_schema d" using inv by (simp add: pay_inv_def)
  have f: "find (\<lambda>x. tx_ID x = i) (transactions d) = Some t" by (rule pay_schema_find [OF ok t(1,2)])
  then have "txn_status d' i = Some st"
    using t by (simp add: txn_status_def fr(1) find_update_where)
  moreover have "i \<notin> set (outcome_keys d)"
  proof
    assume "i \<in> set (outcome_keys d)"
    then obtain r s where "r \<in> set (outbox d)" "outcome_of (ob_Topic r) = Some s" "ob_Key r = i"
      by (auto simp: outcome_keys_def)
    then have "txn_status d i = Some s" "terminal s"
      using inv outcome_terminal by (auto simp: pay_inv_def)
    with f g [OF t(3)] show False by (simp add: txn_status_def)
  qed
  ultimately show ?thesis using fr(3) by (simp add: outcome_keys_def)
qed

text \<open>Statements that leave the status of every row alone.\<close>

lemma stmt_update_inv:
  assumes "stmt_update_txn P f d = Inr (n, d')" "pay_inv d"
    and "\<And>t. tx_ID (f t) = tx_ID t" "\<And>t. tx_BookingID (f t) = tx_BookingID t"
      "\<And>t. tx_AmountRupiah (f t) = tx_AmountRupiah t" "\<And>t. tx_Status (f t) = tx_Status t"
  shows "pay_inv d' \<and> moves_on d d'"
proof -
  have m: "moves_on d d'"
    using stmt_update_txn_frame(1) [OF assms(1)] assms(3-6) by (intro moves_on_update) auto
  moreover have "pay_schema d'"
    using stmt_update_txn_schema [OF assms(1)] assms(2-4) by (simp add: pay_inv_def)
  ultimately show ?thesis
    using pay_inv_step [OF assms(2)] stmt_update_txn_frame [OF assms(1)] by auto
qed

lemma stmt_insert_txn_inv:
  assumes "stmt_insert_txn t now d = Inr (u, d')" "pay_inv d"
  shows "pay_inv d' \<and> moves_on d d'"
proof -
  have m: "moves_on d d'"
    using assms(1) by (auto simp: moves_on_def stmt_insert_txn_def Let_def split: if_splits)
  moreover have "pay_schema d'"
    using stmt_insert_txn_schema [OF assms(1)] assms(2) by (simp add: pay_inv_def)
  moreover have "outbox d' = outbox d" "refund_requests d' = refund_requests d"
    using assms(1) by (auto simp: stmt_insert_txn_def Let_def split: if_splits)
  ultimately show ?thesis using pay_inv_step [OF assms(2)] by auto
qed

lemma stmt_insert_refund_moves:
  "stmt_insert_refund r now d = Inr (u, d') \<Longrightarrow> moves_on d d'"
  by (auto simp: moves_on_def stmt_insert_refund_def Let_def split: if_splits)

lemma stmt_insert_refund_inv:
  assumes s: "stmt_insert_refund (refund_for i reason prefix t) now d = Inr (u, d')" and inv: "pay_inv d" "read_of t d"
    and st: "tx_Status t = StatusExpired \<and> prefix = ''late-payment:'' \<or>
      tx_Status t = StatusCompleted \<and> prefix = ''event-cancelled:''"
  shows "pay_inv d'"
proof -
  have ok: "pay_schema d'" using stmt_insert_refund_schema [OF s] inv by (simp add: pay_inv_def)
  obtain t' where t': "t' \<in> set (transactions d)" "tx_ID t' = tx_ID t" "tx_AmountRupiah t' = tx_AmountRupiah t"
      "tx_Status t' = tx_Status t"
    using inv(2) st by (auto simp: read_of_def)
  have fr: "transactions d' = transactions d" "outbox d' = outbox d"
    using s by (auto simp: stmt_insert_refund_def Let_def split: if_splits)
  have "refund_ok d' r" if "r \<in> set (refund_requests d')" for r
  proof -
    have "r \<in> set (refund_requests d) \<or> (rf_TransactionID r = tx_ID t \<and> rf_AmountRupiah r = tx_AmountRupiah t \<and>
        rf_IdempotencyKey r = prefix @ tx_ID t)"
      using that s by (auto simp: stmt_insert_refund_def Let_def refund_for_def split: if_splits)
    then show ?thesis
    proof
      assume "r \<in> set (refund_requests d)"
      with inv(1) fr show ?thesis by (simp add: pay_inv_def refund_ok_def)
    next
      assume "rf_TransactionID r = tx_ID t \<and> rf_AmountRupiah r = tx_AmountRupiah t \<and> rf_IdempotencyKey r = prefix @ tx_ID t"
      moreover from this t' st have "refund_key_ok t' (rf_IdempotencyKey r)" by (auto simp: refund_key_ok_def)
      ultimately show ?thesis using t' fr unfolding refund_ok_def by metis
    qed
  qed
  with ok inv(1) fr show ?thesis by (simp add: pay_inv_def outcome_keys_def txn_status_def)
qed

lemma outbox_append_inv:
  assumes "pay_inv d" "outcome_of (ob_Topic r) = Some s" "txn_status d (ob_Key r) = Some s"
    "ob_Key r \<notin> set (outcome_keys d)"
  shows "pay_inv (d\<lparr>outbox := outbox d @ [r], outbox_seq := n\<rparr>)"
  using assms by (auto simp: pay_inv_def outcome_keys_def txn_status_def refund_ok_def)

section \<open>The operations\<close>

definition inv_read :: "Transaction list \<Rightarrow> payment_db \<Rightarrow> bool" where
  "inv_read ts d \<longleftrightarrow> pay_inv d \<and> (\<forall>t \<in> set ts. read_of t d)"

lemma inv_read_step: "inv_read ts d \<Longrightarrow> pay_inv d' \<Longrightarrow> moves_on d d' \<Longrightarrow> inv_read ts d'"
  using moves_on_read by (auto simp: inv_read_def)

lemma frame_inv [simp]:
  "pay_inv (d\<lparr>gateway_calls := g\<rparr>) = pay_inv d" "read_of t (d\<lparr>gateway_calls := g\<rparr>) = read_of t d"
  "txn_status (d\<lparr>gateway_calls := g\<rparr>) = txn_status d" "outcome_keys (d\<lparr>gateway_calls := g\<rparr>) = outcome_keys d"
  "read_of t (d\<lparr>outbox := x, outbox_seq := n\<rparr>) = read_of t d"
  by (simp_all add: pay_inv_def read_of_def txn_status_def outcome_keys_def refund_ok_def fun_eq_iff)

definition announceable :: "Transaction list \<Rightarrow> string \<Rightarrow> string \<Rightarrow> payment_db \<Rightarrow> bool" where
  "announceable ts i s d \<longleftrightarrow> inv_read ts d \<and> txn_status d i = Some s \<and> i \<notin> set (outcome_keys d)"

lemma hoare_settle:
  assumes "\<And>s. g s \<Longrightarrow> \<not> terminal s"
  shows "hoare (inv_read ts)
    (bindE readClock (\<lambda>now. bindE (mapErr PayErr (exec (stmt_settle g i st ref now))) (\<lambda>n. retE (0 < n))))
    (\<lambda>applied d. inv_read ts d \<and> (applied \<longrightarrow> announceable ts i st d)) (inv_read ts)"
proof (rule hoare_bindE [OF hoare_readClock], rule hoare_bindE)
  fix now
  show "hoare (inv_read ts) (mapErr PayErr (exec (stmt_settle g i st ref now)))
    (\<lambda>n d. inv_read ts d \<and> (0 < n \<longrightarrow> announceable ts i st d)) (inv_read ts)"
  proof (intro hoare_mapErr hoare_exec)
    show main: "inv_read ts d' \<and> (0 < n \<longrightarrow> announceable ts i st d')"
      if I: "inv_read ts d" and s: "stmt_settle g i st ref now d = Inr (n, d')" for d n d'
    proof -
      have inv: "pay_inv d" using I by (simp add: inv_read_def)
      have "inv_read ts d'"
        by (rule inv_read_step [OF I stmt_settle_inv [OF s assms inv] stmt_settle_moves [OF s assms]])
      then show ?thesis using stmt_settle_applied [OF s _ assms inv] by (auto simp: announceable_def)
    qed
    show "inv_read ts d'" if "inv_read ts d" "stmt_settle g i st ref now d = Inr (n, d')" for d n d'
      using main [OF that] by blast
  qed
qed (rule hoare_retE, simp)

lemma TransitionIfActive_triple:
  "hoare (inv_read ts) (txn_TransitionIfActive i st ref)
     (\<lambda>applied d. inv_read ts d \<and> (applied \<longrightarrow> announceable ts i st d)) (inv_read ts)"
  unfolding txn_TransitionIfActive_def by (rule hoare_settle) (rule active_not_terminal)

lemma TransitionIfInitiated_inv: "preserves (inv_read ts) (txn_TransitionIfInitiated i st ref)"
  unfolding txn_TransitionIfInitiated_def hoare_preserves [symmetric]
  by (rule hoare_post [OF hoare_settle]) auto

lemma announce_insert:
  assumes "outcome_of topic = Some s"
  shows "hoare (announceable ts i s) (outbox_Insert topic i payload) (\<lambda>_. inv_read ts) (inv_read ts)"
proof (rule hoare_outbox_Insert)
  show "inv_read ts (d\<lparr>outbox := outbox d @ [r], outbox_seq := Suc (outbox_seq d)\<rparr>)"
    if "announceable ts i s d" "ob_Topic r = topic" "ob_Key r = i" for d r
    using that assms outbox_append_inv [of d r s] by (simp add: announceable_def inv_read_def)
qed (simp add: announceable_def)

lemma emit_triple:
  "hoare (announceable ts (tx_ID t) StatusCompleted) (emit_completed t) (\<lambda>_. inv_read ts) (inv_read ts)"
  "hoare (announceable ts (tx_ID t) StatusExpired) (emit_expired reason t) (\<lambda>_. inv_read ts) (inv_read ts)"
  unfolding emit_completed_def emit_expired_def
  by (intro hoare_bindE [OF hoare_readClock] hoare_ignoreE [OF announce_insert] hoare_retE; simp add: outcome_of_def)+

lemma stmt_update_read:
  assumes "\<And>t. tx_ID (f t) = tx_ID t" "\<And>t. tx_BookingID (f t) = tx_BookingID t"
      "\<And>t. tx_AmountRupiah (f t) = tx_AmountRupiah t" "\<And>t. tx_Status (f t) = tx_Status t"
  shows "preserves (inv_read ts) (exec (stmt_update_txn P f))"
proof (rule preserves_exec)
  fix d n d' assume I: "inv_read ts d" and s: "stmt_update_txn P f d = Inr (n, d')"
  show "inv_read ts d'"
    using stmt_update_inv [OF s _ assms] inv_read_step [OF I] I by (auto simp: inv_read_def)
qed

lemma txn_writes_inv [preserve]:
  "preserves (inv_read ts) (txn_UpdateSession i ref url)"
  "preserves (inv_read ts) (txn_UpdateRefundStatus i st)"
  unfolding txn_UpdateSession_def txn_UpdateRefundStatus_def
  by (intro preserve stmt_update_read; simp)+

lemma txn_Create_inv [preserve]: "preserves (inv_read ts) (txn_Create t)"
  unfolding txn_Create_def
proof (intro preserve)
  fix now d u d' assume I: "inv_read ts d" and s: "stmt_insert_txn t now d = Inr (u, d')"
  show "inv_read ts d'"
    using stmt_insert_txn_inv [OF s] inv_read_step [OF I] I by (auto simp: inv_read_def)
qed

lemma refund_Create_inv:
  assumes "t \<in> set ts"
    and "tx_Status t = StatusExpired \<and> prefix = ''late-payment:'' \<or> tx_Status t = StatusCompleted \<and> prefix = ''event-cancelled:''"
  shows "preserves (inv_read ts) (refund_Create (refund_for i reason prefix t))"
  unfolding refund_Create_def
proof (intro preserve)
  fix now d u d' assume I: "inv_read ts d" and s: "stmt_insert_refund (refund_for i reason prefix t) now d = Inr (u, d')"
  show "inv_read ts d'"
    using stmt_insert_refund_inv [OF s _ _ assms(2)] stmt_insert_refund_moves [OF s] inv_read_step [OF I] I assms(1)
    by (auto simp: inv_read_def)
qed

lemma gateway_inv [preserve]:
  "preserves (inv_read ts) (CreateSession s r a c e ch em)" "preserves (inv_read ts) (CancelSession s ref)"
  by (simp_all add: preserves_def CreateSession_def CancelSession_def log_call_def inv_read_def)

section \<open>The handlers\<close>

lemma select_txn_read:
  assumes "select_txn q w = (Inr t, w')" "\<And>ts. set (q ts) \<subseteq> set ts"
  shows "db w' = db w \<and> t \<in> set (transactions (db w)) \<and> t \<in> set (q (transactions (db w)))"
proof -
  have "db w' = db w" by (rule read_onlyD [OF read_only_select_txn assms(1)])
  moreover have "t \<in> set (q (transactions (db w)))"
    using assms(1) exec_Inr(1) unfolding select_txn_def by (fastforce simp: run_inv split: list.splits)
  ultimately show ?thesis using assms(2) by blast
qed

lemma FindByBookingID_read:
  assumes "txn_FindByBookingID b w = (Inr t, w')"
  shows "db w' = db w \<and> t \<in> set (transactions (db w)) \<and> tx_BookingID t = b"
  using select_txn_read [OF assms [unfolded txn_FindByBookingID_def]] by auto

lemma FindByBookingID_triple:
  "hoare (inv_read us) (txn_FindByBookingID b) (\<lambda>t. inv_read (t # us)) (inv_read us)"
proof (rule hoareI)
  fix w e and w' :: "payment_db world"
  assume "inv_read us (db w)" "txn_FindByBookingID b w = (Inl e, w')"
  then show "inv_read us (db w')" using read_onlyD [OF read_only_txn_queries(2)] by metis
next
  fix w t w' assume "inv_read us (db w)" "txn_FindByBookingID b w = (Inr t, w')"
  with FindByBookingID_read [of b w t w'] show "inv_read (t # us) (db w')"
    by (simp add: inv_read_def read_of_here)
qed

lemma list_txns_triple:
  assumes "\<And>rows ts. q rows = Inr ts \<Longrightarrow> set ts \<subseteq> set rows"
  shows "hoare (inv_read us) (list_txns q) (\<lambda>ts. inv_read (ts @ us)) (inv_read us)"
  unfolding list_txns_def
proof (rule hoare_mapErr, rule hoare_exec)
  fix d ts d' assume I: "inv_read us d" and
    q: "(case q (transactions d) of Inl e \<Rightarrow> Inl e | Inr ts \<Rightarrow> Inr (ts, d)) = Inr (ts, d')"
  then have "q (transactions d) = Inr ts" "d' = d" by (auto split: sum.splits)
  with I assms show "inv_read (ts @ us) d'" by (fastforce simp: inv_read_def intro: read_of_here)
qed (auto split: sum.splits)

text \<open>The copies a handler made itself are forgotten when it returns.\<close>

lemma handler_inv:
  "preserves (inv_read ts) f \<Longrightarrow> set us \<subseteq> set ts \<Longrightarrow> hoare (inv_read ts) f (\<lambda>_. inv_read us) (inv_read us)"
  using hoare_post [of "inv_read ts" f "\<lambda>_. inv_read ts" "inv_read ts" "\<lambda>_. inv_read us" "inv_read us"]
  by (auto simp: hoare_preserves inv_read_def)

lemma requestLatePaymentRefund_inv:
  assumes "t \<in> set ts" "tx_Status t = StatusExpired"
  shows "preserves (inv_read ts) (requestLatePaymentRefund t)"
  unfolding requestLatePaymentRefund_def
  by (intro preserve refund_Create_inv) (use assms in simp_all)

lemma webhook_completed_inv: "t \<in> set ts \<Longrightarrow> preserves (inv_read ts) (webhook_completed t)"
  unfolding webhook_completed_def hoare_preserves [symmetric]
proof (rule hoare_bindE [OF TransitionIfActive_triple], intro hoare_if)
  fix applied assume t: "t \<in> set ts"
  let ?P = "\<lambda>d. inv_read ts d \<and> (applied \<longrightarrow> announceable ts (tx_ID t) StatusCompleted d)"
  show "hoare ?P (emit_completed t) (\<lambda>_. inv_read ts) (inv_read ts)" if applied
    by (rule hoare_pre [OF emit_triple(1)]) (use that in simp)
  show "hoare ?P (requestLatePaymentRefund t) (\<lambda>_. inv_read ts) (inv_read ts)" if "tx_Status t = StatusExpired"
    by (rule hoare_pre [OF requestLatePaymentRefund_inv [OF t that, folded hoare_preserves]]) simp
qed (auto intro: hoare_retE)

lemma settle_expired_triple:
  "hoare (\<lambda>d. inv_read ts d \<and> (applied \<longrightarrow> announceable ts (tx_ID t) StatusExpired d))
     (if applied then emit_expired reason t else retE ()) (\<lambda>_. inv_read ts) (inv_read ts)"
  by (intro hoare_if) (auto intro: hoare_pre [OF emit_triple(2)] hoare_retE)

lemma webhook_expired_inv: "preserves (inv_read ts) (webhook_expired t)"
  unfolding webhook_expired_def hoare_preserves [symmetric]
  by (rule hoare_bindE [OF TransitionIfActive_triple settle_expired_triple])

lemma HandleSessionWebhook_inv: "preserves (inv_read us) (HandleSessionWebhook payload)"
proof (cases "Option.bind payload unmarshal_webhook")
  case None
  then show ?thesis by (simp add: HandleSessionWebhook_def preserves_failE)
next
  case (Some ev)
  have "preserves (inv_read us) (bindE (txn_FindByBookingID (wh_ReferenceID ev)) (\<lambda>txn.
            if sessionID ev \<noteq> '''' \<and> sessionID ev \<noteq> tx_ProviderRef txn then retE ()
            else if wh_Event ev = ''payment_session.completed'' then webhook_completed txn
            else if wh_Event ev = ''payment_session.expired'' then webhook_expired txn
            else retE ()))"
    unfolding hoare_preserves [symmetric]
    by (rule hoare_bindE [OF FindByBookingID_triple], rule handler_inv)
      (auto intro: preserve webhook_completed_inv webhook_expired_inv)
  then show ?thesis
    unfolding HandleSessionWebhook_def Some option.case by (intro preserves_if preserves_failE)
qed

lemma expire_one_inv [preserve]: "preserves (inv_read ts) (expire_one s t)"
proof -
  have "hoare (inv_read ts) (handleE (txn_TransitionIfActive (tx_ID t) StatusExpired (tx_ProviderRef t))
            (\<lambda>_. retE ()) (\<lambda>applied. if \<not> applied then retE () else emit_expired ''internal_expiry_fallback'' t))
          (\<lambda>_. inv_read ts) (inv_read ts)"
    by (intro hoare_handleE [OF TransitionIfActive_triple])
      (auto intro: hoare_retE hoare_pre [OF emit_triple(2)])
  then show ?thesis
    unfolding expire_one_def Let_def hoare_preserves
    by (intro preserves_if preserves_ignoreE gateway_inv)
qed

lemma expire_each_inv [preserve]: "preserves (inv_read us) (expire_each s ts)"
  by (induction ts) (auto intro: preserve)

lemma ProcessExpired_inv: "preserves (inv_read us) (ProcessExpired s lim)"
  unfolding ProcessExpired_def hoare_preserves [symmetric] txn_ListActiveExpired_def
proof (rule hoare_bindE [OF hoare_readClock], rule hoare_bindE [OF list_txns_triple])
  show "hoare (inv_read (ts @ us)) (expire_each s ts) (\<lambda>_. inv_read us) (inv_read us)" for ts
    by (rule handler_inv) (auto intro: preserve)
qed (auto simp: limit_offset_def split: if_splits dest: in_set_takeD)

lemma refund_cancelled_inv: "t \<in> set us \<Longrightarrow> preserves (inv_read us) (refund_cancelled t)"
  unfolding refund_cancelled_def by (intro preserve refund_Create_inv) simp_all

lemma refund_each_inv: "set ts \<subseteq> set us \<Longrightarrow> preserves (inv_read us) (refund_each ts)"
  by (induction ts) (auto intro: preserve refund_cancelled_inv)

lemma HandleEventCancelled_inv [preserve]: "preserves (inv_read us) (HandleEventCancelled ev)"
  unfolding HandleEventCancelled_def hoare_preserves [symmetric] txn_ListByEventID_def
  by (rule hoare_bindE [OF list_txns_triple]) (auto intro!: handler_inv refund_each_inv)

lemma on_event_cancelled_inv: "preserves (inv_read us) (on_event_cancelled payload)"
  unfolding on_event_cancelled_def by (auto intro: preserve split: option.split)

lemma InitiateTxnForBooking_inv: "preserves (inv_read us) (InitiateTxnForBooking s b e u em a x)"
  unfolding InitiateTxnForBooking_def Let_def
  by (intro preserve read_only_preserves read_only_txn_queries)

lemma read_only_deadline [reading]: "read_only (deadline_passed x)"
  by (cases x) (auto simp: deadline_passed_def intro!: reading)

lemma ProcessPayment_inv: "preserves (inv_read us) (ProcessPayment s b u)"
  unfolding ProcessPayment_def Let_def
  by (intro preserve TransitionIfInitiated_inv read_only_preserves reading)

text \<open>The outbox worker only marks rows.\<close>

lemma mark_delivered_inv: "preserves (inv_read us) (mark_delivered i)"
proof (rule preservesI)
  fix w :: "payment_db world" assume I: "inv_read us (db w)"
  have "map ob_Key (filter (\<lambda>r. outcome_of (ob_Topic r) \<noteq> None) (update_where (\<lambda>r. ob_ID r = i) (\<lambda>r. r\<lparr>ob_Delivered := True\<rparr>) rs)) =
      map ob_Key (filter (\<lambda>r. outcome_of (ob_Topic r) \<noteq> None) rs)" for rs
    by (induction rs) auto
  then have "outcome_keys (mark_row i (db w)) = outcome_keys (db w)" by (simp add: outcome_keys_def)
  then have "inv_read us (mark_row i (db w))"
    using I by (auto simp: inv_read_def pay_inv_def read_of_def refund_ok_def txn_status_def table_simps)
  with I mark_delivered_cases [of i w] show "inv_read us (db (snd (mark_delivered i w)))" by metis
qed

section \<open>Sequences of calls\<close>

text \<open>Everything that runs against the payment database, in any order and with any faults.\<close>

datatype payment_call =
    CallInitiate PaymentService string string string string int time
  | CallProcess PaymentService string string
  | CallWebhook "json option"
  | CallPoll PaymentService int
  | CallEventCancelled "json option"
  | CallMarkDelivered nat

fun run_payment :: "payment_call \<Rightarrow> payment_db world \<Rightarrow> payment_db world" where
  "run_payment (CallInitiate s b e u em a x) w = snd (InitiateTxnForBooking s b e u em a x w)"
| "run_payment (CallProcess s b u) w = snd (ProcessPayment s b u w)"
| "run_payment (CallWebhook p) w = snd (HandleSessionWebhook p w)"
| "run_payment (CallPoll s lim) w = snd (ProcessExpired s lim w)"
| "run_payment (CallEventCancelled p) w = snd (on_event_cancelled p w)"
| "run_payment (CallMarkDelivered i) w = snd (mark_delivered i w)"

inductive payment_reach :: "payment_db \<Rightarrow> payment_db \<Rightarrow> bool" where
  here: "payment_reach d d"
| call: "payment_reach d (db w) \<Longrightarrow> payment_reach d (db (run_payment c w))"

lemma run_payment_inv: "inv_read us (db w) \<Longrightarrow> inv_read us (db (run_payment c w))"
  by (cases c)
    (simp_all add: preservesD [OF InitiateTxnForBooking_inv] preservesD [OF ProcessPayment_inv]
      preservesD [OF HandleSessionWebhook_inv] preservesD [OF ProcessExpired_inv]
      preservesD [OF on_event_cancelled_inv] preservesD [OF mark_delivered_inv])

lemma payment_reach_inv: "payment_reach d d' \<Longrightarrow> inv_read us d \<Longrightarrow> inv_read us d'"
  by (induction rule: payment_reach.induct) (auto intro: run_payment_inv)

text \<open>What the invariant says about one transaction.\<close>

lemma pay_inv_single:
  assumes inv: "pay_inv d'"
  shows "length (filter (\<lambda>r. outcome_of (ob_Topic r) \<noteq> None \<and> ob_Key r = i) (outbox d')) \<le> 1 \<and>
    (\<forall>r \<in> set (outbox d'). \<forall>s. outcome_of (ob_Topic r) = Some s \<longrightarrow> txn_status d' (ob_Key r) = Some s) \<and>
    length (filter (\<lambda>r. rf_TransactionID r = i) (refund_requests d')) \<le> 1 \<and>
    (\<forall>r \<in> set (refund_requests d'). refund_ok d' r)"
proof -
  have "count_where (\<lambda>r. ob_Key r = i \<and> True) (filter (\<lambda>r. outcome_of (ob_Topic r) \<noteq> None) (outbox d')) \<le> 1"
    by (rule count_where_key) (use inv in \<open>simp add: pay_inv_def outcome_keys_def\<close>)
  then have one: "length (filter (\<lambda>r. outcome_of (ob_Topic r) \<noteq> None \<and> ob_Key r = i) (outbox d')) \<le> 1"
    by (simp add: count_where_def conj_commute)
  define k where "k = (if txn_status d' i = Some StatusExpired then ''late-payment:'' else ''event-cancelled:'') @ i"
  have key: "rf_IdempotencyKey r = k" if r: "r \<in> set (refund_requests d')" "rf_TransactionID r = i" for r
  proof -
    have "refund_ok d' r" using inv r by (simp add: pay_inv_def)
    then obtain t where t: "t \<in> set (transactions d')" "tx_ID t = i" "refund_key_ok t (rf_IdempotencyKey r)"
      using r(2) by (auto simp: refund_ok_def)
    have "txn_status d' i = Some (tx_Status t)"
      using pay_schema_find [OF _ t(1,2)] inv by (simp add: pay_inv_def txn_status_def)
    with t show ?thesis by (auto simp: refund_key_ok_def k_def)
  qed
  have "filter (\<lambda>r. rf_TransactionID r = i) (refund_requests d') =
      filter (\<lambda>r. rf_IdempotencyKey r = k \<and> rf_TransactionID r = i) (refund_requests d')"
    using key by (auto intro!: filter_cong)
  also have "length \<dots> \<le> 1"
    using count_where_key [of rf_IdempotencyKey "refund_requests d'" k "\<lambda>r. rf_TransactionID r = i"] inv
    by (simp add: count_where_def pay_inv_def pay_schema_def)
  finally show ?thesis using one inv by (simp add: pay_inv_def)
qed

text \<open>
  Whatever calls, webhooks, polls and Kafka messages the payment service handles, in
  whatever order and with whatever statements failing, a transaction is announced at most once, the
  announcement agrees with its status, and at most one refund is requested for it, of exactly
  its amount, for a reason that agrees with its status.
\<close>

theorem payment_single_outcome:
  assumes "pay_inv d" "payment_reach d d'"
  shows "length (filter (\<lambda>r. outcome_of (ob_Topic r) \<noteq> None \<and> ob_Key r = i) (outbox d')) \<le> 1 \<and>
    (\<forall>r \<in> set (outbox d'). \<forall>s. outcome_of (ob_Topic r) = Some s \<longrightarrow> txn_status d' (ob_Key r) = Some s) \<and>
    length (filter (\<lambda>r. rf_TransactionID r = i) (refund_requests d')) \<le> 1 \<and>
    (\<forall>r \<in> set (refund_requests d'). refund_ok d' r)"
  using payment_reach_inv [OF assms(2), of "[]"] assms(1) by (intro pay_inv_single) (simp add: inv_read_def)

text \<open>
  A transaction is never deleted, its booking and its amount never change, and once it
  is completed or expired it stays so, whatever the payment service handles afterwards.
\<close>

theorem payment_final:
  assumes "pay_inv d" "payment_reach d d'" "t \<in> set (transactions d)"
  shows "\<exists>t' \<in> set (transactions d'). tx_ID t' = tx_ID t \<and> tx_BookingID t' = tx_BookingID t \<and>
    tx_AmountRupiah t' = tx_AmountRupiah t \<and>
    (tx_Status t \<in> {StatusCompleted, StatusExpired} \<longrightarrow> tx_Status t' = tx_Status t)"
  using payment_reach_inv [OF assms(2), of "[t]"] assms(1,3) read_of_here
  by (auto simp: inv_read_def read_of_def terminal_def)

end
