(* ===== verification/Payment_Paths.thy ===== *)
theory Payment_Paths
  imports Payment_Invariant
begin

text \<open>
  What the operations of the payment service do on a healthy database, path by path, and the race
  between webhooks and the expiry poller.
\<close>

section \<open>Statements on a healthy database\<close>

lemma filter_booking:
  assumes "pay_schema d" "t \<in> set (transactions d)" "tx_BookingID t = b"
  shows "filter (\<lambda>x. tx_BookingID x = b) (transactions d) = [t]"
proof -
  have "distinct (map tx_BookingID xs) \<Longrightarrow> t \<in> set xs \<Longrightarrow> filter (\<lambda>x. tx_BookingID x = b) xs = [t]" for xs
    using assms(3) by (induction xs) (auto simp: filter_empty_conv image_iff)
  with assms show ?thesis by (simp add: pay_schema_def)
qed

lemma FindByBookingID_calm:
  assumes "calm w" "pay_schema (db w)" "t \<in> set (transactions (db w))" "tx_BookingID t = b"
  shows "txn_FindByBookingID b w = (Inr t, w)"
  using assms(1) filter_booking [OF assms(2-4)]
  by (simp add: txn_FindByBookingID_def select_txn_def order_desc_def mapErr_def run_stmt_def)

definition settle_row :: "string \<Rightarrow> string \<Rightarrow> string \<Rightarrow> time \<Rightarrow> payment_db \<Rightarrow> payment_db" where
  "settle_row i st ref now d = d\<lparr>transactions := update_where (\<lambda>t. tx_ID t = i)
     (\<lambda>t. t\<lparr>tx_Status := st, tx_ProviderRef := ref, tx_UpdatedAt := now\<rparr>) (transactions d)\<rparr>"

lemma txn_check_settle:
  "txn_check t \<Longrightarrow> st \<in> {StatusPending, StatusCompleted, StatusExpired} \<Longrightarrow>
   txn_check (t\<lparr>tx_Status := st, tx_ProviderRef := ref, tx_UpdatedAt := now\<rparr>)"
  by (auto simp: txn_check_def)

lemma txn_row:
  assumes "pay_schema d" "txn_status d i = Some s"
  obtains t where "t \<in> set (transactions d)" "tx_ID t = i" "tx_Status t = s" "txn_check t"
    "\<And>x. x \<in> set (transactions d) \<Longrightarrow> tx_ID x = i \<Longrightarrow> x = t"
proof -
  obtain t where t: "find (\<lambda>x. tx_ID x = i) (transactions d) = Some t" "tx_Status t = s"
    using assms(2) by (auto simp: txn_status_def)
  show thesis
  proof (rule that)
    show "x = t" if "x \<in> set (transactions d)" "tx_ID x = i" for x
      using pay_schema_find [OF assms(1) that] t(1) by simp
  qed (use find_SomeD [OF t(1)] t(2) assms(1) in \<open>auto simp: pay_schema_def\<close>)
qed

lemma stmt_settle_hit:
  assumes "pay_schema d" "txn_status d i = Some s" "g s" "st \<in> {StatusPending, StatusCompleted, StatusExpired}"
  shows "\<exists>n. stmt_settle g i st ref now d = Inr (n, settle_row i st ref now d) \<and> 0 < n"
proof -
  obtain t where t: "t \<in> set (transactions d)" "tx_ID t = i" "tx_Status t = s" "txn_check t"
    "\<And>x. x \<in> set (transactions d) \<Longrightarrow> tx_ID x = i \<Longrightarrow> x = t" by (rule txn_row [OF assms(1,2)]) blast
  have same: "g (tx_Status x)" "txn_check x" if "x \<in> set (transactions d)" "tx_ID x = i" for x
    using t(5) [OF that] t(3,4) assms(3) by simp_all
  have "update_where (\<lambda>t. tx_ID t = i \<and> g (tx_Status t)) f (transactions d) = update_where (\<lambda>t. tx_ID t = i) f (transactions d)" for f
    using same by (auto simp: update_where_def)
  moreover have "0 < count_where (\<lambda>t. tx_ID t = i \<and> g (tx_Status t)) (transactions d)"
    using t(1-3) assms(3) by (auto simp: count_where_0 simp flip: neq0_conv)
  moreover have "\<not> (\<exists>x \<in> set (transactions d). (tx_ID x = i \<and> g (tx_Status x)) \<and>
      \<not> txn_check (x\<lparr>tx_Status := st, tx_ProviderRef := ref, tx_UpdatedAt := now\<rparr>))"
    using same(2) txn_check_settle [OF _ assms(4)] by blast
  ultimately show ?thesis by (simp add: stmt_settle_def stmt_update_txn_def settle_row_def)
qed

lemma stmt_settle_miss:
  assumes "pay_schema d" "\<And>s. txn_status d i = Some s \<Longrightarrow> \<not> g s"
  shows "stmt_settle g i st ref now d = Inr (0, d)"
proof -
  have none: "\<not> (tx_ID t = i \<and> g (tx_Status t))" if "t \<in> set (transactions d)" for t
    using pay_schema_find [OF assms(1) that, of i] assms(2) by (auto simp: txn_status_def)
  then have "update_where (\<lambda>t. tx_ID t = i \<and> g (tx_Status t)) f (transactions d) = transactions d" for f
    by (intro update_where_none)
  with none show ?thesis by (auto simp: stmt_settle_def stmt_update_txn_def count_where_0)
qed

lemma settle_row_status:
  assumes "txn_status d i = Some s"
  shows "txn_status (settle_row i st ref now d) = (txn_status d)(i \<mapsto> st)"
proof
  fix j
  show "txn_status (settle_row i st ref now d) j = ((txn_status d)(i \<mapsto> st)) j"
    using assms
    by (auto simp: txn_status_def settle_row_def find_update_where option.map_comp comp_def
        split: if_splits dest: find_SomeD intro!: option.map_cong)
qed

lemma settle_row_schema:
  assumes "pay_schema d" "st \<in> {StatusPending, StatusCompleted, StatusExpired}"
  shows "pay_schema (settle_row i st ref now d)"
proof (cases "txn_status d i")
  case None
  then have "update_where (\<lambda>t. tx_ID t = i) f (transactions d) = transactions d" for f
    by (intro update_where_none) (auto simp: txn_status_def find_None_iff_ball)
  with assms(1) show ?thesis by (simp add: settle_row_def)
next
  case (Some s)
  then obtain n where "stmt_settle (\<lambda>_. True) i st ref now d = Inr (n, settle_row i st ref now d)"
    using stmt_settle_hit [OF assms(1) Some, of "\<lambda>_. True" st ref now] assms(2) by auto
  then show ?thesis by (rule stmt_settle_schema [OF _ assms(1)])
qed

section \<open>Races between webhooks and the poller\<close>

text \<open>
  The guarded update of \<^verbatim>\<open>TransitionIfActive\<close>, as a decision: all callers that settle a
  transaction go through it.
\<close>

definition settle_active :: "string \<Rightarrow> time \<Rightarrow> string \<Rightarrow> string \<Rightarrow> payment_db \<Rightarrow> bool \<times> payment_db" where
  "settle_active ref now i st = decide (stmt_settle (\<lambda>s. s \<in> set ActiveStatuses) i st ref now)"

interpretation txn_race: guarded_status txn_status "settle_active ref now" "\<lambda>s. s \<in> set ActiveStatuses"
  "\<lambda>s. s \<in> {StatusCompleted, StatusExpired}" pay_schema for ref now
proof
  show "\<exists>d'. settle_active ref now i st d = (True, d') \<and> txn_status d' = (txn_status d)(i \<mapsto> st) \<and> pay_schema d'"
    if "pay_schema d" "txn_status d i = Some s" "s \<in> set ActiveStatuses" "st \<in> {StatusCompleted, StatusExpired}" for d i s st
    using stmt_settle_hit [OF that(1,2), of "\<lambda>s. s \<in> set ActiveStatuses" st ref now] that
      settle_row_status [OF that(2)] settle_row_schema [OF that(1)]
    by (auto simp: settle_active_def decide_def)
  show "settle_active ref now i st d = (False, d)"
    if "pay_schema d" "\<forall>s. txn_status d i = Some s \<longrightarrow> s \<notin> set ActiveStatuses" for d i st
    using stmt_settle_miss [OF that(1), of i "\<lambda>s. s \<in> set ActiveStatuses" st ref now] that(2)
    by (auto simp: settle_active_def decide_def)
qed

text \<open>
  However often and in whatever order the completion webhook, the expiry webhook and the
  expiry poller try to settle an active transaction, it takes the status of the first of them, and
  exactly one of them is told that its transition was applied (and so announces the outcome).
\<close>

theorem payment_race_decided:
  assumes "pay_schema d" "txn_status d i = Some s" "s \<in> {StatusInitiated, StatusPending}"
    and "\<forall>(j, st) \<in> set ms. st \<in> {StatusCompleted, StatusExpired}"
    and "find (\<lambda>(j, st). j = i) ms = Some (i, st)"
  shows "txn_status (snd (txn_race.moves ref now ms d)) i = Some st \<and>
    txn_race.winners i ms (fst (txn_race.moves ref now ms d)) = 1"
proof (rule txn_race.first_mover_wins [OF assms(1,2) _ _ assms(5)])
  show "\<forall>(j, t) \<in> set ms. t \<in> {StatusCompleted, StatusExpired} \<and> \<not> t \<in> set ActiveStatuses"
    using assms(4) by (fastforce simp: ActiveStatuses_def)
qed (use assms(3) in \<open>auto simp: ActiveStatuses_def\<close>)

section \<open>Webhooks\<close>

lemma TransitionIfActive_hit:
  assumes "calm w" "pay_schema (db w)" "txn_status (db w) i = Some s" "s \<in> set ActiveStatuses"
    and "st \<in> {StatusCompleted, StatusExpired}"
  shows "txn_TransitionIfActive i st ref w =
    (Inr True, w\<lparr>ticks := Suc (ticks w), db := settle_row i st ref (clock w (ticks w)) (db w)\<rparr>)"
proof -
  obtain n where "stmt_settle (\<lambda>s. s \<in> set ActiveStatuses) i st ref (clock w (ticks w)) (db w) =
      Inr (n, settle_row i st ref (clock w (ticks w)) (db w))" "0 < n"
    using stmt_settle_hit [OF assms(2,3), of "\<lambda>s. s \<in> set ActiveStatuses" st ref] assms(4,5) by blast
  with assms(1) show ?thesis
    by (simp add: txn_TransitionIfActive_def bindE_def readClock_def mapErr_def run_stmt_def retE_def)
qed

lemma TransitionIfActive_miss:
  assumes "calm w" "pay_schema (db w)" "\<And>s. txn_status (db w) i = Some s \<Longrightarrow> s \<notin> set ActiveStatuses"
  shows "txn_TransitionIfActive i st ref w = (Inr False, w\<lparr>ticks := Suc (ticks w)\<rparr>)"
  using assms(1) stmt_settle_miss [OF assms(2), of i "\<lambda>s. s \<in> set ActiveStatuses" st ref] assms(3)
  by (cases w) (simp add: txn_TransitionIfActive_def bindE_def readClock_def mapErr_def run_stmt_def retE_def)

definition completed_row :: "Transaction \<Rightarrow> payment_db world \<Rightarrow> outbox_row" where
  "completed_row t w = queued_row w ''payment.completed'' (tx_ID t) (marshal_PaymentCompleted
     \<lparr>pc_TransactionID = tx_ID t, pc_BookingID = tx_BookingID t, pc_EventID = tx_EventID t,
      pc_UserID = tx_UserID t, pc_At = clock w (ticks w)\<rparr>)"

definition expired_row :: "string \<Rightarrow> Transaction \<Rightarrow> payment_db world \<Rightarrow> outbox_row" where
  "expired_row reason t w = queued_row w ''payment.expired'' (tx_ID t) (marshal_PaymentExpired
     \<lparr>px_TransactionID = tx_ID t, px_BookingID = tx_BookingID t, px_EventID = tx_EventID t,
      px_UserID = tx_UserID t, px_Reason = reason, px_At = clock w (ticks w)\<rparr>)"

definition queue :: "outbox_row \<Rightarrow> payment_db \<Rightarrow> payment_db" where
  "queue m d = d\<lparr>outbox := outbox d @ [m], outbox_seq := Suc (outbox_seq d)\<rparr>"

lemma queue_sel [simp]:
  "transactions (queue m d) = transactions d" "refund_requests (queue m d) = refund_requests d"
  "outbox (queue m d) = outbox d @ [m]" "gateway_calls (queue m d) = gateway_calls d" "txn_status (queue m d) = txn_status d"
  "pay_schema (queue m d) = pay_schema d"
  by (simp_all add: queue_def txn_status_def fun_eq_iff)

lemma settle_row_sel [simp]:
  "refund_requests (settle_row i st ref now d) = refund_requests d" "outbox (settle_row i st ref now d) = outbox d"
  "gateway_calls (settle_row i st ref now d) = gateway_calls d"
  by (simp_all add: settle_row_def)

lemma emit_calm:
  assumes "calm w"
  shows "emit_completed t w = (Inr (), w\<lparr>ticks := Suc (ticks w), db := queue (completed_row t w) (db w)\<rparr>)"
    and "emit_expired reason t w = (Inr (), w\<lparr>ticks := Suc (ticks w), db := queue (expired_row reason t w) (db w)\<rparr>)"
  using assms
  by (simp_all add: emit_completed_def emit_expired_def bindE_def readClock_def ignoreE_def outbox_Insert_calm retE_def
      queue_def completed_row_def expired_row_def queued_row_def)

lemma outcome_rows [simp]:
  "ob_Topic (completed_row t w) = ''payment.completed''" "\<not> ob_Delivered (completed_row t w)"
  "ob_Topic (expired_row r t w) = ''payment.expired''" "\<not> ob_Delivered (expired_row r t w)"
  "map_option pc_BookingID (unmarshal_PaymentCompleted (ob_Payload (completed_row t w))) = Some (tx_BookingID t)"
  "map_option px_BookingID (unmarshal_PaymentExpired (ob_Payload (expired_row r t w))) = Some (tx_BookingID t)"
  "map_option px_Reason (unmarshal_PaymentExpired (ob_Payload (expired_row r t w))) = Some r"
  by (simp_all add: completed_row_def expired_row_def)

lemma txn_status_row:
  "pay_schema d \<Longrightarrow> t \<in> set (transactions d) \<Longrightarrow> txn_status d (tx_ID t) = Some (tx_Status t)"
  using pay_schema_find [of d t "tx_ID t"] by (simp add: txn_status_def)

lemma webhook_dispatch:
  assumes "calm w" "pay_schema (db w)" "t \<in> set (transactions (db w))"
    and "Option.bind payload unmarshal_webhook = Some ev" "wh_ReferenceID ev = tx_BookingID t" "tx_BookingID t \<noteq> ''''"
    and "sessionID ev = '''' \<or> sessionID ev = tx_ProviderRef t"
  shows "HandleSessionWebhook payload w =
    (if wh_Event ev = ''payment_session.completed'' then webhook_completed t w
     else if wh_Event ev = ''payment_session.expired'' then webhook_expired t w else (Inr (), w))"
  using assms(4-7) FindByBookingID_calm [OF assms(1-3) refl]
  by (auto simp: HandleSessionWebhook_def bindE_def retE_def)

lemma webhook_completed_run:
  assumes "calm w" "pay_schema (db w)" "t \<in> set (transactions (db w))"
    and "Option.bind payload unmarshal_webhook = Some ev" "wh_Event ev = ''payment_session.completed''"
    and "wh_ReferenceID ev = tx_BookingID t" "tx_BookingID t \<noteq> ''''"
    and "sessionID ev = '''' \<or> sessionID ev = tx_ProviderRef t"
  shows "if tx_Status t \<in> set ActiveStatuses then
      \<exists>w' m. HandleSessionWebhook payload w = (Inr (), w') \<and>
        txn_status (db w') = (txn_status (db w))(tx_ID t \<mapsto> StatusCompleted) \<and>
        outbox (db w') = outbox (db w) @ [m] \<and> ob_Topic m = ''payment.completed'' \<and> \<not> ob_Delivered m \<and>
        map_option pc_BookingID (unmarshal_PaymentCompleted (ob_Payload m)) = Some (tx_BookingID t) \<and>
        refund_requests (db w') = refund_requests (db w)
    else tx_Status t = StatusCompleted \<longrightarrow>
      (\<exists>w'. HandleSessionWebhook payload w = (Inr (), w') \<and> db w' = db w)"
proof -
  have run: "HandleSessionWebhook payload w = webhook_completed t w"
    using webhook_dispatch [OF assms(1-4,6-8)] assms(5) by simp
  note st = txn_status_row [OF assms(2,3)]
  show ?thesis
  proof (cases "tx_Status t \<in> set ActiveStatuses")
    case True
    let ?w = "w\<lparr>ticks := Suc (ticks w), db := settle_row (tx_ID t) StatusCompleted (tx_ProviderRef t) (clock w (ticks w)) (db w)\<rparr>"
    have "calm ?w" using assms(1) by simp
    from emit_calm(1) [OF this, of t] True show ?thesis
      using TransitionIfActive_hit [OF assms(1,2) st True, of StatusCompleted "tx_ProviderRef t"] settle_row_status [OF st]
      by (auto simp: run webhook_completed_def bindE_def simp del: map_option_eq_Some)
  next
    case False
    with TransitionIfActive_miss [OF assms(1,2), of "tx_ID t"] st show ?thesis
      by (auto simp: run webhook_completed_def bindE_def retE_def)
  qed
qed

lemma webhook_expired_run:
  assumes "calm w" "pay_schema (db w)" "t \<in> set (transactions (db w))"
    and "Option.bind payload unmarshal_webhook = Some ev" "wh_Event ev = ''payment_session.expired''"
    and "wh_ReferenceID ev = tx_BookingID t" "tx_BookingID t \<noteq> ''''"
    and "sessionID ev = '''' \<or> sessionID ev = tx_ProviderRef t"
  shows "if tx_Status t \<in> set ActiveStatuses then
      \<exists>w' m. HandleSessionWebhook payload w = (Inr (), w') \<and>
        txn_status (db w') = (txn_status (db w))(tx_ID t \<mapsto> StatusExpired) \<and>
        outbox (db w') = outbox (db w) @ [m] \<and> ob_Topic m = ''payment.expired'' \<and> \<not> ob_Delivered m \<and>
        map_option px_BookingID (unmarshal_PaymentExpired (ob_Payload m)) = Some (tx_BookingID t) \<and>
        map_option px_Reason (unmarshal_PaymentExpired (ob_Payload m)) = Some GatewayExpiredReason
    else \<exists>w'. HandleSessionWebhook payload w = (Inr (), w') \<and> db w' = db w"
proof -
  have run: "HandleSessionWebhook payload w = webhook_expired t w"
    using webhook_dispatch [OF assms(1-4,6-8)] assms(5) by simp
  note st = txn_status_row [OF assms(2,3)]
  show ?thesis
  proof (cases "tx_Status t \<in> set ActiveStatuses")
    case True
    let ?w = "w\<lparr>ticks := Suc (ticks w), db := settle_row (tx_ID t) StatusExpired (tx_ProviderRef t) (clock w (ticks w)) (db w)\<rparr>"
    have "calm ?w" using assms(1) by simp
    from emit_calm(2) [OF this, of GatewayExpiredReason t] True show ?thesis
      using TransitionIfActive_hit [OF assms(1,2) st True, of StatusExpired "tx_ProviderRef t"] settle_row_status [OF st]
      by (auto simp: run webhook_expired_def bindE_def simp del: map_option_eq_Some)
  next
    case False
    with TransitionIfActive_miss [OF assms(1,2), of "tx_ID t"] st show ?thesis
      by (auto simp: run webhook_expired_def bindE_def retE_def)
  qed
qed

text \<open>
  An expiry webhook makes an active transaction expired and queues exactly one
  \<^verbatim>\<open>payment.expired\<close> message for its booking with the reason \<^verbatim>\<open>gateway_expired\<close>; a settled
  transaction is left alone.
\<close>

theorem webhook_expired_outcome:
  assumes "calm w" "pay_schema (db w)" "t \<in> set (transactions (db w))"
    and "Option.bind payload unmarshal_webhook = Some ev" "wh_Event ev = ''payment_session.expired''"
    and "wh_ReferenceID ev = tx_BookingID t" "tx_BookingID t \<noteq> ''''"
    and "sessionID ev = '''' \<or> sessionID ev = tx_ProviderRef t"
  shows "if tx_Status t \<in> set ActiveStatuses then
      \<exists>w' m. HandleSessionWebhook payload w = (Inr (), w') \<and>
        txn_status (db w') = (txn_status (db w))(tx_ID t \<mapsto> StatusExpired) \<and>
        outbox (db w') = outbox (db w) @ [m] \<and> ob_Topic m = ''payment.expired'' \<and> \<not> ob_Delivered m \<and>
        map_option px_BookingID (unmarshal_PaymentExpired (ob_Payload m)) = Some (tx_BookingID t) \<and>
        map_option px_Reason (unmarshal_PaymentExpired (ob_Payload m)) = Some GatewayExpiredReason
    else \<exists>w'. HandleSessionWebhook payload w = (Inr (), w') \<and> db w' = db w"
  using assms by (rule webhook_expired_run)

section \<open>Refunds\<close>

definition mark_refund :: "string \<Rightarrow> time \<Rightarrow> payment_db \<Rightarrow> payment_db" where
  "mark_refund i now d = d\<lparr>transactions := update_where (\<lambda>t. tx_ID t = i)
     (\<lambda>t. t\<lparr>tx_RefundStatus := ''pending'', tx_UpdatedAt := now\<rparr>) (transactions d)\<rparr>"

lemma UpdateRefundStatus_calm:
  assumes "calm w" "pay_schema (db w)"
  shows "txn_UpdateRefundStatus i ''pending'' w =
    (Inr (), w\<lparr>ticks := Suc (ticks w), db := mark_refund i (clock w (ticks w)) (db w)\<rparr>)"
proof -
  have "txn_check (t\<lparr>tx_RefundStatus := ''pending'', tx_UpdatedAt := now\<rparr>)" if "t \<in> set (transactions (db w))" for t now
    using assms(2) that by (auto simp: pay_schema_def txn_check_def)
  with assms(1) show ?thesis
    by (simp add: txn_UpdateRefundStatus_def bindE_def readClock_def mapErr_def run_stmt_def stmt_update_txn_def
        retE_def mark_refund_def)
qed

text \<open>A refund is written unless one with its key is there already.\<close>

definition add_refund :: "RefundRequest \<Rightarrow> time \<Rightarrow> payment_db \<Rightarrow> payment_db" where
  "add_refund r now d =
     (if rf_IdempotencyKey r \<in> rf_IdempotencyKey ` set (refund_requests d) then d
      else d\<lparr>refund_requests := refund_requests d @ [r\<lparr>rf_CreatedAt := now, rf_UpdatedAt := now, rf_ProcessedAt := None\<rparr>]\<rparr>)"

lemma refund_Create_calm:
  assumes "calm w" "txn_check t" "tx_ID t \<in> tx_ID ` set (transactions (db w))" "int8_ok (tx_AmountRupiah t)"
    and "i \<notin> rf_ID ` set (refund_requests (db w))"
  shows "refund_Create (refund_for i reason prefix t) w =
    (Inr (), w\<lparr>ticks := Suc (ticks w), db := add_refund (refund_for i reason prefix t) (clock w (ticks w)) (db w)\<rparr>)"
proof -
  have "refund_check ((refund_for i reason prefix t)\<lparr>rf_CreatedAt := now, rf_UpdatedAt := now, rf_ProcessedAt := None\<rparr>)" for now
    using assms(2) by (simp add: refund_check_def refund_for_def txn_check_def RefundPending_def)
  with assms(1,3-5) show ?thesis
    by (cases w) (auto simp: refund_Create_def bindE_def readClock_def mapErr_def run_stmt_def stmt_insert_refund_def
        Let_def add_refund_def refund_for_def)
qed

lemma add_refund_schema:
  assumes "pay_schema d" "txn_check t" "tx_ID t \<in> tx_ID ` set (transactions d)" "i \<notin> rf_ID ` set (refund_requests d)"
  shows "pay_schema (add_refund (refund_for i reason prefix t) now d)"
  using assms
  by (auto simp: pay_schema_def add_refund_def refund_for_def refund_check_def txn_check_def RefundPending_def)

lemma add_refund_sel [simp]:
  "transactions (add_refund r now d) = transactions d" "outbox (add_refund r now d) = outbox d"
  "txn_status (add_refund r now d) = txn_status d"
  by (simp_all add: add_refund_def txn_status_def fun_eq_iff)

lemma mark_refund_sel [simp]:
  "refund_requests (mark_refund i now d) = refund_requests d" "outbox (mark_refund i now d) = outbox d"
  "txn_status (mark_refund i now d) = txn_status d"
  by (auto simp: mark_refund_def txn_status_def fun_eq_iff find_update_where option.map_comp comp_def intro!: option.map_cong)

lemma mark_refund_schema: "pay_schema d \<Longrightarrow> pay_schema (mark_refund i now d)"
proof -
  assume ok: "pay_schema d"
  then have "stmt_update_txn (\<lambda>t. tx_ID t = i) (\<lambda>t. t\<lparr>tx_RefundStatus := ''pending'', tx_UpdatedAt := now\<rparr>) d =
      Inr (count_where (\<lambda>t. tx_ID t = i) (transactions d), mark_refund i now d)"
    by (auto simp: stmt_update_txn_def mark_refund_def pay_schema_def txn_check_def)
  from stmt_update_txn_schema [OF this ok] show ?thesis by simp
qed

text \<open>
  Property C28: money that arrives after the transaction expired is sent back: the completion webhook
  leaves the transaction expired and announces nothing, it writes one pending refund of the full
  amount under the key \<^verbatim>\<open>late-payment:<txn>\<close> (none, if that is there already) and marks the
  transaction.
\<close>

theorem late_payment_refunded:
  assumes "calm w" "pay_schema (db w)" "t \<in> set (transactions (db w))" "tx_Status t = StatusExpired"
    and "int8_ok (tx_AmountRupiah t)" "uuid_src w (uuid_ctr w) \<notin> rf_ID ` set (refund_requests (db w))"
    and "Option.bind payload unmarshal_webhook = Some ev" "wh_Event ev = ''payment_session.completed''"
    and "wh_ReferenceID ev = tx_BookingID t" "tx_BookingID t \<noteq> ''''"
    and "sessionID ev = '''' \<or> sessionID ev = tx_ProviderRef t"
  shows "\<exists>w'. HandleSessionWebhook payload w = (Inr (), w') \<and>
    txn_status (db w') = txn_status (db w) \<and> outbox (db w') = outbox (db w) \<and>
    (if ''late-payment:'' @ tx_ID t \<in> rf_IdempotencyKey ` set (refund_requests (db w))
     then refund_requests (db w') = refund_requests (db w)
     else \<exists>r. refund_requests (db w') = refund_requests (db w) @ [r] \<and> rf_TransactionID r = tx_ID t \<and>
       rf_AmountRupiah r = tx_AmountRupiah t \<and> rf_Status r = ''pending'' \<and> rf_Reason r = ''late_payment'' \<and>
       rf_IdempotencyKey r = ''late-payment:'' @ tx_ID t) \<and>
    (\<exists>t' \<in> set (transactions (db w')). tx_ID t' = tx_ID t \<and> tx_RefundStatus t' = ''pending'')"
proof -
  have run: "HandleSessionWebhook payload w = webhook_completed t w"
    using webhook_dispatch [OF assms(1-3,7,9-11)] assms(8) by simp
  note st = txn_status_row [OF assms(2,3)]
  have chk: "txn_check t" "tx_ID t \<in> tx_ID ` set (transactions (db w))" using assms(2,3) by (auto simp: pay_schema_def)
  let ?i = "uuid_src w (uuid_ctr w)"
  let ?w = "w\<lparr>ticks := Suc (ticks w), uuid_ctr := Suc (uuid_ctr w)\<rparr>"
  let ?r = "refund_for ?i ''late_payment'' ''late-payment:'' t"
  let ?w2 = "?w\<lparr>ticks := Suc (ticks ?w), db := add_refund ?r (clock ?w (ticks ?w)) (db ?w)\<rparr>"
  have "txn_TransitionIfActive (tx_ID t) StatusCompleted (tx_ProviderRef t) w = (Inr False, w\<lparr>ticks := Suc (ticks w)\<rparr>)"
    by (rule TransitionIfActive_miss [OF assms(1,2)]) (use st assms(4) in \<open>auto simp: ActiveStatuses_def\<close>)
  moreover have "refund_Create ?r ?w = (Inr (), ?w2)"
    using refund_Create_calm [of ?w t ?i] assms(1,5,6) chk by simp
  moreover have "txn_UpdateRefundStatus (tx_ID t) ''pending'' ?w2 =
      (Inr (), ?w2\<lparr>ticks := Suc (ticks ?w2), db := mark_refund (tx_ID t) (clock ?w2 (ticks ?w2)) (db ?w2)\<rparr>)"
    using UpdateRefundStatus_calm [of ?w2 "tx_ID t"] add_refund_schema [OF assms(2) chk assms(6)] assms(1) by simp
  ultimately have w': "HandleSessionWebhook payload w =
      (Inr (), ?w2\<lparr>ticks := Suc (ticks ?w2), db := mark_refund (tx_ID t) (clock ?w2 (ticks ?w2)) (db ?w2)\<rparr>)"
    using assms(4)
    by (simp add: run webhook_completed_def bindE_def requestLatePaymentRefund_def newUUID_def handleE_def
        ignoreE_def retE_def)
  have "\<exists>t' \<in> set (transactions (mark_refund (tx_ID t) now (add_refund ?r n2 (db w)))). tx_ID t' = tx_ID t \<and> tx_RefundStatus t' = ''pending''" for now n2
    using assms(3) by (auto simp: mark_refund_def table_simps)
  then show ?thesis
    by (simp add: w') (simp add: add_refund_def refund_for_def RefundPending_def)
qed

text \<open>
  The decision to refund is taken on the copy of the transaction the handler read at the
  beginning. When the poller expires the transaction after that read and before the guarded update,
  the copy still says pending: the webhook is acknowledged, the payment is neither completed nor
  refunded, and since it was acknowledged it is not delivered again.
\<close>

theorem late_payment_lost_in_race:
  assumes "calm w" "pay_schema (db w)" "txn_status (db w) (tx_ID t) = Some StatusExpired" "tx_Status t = StatusPending"
  shows "\<exists>w'. webhook_completed t w = (Inr (), w') \<and> db w' = db w"
proof -
  have "txn_TransitionIfActive (tx_ID t) StatusCompleted (tx_ProviderRef t) w = (Inr False, w\<lparr>ticks := Suc (ticks w)\<rparr>)"
    by (rule TransitionIfActive_miss [OF assms(1,2)]) (use assms(3) in \<open>auto simp: ActiveStatuses_def\<close>)
  with assms(4) show ?thesis by (simp add: webhook_completed_def bindE_def retE_def)
qed

section \<open>Initiating a transaction\<close>

lemma stmt_insert_txn_duplicate:
  assumes "t \<in> set (transactions d)" "tx_BookingID t = tx_BookingID x" "int8_ok (tx_AmountRupiah x)"
    and "txn_check (x\<lparr>tx_CreatedAt := now, tx_UpdatedAt := now\<rparr>)"
  shows "stmt_insert_txn x now d = Inl UniqueViolation"
proof -
  have "tx_BookingID x \<in> tx_BookingID ` set (transactions d)" using assms(1,2) by (metis image_eqI)
  with assms(3,4) show ?thesis by (simp add: stmt_insert_txn_def Let_def)
qed

lemma new_txn_check: "txn_check ((new_txn s i b e u em a x)\<lparr>tx_CreatedAt := now, tx_UpdatedAt := now\<rparr>) \<longleftrightarrow> 0 \<le> a"
  by (simp add: txn_check_def new_txn_def)

lemma Initiate_existing:
  assumes "calm w" "pay_schema (db w)" "t \<in> set (transactions (db w))" "tx_BookingID t = b" "0 \<le> a" "int8_ok a"
  shows "\<exists>w'. InitiateTxnForBooking s b e u em a x w = (Inr t, w') \<and> db w' = db w"
proof -
  let ?i = "uuid_src w (uuid_ctr w)"
  let ?w = "w\<lparr>uuid_ctr := Suc (uuid_ctr w), ticks := Suc (ticks w)\<rparr>"
  have "stmt_insert_txn (new_txn s ?i b e u em a x) (clock w (ticks w)) (db w) = Inl UniqueViolation"
    by (rule stmt_insert_txn_duplicate [OF assms(3)]) (use assms(4-6) in \<open>auto simp: new_txn_check\<close>, simp_all add: new_txn_def)
  moreover have "txn_FindByBookingID b ?w = (Inr t, ?w)"
    by (rule FindByBookingID_calm) (use assms in auto)
  ultimately show ?thesis
    using assms(1)
    by (simp add: InitiateTxnForBooking_def Let_def bindE_def newUUID_def handleE_def txn_Create_def readClock_def
        mapErr_def run_stmt_def)
qed

text \<open>
  Initiating a payment is idempotent per booking: a first call that succeeds stores an
  initiated transaction of the requested amount, and every repetition, also with another amount,
  customer or deadline, returns the stored transaction and writes nothing.
\<close>

theorem Initiate_idempotent:
  assumes "calm w" "pay_schema (db w)" "b \<notin> tx_BookingID ` set (transactions (db w))"
    and "uuid_src w (uuid_ctr w) \<notin> tx_ID ` set (transactions (db w))" "0 \<le> a" "int8_ok a" "0 \<le> a'" "int8_ok a'"
  shows "\<exists>txn w1 t w2. InitiateTxnForBooking s b e u em a x w = (Inr txn, w1) \<and>
    transactions (db w1) = transactions (db w) @ [t] \<and> tx_ID t = tx_ID txn \<and> tx_BookingID t = b \<and>
    tx_AmountRupiah t = a \<and> tx_Status t = StatusInitiated \<and> tx_UserID t = u \<and> tx_ExpiresAt t = Some x \<and>
    InitiateTxnForBooking s' b e' u' em' a' x' w1 = (Inr t, w2) \<and> db w2 = db w1"
proof -
  let ?i = "uuid_src w (uuid_ctr w)" and ?now = "clock w (ticks w)"
  let ?txn = "new_txn s ?i b e u em a x"
  let ?t = "?txn\<lparr>tx_CreatedAt := ?now, tx_UpdatedAt := ?now\<rparr>"
  let ?w1 = "w\<lparr>uuid_ctr := Suc (uuid_ctr w), ticks := Suc (ticks w), db := (db w)\<lparr>transactions := transactions (db w) @ [?t]\<rparr>\<rparr>"
  have ins: "stmt_insert_txn ?txn ?now (db w) = Inr ((), (db w)\<lparr>transactions := transactions (db w) @ [?t]\<rparr>)"
    using assms(3-6) by (simp add: stmt_insert_txn_def Let_def new_txn_check) (simp add: new_txn_def)
  have run: "InitiateTxnForBooking s b e u em a x w = (Inr ?txn, ?w1)"
    using assms(1) ins
    by (simp add: InitiateTxnForBooking_def Let_def bindE_def newUUID_def handleE_def txn_Create_def readClock_def
        mapErr_def run_stmt_def retE_def)
  have "pay_schema (db ?w1)" using stmt_insert_txn_schema [OF ins assms(2)] by simp
  then obtain w2 where "InitiateTxnForBooking s' b e' u' em' a' x' ?w1 = (Inr ?t, w2)" "db w2 = db ?w1"
    using Initiate_existing [of ?w1 ?t b a' s' e' u' em' x'] assms(1,7,8) by (auto simp: new_txn_def)
  with run show ?thesis
    by (intro exI [of _ ?txn] exI [of _ ?w1] exI [of _ ?t] exI [of _ w2]) (simp add: new_txn_def)
qed

section \<open>Creating the payment session\<close>

lemma exec_ticks:
  assumes "exec q w = (r, w')"
  shows "ticks w' = ticks w" "clock w' = clock w"
  using assms by (auto simp: exec_def run_stmt_def drop_fault_def split: fault.splits sum.splits)

lemma deadline_passed_False:
  assumes "deadline_passed x w = (Inr False, w')"
  obtains e where "x = Some e" "w' = w\<lparr>ticks := ticks w + 2\<rparr>" "clock w (ticks w) < e" "Minute \<le> e - clock w (ticks w + 1)"
proof (cases x)
  case None
  with assms show thesis by (simp add: deadline_passed_def retE_def)
next
  case (Some e)
  show thesis
  proof (rule that [OF Some])
    show "w' = w\<lparr>ticks := ticks w + 2\<rparr>" "clock w (ticks w) < e" "Minute \<le> e - clock w (ticks w + 1)"
      using assms Some by (auto simp: deadline_passed_def run_inv split: if_splits)
  qed
qed

lemma select_txn_ticks:
  assumes "txn_FindByBookingID b w = (r, w')"
  shows "ticks w' = ticks w" "clock w' = clock w" "db w' = db w"
proof -
  have "\<exists>q r'. exec (q :: (payment_db, Transaction) stmt) w = (r', w')"
    using assms by (auto simp: txn_FindByBookingID_def select_txn_def mapErr_def split: prod.splits sum.splits)
  then show "ticks w' = ticks w" "clock w' = clock w" using exec_ticks by blast+
  show "db w' = db w" by (rule read_onlyD [OF read_only_txn_queries(2) assms])
qed

lemma TransitionIfInitiated_True:
  assumes "txn_TransitionIfInitiated i st ref w = (Inr True, w')"
  shows "\<exists>n. 0 < n \<and> stmt_settle (\<lambda>s. s = ''initiated'') i st ref (clock w (ticks w)) (db w) = Inr (n, db w')"
  using assms exec_Inr(1) unfolding txn_TransitionIfInitiated_def by (fastforce simp: run_inv)

lemma UpdateSession_True:
  assumes "txn_UpdateSession i ref url w = (Inr (), w')"
  shows "\<exists>n. stmt_update_txn (\<lambda>t. tx_ID t = i)
    (\<lambda>t. t\<lparr>tx_ProviderRef := ref, tx_PaymentLinkURL := url, tx_UpdatedAt := clock w (ticks w)\<rparr>) (db w) = Inr (n, db w')"
  using assms exec_Inr(1) unfolding txn_UpdateSession_def by (fastforce simp: run_inv)

lemma ProcessPayment_run:
  assumes "ProcessPayment s b u w = (Inr (t, res), w')"
  obtains w1 e w2 w3 w4 where
    "txn_FindByBookingID b w = (Inr t, w1)" "tx_Status t = StatusInitiated" "tx_UserID t = u"
    "deadline_passed (tx_ExpiresAt t) w1 = (Inr False, w2)" "tx_ExpiresAt t = Some e"
    "CreateSession s b (tx_AmountRupiah t) (tx_Currency t)
       (max (e + wrap64 (wrap64 (- gatewayExpiryBufferMin s) * Minute)) (clock w2 (ticks w2) + 10 * Minute))
       (allowedChannels s) (tx_CustomerEmail t) (w2\<lparr>ticks := Suc (ticks w2)\<rparr>) = (Inr res, w3)"
    "txn_TransitionIfInitiated (tx_ID t) StatusPending (sr_ProviderRef res) w3 = (Inr True, w4)"
    "txn_UpdateSession (tx_ID t) (sr_ProviderRef res) (sr_PaymentLinkURL res) w4 = (Inr (), w')"
proof -
  have mx: "(if x < y then y else x) = max x y" for x y :: int by simp
  from assms obtain w1 w2 w3 w4 where r:
    "txn_FindByBookingID b w = (Inr t, w1)" "tx_Status t = StatusInitiated" "tx_UserID t = u"
    "deadline_passed (tx_ExpiresAt t) w1 = (Inr False, w2)"
    "CreateSession s b (tx_AmountRupiah t) (tx_Currency t)
       (max (the (tx_ExpiresAt t) + wrap64 (wrap64 (- gatewayExpiryBufferMin s) * Minute)) (clock w2 (ticks w2) + 10 * Minute))
       (allowedChannels s) (tx_CustomerEmail t) (w2\<lparr>ticks := Suc (ticks w2)\<rparr>) = (Inr res, w3)"
    "txn_TransitionIfInitiated (tx_ID t) StatusPending (sr_ProviderRef res) w3 = (Inr True, w4)"
    "txn_UpdateSession (tx_ID t) (sr_ProviderRef res) (sr_PaymentLinkURL res) w4 = (Inr (), w')"
    unfolding ProcessPayment_def Let_def mx by (auto simp: run_inv split: if_splits)
  moreover from r(4) obtain e where "tx_ExpiresAt t = Some e" by (rule deadline_passed_False)
  ultimately show thesis using that by auto
qed

text \<open>
  Property C29: a payment session that is handed to the customer belongs to the initiated transaction
  of the booking, which is the customer's own and has at least a minute left. The gateway was
  called once, with the stored amount, currency and address; the session runs until
  \<^verbatim>\<open>GATEWAY_EXPIRY_BUFFER_MIN\<close> before the deadline, but at least ten minutes, also when that is
  after the deadline. The stored transaction is pending and carries the session, while the
  returned one still says initiated.
\<close>

theorem ProcessPayment_success:
  assumes "ProcessPayment s b u w = (Inr (t, res), w')" "pay_schema (db w)"
  shows "t \<in> set (transactions (db w)) \<and> tx_BookingID t = b \<and> tx_UserID t = u \<and> tx_Status t = StatusInitiated \<and>
    (\<exists>e. tx_ExpiresAt t = Some e \<and> clock w (ticks w + 1) + Minute \<le> e \<and>
       gateway_calls (db w') = gateway_calls (db w) @
         [CreateCall b (tx_AmountRupiah t) (tx_Currency t)
            (max (e + wrap64 (wrap64 (- gatewayExpiryBufferMin s) * Minute)) (clock w (ticks w + 2) + 10 * Minute))
            (allowedChannels s) (tx_CustomerEmail t)]) \<and>
    (\<exists>t' \<in> set (transactions (db w')). tx_ID t' = tx_ID t \<and> tx_Status t' = StatusPending \<and>
       tx_ProviderRef t' = sr_ProviderRef res \<and> tx_PaymentLinkURL t' = sr_PaymentLinkURL res \<and>
       tx_AmountRupiah t' = tx_AmountRupiah t) \<and>
    outbox (db w') = outbox (db w) \<and> refund_requests (db w') = refund_requests (db w)"
proof -
  from assms(1) obtain w1 e w2 w3 w4 where r:
    "txn_FindByBookingID b w = (Inr t, w1)" "tx_Status t = StatusInitiated" "tx_UserID t = u"
    "deadline_passed (tx_ExpiresAt t) w1 = (Inr False, w2)" "tx_ExpiresAt t = Some e"
    "CreateSession s b (tx_AmountRupiah t) (tx_Currency t)
       (max (e + wrap64 (wrap64 (- gatewayExpiryBufferMin s) * Minute)) (clock w2 (ticks w2) + 10 * Minute))
       (allowedChannels s) (tx_CustomerEmail t) (w2\<lparr>ticks := Suc (ticks w2)\<rparr>) = (Inr res, w3)"
    "txn_TransitionIfInitiated (tx_ID t) StatusPending (sr_ProviderRef res) w3 = (Inr True, w4)"
    "txn_UpdateSession (tx_ID t) (sr_ProviderRef res) (sr_PaymentLinkURL res) w4 = (Inr (), w')"
    by (rule ProcessPayment_run)
  note f = FindByBookingID_read [OF r(1)] and tk = select_txn_ticks [OF r(1)]
  obtain e' where e': "tx_ExpiresAt t = Some e'" "w2 = w1\<lparr>ticks := ticks w1 + 2\<rparr>" "Minute \<le> e' - clock w1 (ticks w1 + 1)"
    using r(4) by (rule deadline_passed_False)
  then have e: "clock w (ticks w + 1) + Minute \<le> e" using r(5) tk by simp
  have w2: "ticks w2 = ticks w + 2" "clock w2 = clock w" "db w2 = db w" using e'(2) tk by simp_all
  have d3: "db w3 = (db w)\<lparr>gateway_calls := gateway_calls (db w) @ [CreateCall b (tx_AmountRupiah t) (tx_Currency t)
      (max (e + wrap64 (wrap64 (- gatewayExpiryBufferMin s) * Minute)) (clock w (ticks w + 2) + 10 * Minute))
      (allowedChannels s) (tx_CustomerEmail t)]\<rparr>"
    using r(6) by (auto simp: CreateSession_def log_call_def w2)
  obtain n where s4: "stmt_settle (\<lambda>s. s = ''initiated'') (tx_ID t) StatusPending (sr_ProviderRef res) (clock w3 (ticks w3)) (db w3) = Inr (n, db w4)"
    using TransitionIfInitiated_True [OF r(7)] by blast
  obtain m where s5: "stmt_update_txn (\<lambda>x. tx_ID x = tx_ID t)
      (\<lambda>x. x\<lparr>tx_ProviderRef := sr_ProviderRef res, tx_PaymentLinkURL := sr_PaymentLinkURL res, tx_UpdatedAt := clock w4 (ticks w4)\<rparr>)
      (db w4) = Inr (m, db w')"
    using UpdateSession_True [OF r(8)] by blast
  note fr4 = stmt_update_txn_frame [OF s4 [unfolded stmt_settle_def]] and fr5 = stmt_update_txn_frame [OF s5]
  let ?t4 = "t\<lparr>tx_Status := StatusPending, tx_ProviderRef := sr_ProviderRef res, tx_UpdatedAt := clock w3 (ticks w3)\<rparr>"
  let ?t5 = "?t4\<lparr>tx_ProviderRef := sr_ProviderRef res, tx_PaymentLinkURL := sr_PaymentLinkURL res, tx_UpdatedAt := clock w4 (ticks w4)\<rparr>"
  have "?t4 \<in> set (transactions (db w4))"
    using f r(2) by (auto simp: fr4(1) d3 table_simps intro!: bexI [of _ t])
  then have "?t5 \<in> set (transactions (db w'))"
    unfolding fr5(1) in_set_update_where by (rule bexI [rotated]) simp
  then have "\<exists>t' \<in> set (transactions (db w')). tx_ID t' = tx_ID t \<and> tx_Status t' = StatusPending \<and>
       tx_ProviderRef t' = sr_ProviderRef res \<and> tx_PaymentLinkURL t' = sr_PaymentLinkURL res \<and>
       tx_AmountRupiah t' = tx_AmountRupiah t"
    by (rule bexI [rotated]) simp
  with f r(2,3,5) e show ?thesis by (simp add: fr4(2-5) fr5(2-5) d3)
qed

text \<open>
  A session is refused without a call to the gateway and without a change of the database
  when the transaction is not initiated any more, when less than a minute of the hold remains
  and when the booking belongs to somebody else.
\<close>

theorem ProcessPayment_refusals:
  assumes "calm w" "pay_schema (db w)" "t \<in> set (transactions (db w))" "tx_BookingID t = b"
    and "tx_Status t \<noteq> StatusInitiated \<or> tx_UserID t \<noteq> u \<or>
      (\<forall>e. tx_ExpiresAt t = Some e \<longrightarrow> e \<le> clock w (ticks w) \<or> e - clock w (ticks w + 1) < Minute)"
  shows "\<exists>err w'. ProcessPayment s b u w = (Inl err, w') \<and> db w' = db w \<and>
    (if tx_Status t \<noteq> StatusInitiated then err = ErrAlreadyProcessed
     else err \<in> {ErrTransactionExpired, ErrTransactionNotFound})"
proof -
  have find: "txn_FindByBookingID b w = (Inr t, w)" by (rule FindByBookingID_calm [OF assms(1-4)])
  have "\<exists>late w1. deadline_passed (tx_ExpiresAt t) w = (Inr late, w1)"
    by (cases "tx_ExpiresAt t") (simp_all add: deadline_passed_def bindE_def readClock_def retE_def, blast+)
  then obtain late w1 where d: "deadline_passed (tx_ExpiresAt t) w = (Inr late, w1)" by blast
  then have db1: "db w1 = db w" using read_onlyD [OF read_only_deadline] by blast
  have late: late if "\<forall>e. tx_ExpiresAt t = Some e \<longrightarrow> e \<le> clock w (ticks w) \<or> e - clock w (ticks w + 1) < Minute"
  proof (rule ccontr)
    assume "\<not> late"
    with d obtain e where "tx_ExpiresAt t = Some e" "clock w (ticks w) < e" "Minute \<le> e - clock w (ticks w + 1)"
      using deadline_passed_False by (metis (full_types))
    with that show False by fastforce
  qed
  show ?thesis
  proof (cases "tx_Status t = StatusInitiated")
    case True
    with assms(5) late have "late \<or> tx_UserID t \<noteq> u" by blast
    with True show ?thesis using find d db1
      by (auto simp: ProcessPayment_def handleE_def bindE_def failE_def)
  qed (use find in \<open>simp add: ProcessPayment_def handleE_def failE_def\<close>)
qed

section \<open>The expiry poller\<close>

lemma expired_row_key [simp]: "ob_Key (expired_row r t w) = tx_ID t"
  by (simp add: expired_row_def)

text \<open>
  What a poll does to the row \<open>t\<close> of a transaction, if it settles those of \<open>S\<close>, and the message that
  announces it.
\<close>

definition expires_to :: "Transaction set \<Rightarrow> Transaction \<Rightarrow> Transaction \<Rightarrow> bool" where
  "expires_to S t t' \<longleftrightarrow> (if t \<in> S then \<exists>now. t' = t\<lparr>tx_Status := StatusExpired, tx_UpdatedAt := now\<rparr> else t' = t)"

definition announces_expired :: "Transaction \<Rightarrow> outbox_row \<Rightarrow> bool" where
  "announces_expired t m \<longleftrightarrow> ob_Topic m = ''payment.expired'' \<and> ob_Key m = tx_ID t \<and> \<not> ob_Delivered m \<and>
     map_option px_BookingID (unmarshal_PaymentExpired (ob_Payload m)) = Some (tx_BookingID t)"

definition cancel_calls :: "Transaction \<Rightarrow> gateway_call list" where
  "cancel_calls t = (if tx_ProviderRef t \<noteq> '''' then [CancelCall (tx_ProviderRef t)] else [])"

lemma announces_expired_row [simp]: "announces_expired t (expired_row r t w)"
  by (simp add: announces_expired_def del: map_option_eq_Some)

lemma settle_row_expires:
  assumes "pay_schema d" "t \<in> set (transactions d)"
  shows "list_all2 (expires_to {t}) (transactions d) (transactions (settle_row (tx_ID t) StatusExpired (tx_ProviderRef t) now d))"
proof -
  have "tx_ID r = tx_ID t \<longleftrightarrow> r = t" if "r \<in> set (transactions d)" for r
    using assms that by (auto simp: pay_schema_def distinct_map inj_on_def)
  then show ?thesis
    by (auto simp: settle_row_def update_where_def list_all2_map2 list_all2_same expires_to_def)
qed

lemma expire_one_calm:
  assumes "calm w" "pay_schema (db w)" "t \<in> set (transactions (db w))" "tx_Status t \<in> set ActiveStatuses"
  shows "\<exists>w' m. expire_one s t w = (Inr (), w') \<and> calm w' \<and> pay_schema (db w') \<and> clock w' = clock w \<and> ticks w \<le> ticks w' \<and>
    list_all2 (expires_to {t}) (transactions (db w)) (transactions (db w')) \<and>
    refund_requests (db w') = refund_requests (db w) \<and> gateway_calls (db w') = gateway_calls (db w) @ cancel_calls t \<and>
    outbox (db w') = outbox (db w) @ [m] \<and> announces_expired t m"
proof -
  define w1 where "w1 = (if tx_ProviderRef t \<noteq> '''' then log_call (CancelCall (tx_ProviderRef t)) w else w)"
  have w1: "calm w1" "pay_schema (db w1)" "transactions (db w1) = transactions (db w)" "outbox (db w1) = outbox (db w)"
      "refund_requests (db w1) = refund_requests (db w)" "gateway_calls (db w1) = gateway_calls (db w) @ cancel_calls t"
      "clock w1 = clock w" "ticks w1 = ticks w"
    using assms(1,2) by (simp_all add: w1_def log_call_def cancel_calls_def)
  note row = assms(3) [folded w1(3)]
  let ?w2 = "w1\<lparr>ticks := Suc (ticks w1), db := settle_row (tx_ID t) StatusExpired (tx_ProviderRef t) (clock w1 (ticks w1)) (db w1)\<rparr>"
  have hit: "txn_TransitionIfActive (tx_ID t) StatusExpired (tx_ProviderRef t) w1 = (Inr True, ?w2)"
    using TransitionIfActive_hit [OF w1(1,2) txn_status_row [OF w1(2) row] assms(4)] by simp
  have c2: "calm ?w2" using w1(1) by simp
  have "expire_one s t w = handleE (txn_TransitionIfActive (tx_ID t) StatusExpired (tx_ProviderRef t))
      (\<lambda>_. retE ()) (\<lambda>applied. if \<not> applied then retE () else emit_expired ''internal_expiry_fallback'' t) w1"
    by (simp add: expire_one_def Let_def w1_def ignoreE_def CancelSession_def)
  also have "\<dots> = (Inr (), ?w2\<lparr>ticks := Suc (ticks ?w2), db := queue (expired_row ''internal_expiry_fallback'' t ?w2) (db ?w2)\<rparr>)"
    using hit emit_calm(2) [OF c2] by (simp add: handleE_def)
  finally show ?thesis
    using w1 settle_row_expires [OF w1(2) row] settle_row_schema [OF w1(2)]
    by simp
qed

lemma expires_to_trans:
  assumes "list_all2 (expires_to {t}) rs rs1" "list_all2 (expires_to (set ts)) rs1 rs'" "tx_ID t \<notin> tx_ID ` set ts"
  shows "list_all2 (expires_to (set (t # ts))) rs rs'"
proof (rule list_all2_trans [OF _ assms(1,2)])
  fix r r1 r'
  assume *: "expires_to {t} r r1" "expires_to (set ts) r1 r'"
  show "expires_to (set (t # ts)) r r'"
  proof (cases "r = t")
    case True
    with *(1) obtain now where r1: "r1 = t\<lparr>tx_Status := StatusExpired, tx_UpdatedAt := now\<rparr>" by (auto simp: expires_to_def)
    then have "r1 \<notin> set ts" using assms(3) by (auto simp: image_iff)
    with * True r1 show ?thesis by (auto simp: expires_to_def)
  qed (use * in \<open>auto simp: expires_to_def\<close>)
qed

lemma expires_to_keeps:
  "list_all2 (expires_to {t}) rs rs' \<Longrightarrow> x \<in> set rs \<Longrightarrow> x \<noteq> t \<Longrightarrow> x \<in> set rs'"
  by (induction rule: list_all2_induct) (auto simp: expires_to_def)

lemma expire_each_calm:
  assumes "calm w" "pay_schema (db w)" "distinct (map tx_ID ts)" "set ts \<subseteq> set (transactions (db w))"
    and "\<forall>t \<in> set ts. tx_Status t \<in> set ActiveStatuses"
  shows "\<exists>w' ms. expire_each s ts w = (Inr (), w') \<and> calm w' \<and> pay_schema (db w') \<and> clock w' = clock w \<and> ticks w \<le> ticks w' \<and>
    list_all2 (expires_to (set ts)) (transactions (db w)) (transactions (db w')) \<and>
    refund_requests (db w') = refund_requests (db w) \<and>
    gateway_calls (db w') = gateway_calls (db w) @ concat (map cancel_calls ts) \<and>
    outbox (db w') = outbox (db w) @ ms \<and> list_all2 announces_expired ts ms"
  using assms
proof (induction ts arbitrary: w)
  case Nil
  then show ?case by (simp add: retE_def expires_to_def list_all2_same)
next
  case (Cons t ts)
  have t: "t \<in> set (transactions (db w))" "tx_Status t \<in> set ActiveStatuses" "tx_ID t \<notin> tx_ID ` set ts" "distinct (map tx_ID ts)"
    using Cons.prems(3-5) by auto
  from expire_one_calm [OF Cons.prems(1,2) t(1,2)] obtain w1 m where w1: "expire_one s t w = (Inr (), w1)" "calm w1"
    "pay_schema (db w1)" "list_all2 (expires_to {t}) (transactions (db w)) (transactions (db w1))"
    "refund_requests (db w1) = refund_requests (db w)" "gateway_calls (db w1) = gateway_calls (db w) @ cancel_calls t"
    "outbox (db w1) = outbox (db w) @ [m]" "announces_expired t m" "clock w1 = clock w" "ticks w \<le> ticks w1" by blast
  have sub: "set ts \<subseteq> set (transactions (db w1))"
    using Cons.prems(4) t(3) expires_to_keeps [OF w1(4)] by force
  have act: "\<forall>t \<in> set ts. tx_Status t \<in> set ActiveStatuses" using Cons.prems(5) by simp
  obtain w' ms where w': "expire_each s ts w1 = (Inr (), w')" "calm w'" "pay_schema (db w')"
      "list_all2 (expires_to (set ts)) (transactions (db w1)) (transactions (db w'))"
      "refund_requests (db w') = refund_requests (db w1)"
      "gateway_calls (db w') = gateway_calls (db w1) @ concat (map cancel_calls ts)"
      "outbox (db w') = outbox (db w1) @ ms" "list_all2 announces_expired ts ms" "clock w' = clock w1" "ticks w1 \<le> ticks w'"
    using Cons.IH [OF w1(2,3) t(4) sub act] by blast
  have "expire_each s (t # ts) w = (Inr (), w')" using w1(1) w'(1) by (simp add: bindE_def)
  with w1(5-10) w'(2-10) expires_to_trans [OF w1(4) w'(4) t(3)] show ?case
    by (intro exI [of _ w'] exI [of _ "m # ms"]) simp
qed

text \<open>
  The rows a poll reads: those with the earliest deadlines among the overdue ones, at most as many as the
  limit. Which of several rows with the same deadline are read is left open.
\<close>

lemma ListActiveExpired_calm:
  assumes "calm w" "pay_schema (db w)" "0 \<le> lim"
  shows "\<exists>ts. txn_ListActiveExpired now lim w = (Inr ts, w) \<and> distinct (map tx_ID ts) \<and>
    set ts \<subseteq> {t \<in> set (transactions (db w)). overdue now t} \<and>
    length ts = min (nat lim) (length (filter (overdue now) (transactions (db w)))) \<and>
    (\<forall>t \<in> set ts. \<forall>x \<in> set (transactions (db w)). overdue now x \<and> x \<notin> set ts \<longrightarrow> the (tx_ExpiresAt t) \<le> the (tx_ExpiresAt x))"
proof -
  let ?rows = "filter (overdue now) (transactions (db w))" and ?k = "\<lambda>t. case tx_ExpiresAt t of None \<Rightarrow> 0 | Some e \<Rightarrow> e"
  define all where "all = order_asc ?k ?rows"
  let ?ts = "take (nat lim) all"
  have list: "txn_ListActiveExpired now lim w = (Inr ?ts, w)"
    using assms(1,3) by (simp add: txn_ListActiveExpired_def list_txns_def mapErr_def run_stmt_def all_def limit_offset_def)
  have sets: "set all = {t \<in> set (transactions (db w)). overdue now t}" by (auto simp: all_def)
  have len: "length all = length ?rows" by (simp add: all_def order_asc_def)
  have "mset (map tx_ID all) = mset (map tx_ID ?rows)" by (simp add: all_def order_asc_def)
  moreover have "distinct (map tx_ID ?rows)" using assms(2) by (simp add: pay_schema_def distinct_map_filter)
  ultimately have "distinct (map tx_ID all)" by (metis mset_eq_imp_distinct_iff)
  then have dist: "distinct (map tx_ID ?ts)" by (simp add: take_map [symmetric] distinct_take)
  have "sorted (map ?k (?ts @ drop (nat lim) all))" by (simp add: all_def order_asc_def)
  then have le: "\<forall>t \<in> set ?ts. \<forall>x \<in> set (drop (nat lim) all). ?k t \<le> ?k x" by (simp only: map_append sorted_append) simp
  have k: "?k x = the (tx_ExpiresAt x)" if "overdue now x" for x using that by (auto simp: overdue_def split: option.splits)
  have "the (tx_ExpiresAt t) \<le> the (tx_ExpiresAt x)"
    if "t \<in> set ?ts" "x \<in> set (transactions (db w))" "overdue now x" "x \<notin> set ?ts" for t x
  proof -
    have "x \<in> set all" using that sets by simp
    then have "x \<in> set (drop (nat lim) all)" using that(4) by (metis append_take_drop_id Un_iff set_append)
    moreover have "overdue now t" using that(1) sets in_set_takeD by fastforce
    ultimately show ?thesis using le that(1) k [of t] k [OF that(3)] by metis
  qed
  moreover have "set ?ts \<subseteq> {t \<in> set (transactions (db w)). overdue now t}" using sets set_take_subset by fast
  ultimately show ?thesis using list dist len by (intro exI [of _ ?ts]) (auto simp: min_def)
qed

lemma ProcessExpired_calm:
  assumes "calm w" "pay_schema (db w)" "0 \<le> lim"
  shows "\<exists>w' ts ms. ProcessExpired s lim w = (Inr (), w') \<and> calm w' \<and> pay_schema (db w') \<and> clock w' = clock w \<and> ticks w \<le> ticks w' \<and>
    distinct (map tx_ID ts) \<and>
    set ts \<subseteq> {t \<in> set (transactions (db w)). overdue (clock w (ticks w)) t} \<and>
    length ts = min (nat lim) (length (filter (overdue (clock w (ticks w))) (transactions (db w)))) \<and>
    (int (length (filter (overdue (clock w (ticks w))) (transactions (db w)))) \<le> lim \<longrightarrow>
       set ts = {t \<in> set (transactions (db w)). overdue (clock w (ticks w)) t}) \<and>
    (\<forall>t \<in> set ts. \<forall>x \<in> set (transactions (db w)). overdue (clock w (ticks w)) x \<and> x \<notin> set ts \<longrightarrow>
       the (tx_ExpiresAt t) \<le> the (tx_ExpiresAt x)) \<and>
    list_all2 (expires_to (set ts)) (transactions (db w)) (transactions (db w')) \<and>
    refund_requests (db w') = refund_requests (db w) \<and>
    gateway_calls (db w') = gateway_calls (db w) @ concat (map cancel_calls ts) \<and>
    outbox (db w') = outbox (db w) @ ms \<and> list_all2 announces_expired ts ms"
proof -
  let ?now = "clock w (ticks w)" and ?w = "w\<lparr>ticks := Suc (ticks w)\<rparr>"
  let ?rows = "filter (overdue ?now) (transactions (db w))"
  obtain ts where list: "txn_ListActiveExpired ?now lim ?w = (Inr ts, ?w)" and ts: "distinct (map tx_ID ts)"
    "set ts \<subseteq> {t \<in> set (transactions (db w)). overdue ?now t}" "length ts = min (nat lim) (length ?rows)"
    "\<forall>t \<in> set ts. \<forall>x \<in> set (transactions (db w)). overdue ?now x \<and> x \<notin> set ts \<longrightarrow> the (tx_ExpiresAt t) \<le> the (tx_ExpiresAt x)"
    using ListActiveExpired_calm [of ?w lim ?now] assms by auto
  have all: "set ts = {t \<in> set (transactions (db w)). overdue ?now t}" if "int (length ?rows) \<le> lim"
  proof (rule card_subset_eq [OF _ ts(2)])
    have "card (set ts) = length ?rows" using ts(1,3) that by (simp add: distinct_card distinct_map)
    moreover have "card (set ?rows) \<le> length ?rows" by (rule card_length)
    moreover have "card (set ts) \<le> card (set ?rows)" using ts(2) by (intro card_mono) auto
    ultimately show "card (set ts) = card {t \<in> set (transactions (db w)). overdue ?now t}" by simp
  qed simp
  have "set ts \<subseteq> set (transactions (db ?w))" "\<forall>t \<in> set ts. tx_Status t \<in> set ActiveStatuses"
    using ts(2) by (auto simp: overdue_def)
  then obtain w' ms where r: "expire_each s ts ?w = (Inr (), w')"
      "calm w'" "pay_schema (db w')" "clock w' = clock w" "ticks w \<le> ticks w'"
      "list_all2 (expires_to (set ts)) (transactions (db w)) (transactions (db w'))"
      "refund_requests (db w') = refund_requests (db w)"
      "gateway_calls (db w') = gateway_calls (db w) @ concat (map cancel_calls ts)"
      "outbox (db w') = outbox (db w) @ ms" "list_all2 announces_expired ts ms"
    using expire_each_calm [of ?w ts s] assms(1,2) ts(1) by auto
  have "ProcessExpired s lim w = (Inr (), w')" using list r(1) by (simp add: ProcessExpired_def bindE_def readClock_def)
  then show ?thesis using ts all r(2-10) by (intro exI [of _ w'] exI [of _ ts] exI [of _ ms]) simp
qed

text \<open>
  Property C30: one poll settles the active transactions whose deadline has passed, up to its limit (the poller passes
  100) and those with the earliest deadlines first; all of them, if they are no more than the
  limit. Each of them becomes expired and nothing else of its row changes but the time of the
  update; its gateway session, if it has one, is cancelled, and it is announced once, on
  \<^verbatim>\<open>payment.expired\<close> with its booking. The rows of all other transactions and all refund requests are left as
  they were. Errors of the gateway do not stop it.
\<close>

theorem ProcessExpired_settles:
  assumes "calm w" "pay_schema (db w)" "0 \<le> lim"
  shows "\<exists>w' ts ms. ProcessExpired s lim w = (Inr (), w') \<and> distinct (map tx_ID ts) \<and>
    set ts \<subseteq> {t \<in> set (transactions (db w)). overdue (clock w (ticks w)) t} \<and>
    length ts = min (nat lim) (length (filter (overdue (clock w (ticks w))) (transactions (db w)))) \<and>
    (int (length (filter (overdue (clock w (ticks w))) (transactions (db w)))) \<le> lim \<longrightarrow>
       set ts = {t \<in> set (transactions (db w)). overdue (clock w (ticks w)) t}) \<and>
    (\<forall>t \<in> set ts. \<forall>x \<in> set (transactions (db w)). overdue (clock w (ticks w)) x \<and> x \<notin> set ts \<longrightarrow>
       the (tx_ExpiresAt t) \<le> the (tx_ExpiresAt x)) \<and>
    list_all2 (\<lambda>t t'. if t \<in> set ts then \<exists>now. t' = t\<lparr>tx_Status := StatusExpired, tx_UpdatedAt := now\<rparr> else t' = t)
      (transactions (db w)) (transactions (db w')) \<and>
    refund_requests (db w') = refund_requests (db w) \<and>
    gateway_calls (db w') = gateway_calls (db w) @
      map (\<lambda>t. CancelCall (tx_ProviderRef t)) (filter (\<lambda>t. tx_ProviderRef t \<noteq> '''') ts) \<and>
    outbox (db w') = outbox (db w) @ ms \<and>
    list_all2 (\<lambda>t m. ob_Topic m = ''payment.expired'' \<and> ob_Key m = tx_ID t \<and> \<not> ob_Delivered m \<and>
      map_option px_BookingID (unmarshal_PaymentExpired (ob_Payload m)) = Some (tx_BookingID t)) ts ms"
proof -
  have calls: "concat (map cancel_calls ts) = map (\<lambda>t. CancelCall (tx_ProviderRef t)) (filter (\<lambda>t. tx_ProviderRef t \<noteq> '''') ts)" for ts
    by (induction ts) (simp_all add: cancel_calls_def)
  show ?thesis
    using ProcessExpired_calm [OF assms, of s] unfolding calls expires_to_def [abs_def] announces_expired_def [abs_def] by blast
qed

text \<open>
  How the poller gets through a backlog. Count the transactions that were overdue at some time \<open>now0\<close> before
  the poll and still are: a poll settles all of them or as many as its limit, because those that
  became overdue later have later deadlines.
\<close>

lemma overdue_mono: "overdue now0 t \<Longrightarrow> now0 \<le> now \<Longrightarrow> overdue now t"
  by (auto simp: overdue_def split: option.splits)

lemma expires_to_filter:
  assumes "list_all2 (expires_to S) rs rs'"
  shows "filter (overdue now) rs' = filter (\<lambda>t. overdue now t \<and> t \<notin> S) rs"
  using assms
proof (induction rule: list_all2_induct)
  case (Cons t rs t' rs')
  have "\<not> overdue now (t\<lparr>tx_Status := StatusExpired, tx_UpdatedAt := n\<rparr>)" for n by (simp add: overdue_def ActiveStatuses_def)
  with Cons show ?case by (auto simp: expires_to_def split: if_splits)
qed simp

lemma earliest_first:
  assumes "distinct rs" "distinct ts" "now0 \<le> now" "set ts \<subseteq> {t \<in> set rs. overdue now t}"
    and "length ts = min l (length (filter (overdue now) rs))"
    and "\<forall>t \<in> set ts. \<forall>x \<in> set rs. overdue now x \<and> x \<notin> set ts \<longrightarrow> the (tx_ExpiresAt t) \<le> the (tx_ExpiresAt x)"
  shows "length (filter (\<lambda>t. overdue now0 t \<and> t \<notin> set ts) rs) \<le> length (filter (overdue now0) rs) - l"
proof (cases "\<exists>x \<in> set rs. overdue now0 x \<and> x \<notin> set ts")
  case True
  then obtain x where x: "x \<in> set rs" "overdue now0 x" "x \<notin> set ts" by blast
  have card: "length (filter P rs) = card {t \<in> set rs. P t}" for P
    using assms(1) by (metis distinct_card distinct_filter set_filter)
  have sub: "overdue now0 t" if "t \<in> set ts" for t
  proof -
    have "the (tx_ExpiresAt t) \<le> the (tx_ExpiresAt x)"
      using assms(6) that x overdue_mono [OF x(2) assms(3)] by blast
    moreover have "overdue now t" using assms(4) that by blast
    ultimately show ?thesis using x(2) by (auto simp: overdue_def split: option.splits)
  qed
  have "insert x (set ts) \<subseteq> {t \<in> set rs. overdue now t}" using assms(4) x overdue_mono [OF x(2) assms(3)] by blast
  then have "card (insert x (set ts)) \<le> length (filter (overdue now) rs)" unfolding card by (intro card_mono) simp_all
  then have "length ts < length (filter (overdue now) rs)" using x(3) assms(2) by (simp add: distinct_card)
  then have "card (set ts) = l" using assms(2,5) by (simp add: distinct_card)
  moreover have "{t \<in> set rs. overdue now0 t \<and> t \<notin> set ts} = {t \<in> set rs. overdue now0 t} - set ts" by blast
  moreover have "set ts \<subseteq> {t \<in> set rs. overdue now0 t}" using sub assms(4) by blast
  ultimately show ?thesis unfolding card by (simp add: card_Diff_subset)
next
  case False
  then have "filter (\<lambda>t. overdue now0 t \<and> t \<notin> set ts) rs = []" by (auto simp: filter_empty_conv)
  then show ?thesis by (simp only: list.size)
qed

text \<open>
  With a healthy database and a clock that does not run backwards, \<open>n\<close> ticks of the poller expire every
  transaction that was overdue at the first of them, if these are at most 100 for each tick.
\<close>

theorem expiry_poller_settles:
  assumes "calm w" "pay_schema (db w)" "\<And>i j. i \<le> j \<Longrightarrow> clock w i \<le> clock w j" "now0 \<le> clock w (ticks w)"
    and "length (filter (overdue now0) (transactions (db w))) \<le> 100 * n"
  shows "\<exists>w'. expiry_poller s n w = (Inr (), w') \<and> filter (overdue now0) (transactions (db w')) = [] \<and>
    list_all2 (\<lambda>t t'. t' = t \<or> tx_Status t \<in> set ActiveStatuses \<and> (\<exists>now. t' = t\<lparr>tx_Status := StatusExpired, tx_UpdatedAt := now\<rparr>))
      (transactions (db w)) (transactions (db w'))"
  using assms
proof (induction n arbitrary: w)
  case 0
  then show ?case by (simp add: retE_def list_all2_same)
next
  case (Suc n)
  let ?rs = "transactions (db w)" and ?now = "clock w (ticks w)"
  obtain w1 ts ms where p: "ProcessExpired s 100 w = (Inr (), w1)" "calm w1" "pay_schema (db w1)" "clock w1 = clock w" "ticks w \<le> ticks w1"
      "distinct (map tx_ID ts)" "set ts \<subseteq> {t \<in> set ?rs. overdue ?now t}" "length ts = min (nat 100) (length (filter (overdue ?now) ?rs))"
      "\<forall>t \<in> set ts. \<forall>x \<in> set ?rs. overdue ?now x \<and> x \<notin> set ts \<longrightarrow> the (tx_ExpiresAt t) \<le> the (tx_ExpiresAt x)"
      "list_all2 (expires_to (set ts)) ?rs (transactions (db w1))"
    using ProcessExpired_calm [OF Suc.prems(1,2), of 100 s] by auto
  have "distinct ?rs" using Suc.prems(2) by (auto simp: pay_schema_def distinct_map)
  moreover have "distinct ts" using p(6) by (simp add: distinct_map)
  ultimately have "length (filter (overdue now0) (transactions (db w1))) \<le> length (filter (overdue now0) ?rs) - 100"
    unfolding expires_to_filter [OF p(10)] using earliest_first [OF _ _ Suc.prems(4) p(7,8,9)] by simp
  then have left: "length (filter (overdue now0) (transactions (db w1))) \<le> 100 * n" using Suc.prems(5) by simp
  have "?now \<le> clock w1 (ticks w1)" using Suc.prems(3) [OF p(5)] p(4) by simp
  then have now: "now0 \<le> clock w1 (ticks w1)" using Suc.prems(4) by simp
  obtain w' where w': "expiry_poller s n w1 = (Inr (), w')" "filter (overdue now0) (transactions (db w')) = []"
    and rows: "list_all2 (\<lambda>t t'. t' = t \<or> tx_Status t \<in> set ActiveStatuses \<and> (\<exists>now. t' = t\<lparr>tx_Status := StatusExpired, tx_UpdatedAt := now\<rparr>))
      (transactions (db w1)) (transactions (db w'))"
    using Suc.IH [OF p(2,3) _ now left] Suc.prems(3) p(4) by auto
  have "list_all2 (\<lambda>t t'. t' = t \<or> tx_Status t \<in> set ActiveStatuses \<and> (\<exists>now. t' = t\<lparr>tx_Status := StatusExpired, tx_UpdatedAt := now\<rparr>))
      ?rs (transactions (db w'))"
  proof (rule list_all2_trans [OF _ p(10) rows])
    fix t t1 t'
    assume *: "expires_to (set ts) t t1"
      "t' = t1 \<or> tx_Status t1 \<in> set ActiveStatuses \<and> (\<exists>now. t' = t1\<lparr>tx_Status := StatusExpired, tx_UpdatedAt := now\<rparr>)"
    have "tx_Status t \<in> set ActiveStatuses" if "t \<in> set ts" using p(7) that by (auto simp: overdue_def)
    with * show "t' = t \<or> tx_Status t \<in> set ActiveStatuses \<and> (\<exists>now. t' = t\<lparr>tx_Status := StatusExpired, tx_UpdatedAt := now\<rparr>)"
      by (auto simp: expires_to_def ActiveStatuses_def split: if_splits)
  qed
  with p(1) w' show ?case by (intro exI [of _ w']) (simp add: ignoreE_def)
qed

section \<open>Cancelled events\<close>

definition fresh_refunds :: "payment_db world \<Rightarrow> bool" where
  "fresh_refunds w \<longleftrightarrow> inj (uuid_src w) \<and> (\<forall>n \<ge> uuid_ctr w. uuid_src w n \<notin> rf_ID ` set (refund_requests (db w)))"

definition cancel_key :: "Transaction \<Rightarrow> string" where
  "cancel_key t = ''event-cancelled:'' @ tx_ID t"

definition refund_keys :: "payment_db \<Rightarrow> string set" where
  "refund_keys d = rf_IdempotencyKey ` set (refund_requests d)"

definition refundable :: "Transaction \<Rightarrow> payment_db \<Rightarrow> bool" where
  "refundable t d \<longleftrightarrow> txn_check t \<and> tx_ID t \<in> tx_ID ` set (transactions d) \<and> int8_ok (tx_AmountRupiah t)"

definition core_rows :: "payment_db \<Rightarrow> (string \<times> string \<times> string \<times> int) list" where
  "core_rows d = map (\<lambda>t. (tx_ID t, tx_EventID t, tx_Status t, tx_AmountRupiah t)) (transactions d)"

lemma core_rows_ids:
  assumes "core_rows d' = core_rows d"
  shows "tx_ID ` set (transactions d') = tx_ID ` set (transactions d)"
proof -
  have "tx_ID ` set (transactions x) = fst ` set (core_rows x)" for x by (simp add: core_rows_def image_comp comp_def)
  with assms show ?thesis by simp
qed

lemma core_rows_row:
  assumes "core_rows d' = core_rows d" "t' \<in> set (transactions d')"
  obtains t where "t \<in> set (transactions d)" "tx_ID t = tx_ID t'" "tx_EventID t = tx_EventID t'"
    "tx_Status t = tx_Status t'" "tx_AmountRupiah t = tx_AmountRupiah t'"
proof -
  have "(tx_ID t', tx_EventID t', tx_Status t', tx_AmountRupiah t') \<in> set (core_rows d)"
    using assms(2) unfolding assms(1) [symmetric] by (auto simp: core_rows_def)
  then show thesis using that by (auto simp: core_rows_def)
qed

lemma refund_cancelled_calm:
  assumes "calm w" "pay_schema (db w)" "fresh_refunds w" "refundable t (db w)"
  shows "\<exists>w' rs. refund_cancelled t w = (Inr (), w') \<and> calm w' \<and> pay_schema (db w') \<and> fresh_refunds w' \<and>
    txn_status (db w') = txn_status (db w) \<and> core_rows (db w') = core_rows (db w) \<and>
    refund_requests (db w') = refund_requests (db w) @ rs \<and>
    (if tx_Status t = StatusCompleted \<and> cancel_key t \<notin> refund_keys (db w)
     then map (\<lambda>r. (rf_TransactionID r, rf_AmountRupiah r, rf_IdempotencyKey r)) rs = [(tx_ID t, tx_AmountRupiah t, cancel_key t)]
     else rs = [])"
proof (cases "tx_Status t = StatusCompleted")
  case True
  let ?i = "uuid_src w (uuid_ctr w)"
  let ?w = "w\<lparr>uuid_ctr := Suc (uuid_ctr w)\<rparr>"
  let ?r = "refund_for ?i ''event_cancelled'' ''event-cancelled:'' t"
  let ?w2 = "?w\<lparr>ticks := Suc (ticks w), db := add_refund ?r (clock w (ticks w)) (db w)\<rparr>"
  let ?w3 = "?w2\<lparr>ticks := Suc (ticks ?w2), db := mark_refund (tx_ID t) (clock ?w2 (ticks ?w2)) (db ?w2)\<rparr>"
  have i: "?i \<notin> rf_ID ` set (refund_requests (db w))" using assms(3) by (simp add: fresh_refunds_def)
  have rf: "txn_check t" "tx_ID t \<in> tx_ID ` set (transactions (db w))" "int8_ok (tx_AmountRupiah t)"
    using assms(4) by (simp_all add: refundable_def)
  note ok = add_refund_schema [OF assms(2) rf(1,2) i]
  have "refund_Create ?r ?w = (Inr (), ?w2)"
    using refund_Create_calm [of ?w t ?i] rf i assms(1) by simp
  moreover have "txn_UpdateRefundStatus (tx_ID t) ''pending'' ?w2 = (Inr (), ?w3)"
    using UpdateRefundStatus_calm [of ?w2 "tx_ID t"] ok assms(1) by simp
  ultimately have run: "refund_cancelled t w = (Inr (), ?w3)"
    using True by (simp add: refund_cancelled_def bindE_def newUUID_def)
  have ids: "core_rows (mark_refund j now (add_refund r n d)) = core_rows d" for j now r n d
    unfolding core_rows_def mark_refund_def by (simp add: map_update_where)
  have "fresh_refunds ?w3"
    using assms(3) by (auto simp: fresh_refunds_def add_refund_def refund_for_def inj_eq)
  moreover have "\<exists>rs. refund_requests (db ?w3) = refund_requests (db w) @ rs \<and>
    (if cancel_key t \<notin> refund_keys (db w)
     then map (\<lambda>r. (rf_TransactionID r, rf_AmountRupiah r, rf_IdempotencyKey r)) rs = [(tx_ID t, tx_AmountRupiah t, cancel_key t)]
     else rs = [])"
    by (simp add: add_refund_def refund_for_def cancel_key_def refund_keys_def)
  ultimately show ?thesis
    using run ok mark_refund_schema [OF ok] assms(1) True ids by auto
next
  case False
  with assms show ?thesis by (simp add: refund_cancelled_def retE_def)
qed

lemma refund_each_calm:
  assumes "calm w" "pay_schema (db w)" "fresh_refunds w" "\<forall>t \<in> set ts. refundable t (db w)"
  shows "\<exists>w' rs. refund_each ts w = (Inr (), w') \<and> calm w' \<and> pay_schema (db w') \<and> fresh_refunds w' \<and>
    txn_status (db w') = txn_status (db w) \<and> core_rows (db w') = core_rows (db w) \<and>
    refund_requests (db w') = refund_requests (db w) @ rs \<and>
    rf_IdempotencyKey ` set rs = cancel_key ` {t \<in> set ts. tx_Status t = StatusCompleted} - refund_keys (db w) \<and>
    (\<forall>r \<in> set rs. \<exists>t \<in> set ts. tx_Status t = StatusCompleted \<and> rf_TransactionID r = tx_ID t \<and> rf_AmountRupiah r = tx_AmountRupiah t)"
  using assms
proof (induction ts arbitrary: w)
  case Nil
  then show ?case by (simp add: retE_def)
next
  case (Cons t ts)
  from Cons.prems(4) have "refundable t (db w)" by simp
  from refund_cancelled_calm [OF Cons.prems(1-3) this] obtain w1 r1 where w1:
    "refund_cancelled t w = (Inr (), w1)" "calm w1" "pay_schema (db w1)" "fresh_refunds w1"
    "txn_status (db w1) = txn_status (db w)" "core_rows (db w1) = core_rows (db w)"
    "refund_requests (db w1) = refund_requests (db w) @ r1"
    and r1: "if tx_Status t = StatusCompleted \<and> cancel_key t \<notin> refund_keys (db w)
     then map (\<lambda>r. (rf_TransactionID r, rf_AmountRupiah r, rf_IdempotencyKey r)) r1 = [(tx_ID t, tx_AmountRupiah t, cancel_key t)]
     else r1 = []" by blast
  have "\<forall>x \<in> set ts. refundable x (db w1)" using Cons.prems(4) core_rows_ids [OF w1(6)] by (simp add: refundable_def)
  from Cons.IH [OF w1(2-4) this] obtain w' rs where w':
    "refund_each ts w1 = (Inr (), w')" "calm w'" "pay_schema (db w')" "fresh_refunds w'"
    "txn_status (db w') = txn_status (db w1)" "refund_requests (db w') = refund_requests (db w1) @ rs"
    "rf_IdempotencyKey ` set rs = cancel_key ` {t \<in> set ts. tx_Status t = StatusCompleted} - refund_keys (db w1)"
    "\<forall>r \<in> set rs. \<exists>t \<in> set ts. tx_Status t = StatusCompleted \<and> rf_TransactionID r = tx_ID t \<and> rf_AmountRupiah r = tx_AmountRupiah t"
    "core_rows (db w') = core_rows (db w1)"
    by blast
  have keys: "refund_keys (db w1) = refund_keys (db w) \<union> rf_IdempotencyKey ` set r1"
    using w1(7) by (auto simp: refund_keys_def)
  have k1: "rf_IdempotencyKey ` set r1 = cancel_key ` {x \<in> {t}. tx_Status x = StatusCompleted} - refund_keys (db w)"
    using r1 by (auto split: if_splits)
  have a1: "\<exists>x \<in> set (t # ts). tx_Status x = StatusCompleted \<and> rf_TransactionID r = tx_ID x \<and> rf_AmountRupiah r = tx_AmountRupiah x"
    if "r \<in> set r1" for r
    using r1 that by (auto split: if_splits)
  show ?case
  proof (intro exI conjI)
    show "refund_each (t # ts) w = (Inr (), w')" using w1(1) w'(1) by (simp add: bindE_def)
    show "refund_requests (db w') = refund_requests (db w) @ (r1 @ rs)" using w1(7) w'(6) by simp
    show "rf_IdempotencyKey ` set (r1 @ rs) = cancel_key ` {x \<in> set (t # ts). tx_Status x = StatusCompleted} - refund_keys (db w)"
      unfolding set_append image_Un k1 w'(7) keys by auto
    show "\<forall>r \<in> set (r1 @ rs). \<exists>x \<in> set (t # ts). tx_Status x = StatusCompleted \<and> rf_TransactionID r = tx_ID x \<and> rf_AmountRupiah r = tx_AmountRupiah x"
      using a1 w'(8) by auto
  qed (use w1(5,6) w'(2-5,9) in simp_all)
qed

lemma ListByEventID_calm:
  assumes "calm w"
  shows "\<exists>ts. txn_ListByEventID ev w = (Inr ts, w) \<and> set ts = {t \<in> set (transactions (db w)). tx_EventID t = ev}"
  using assms by (auto simp: txn_ListByEventID_def list_txns_def mapErr_def run_stmt_def)

lemma HandleEventCancelled_calm:
  assumes "calm w" "pay_schema (db w)" "fresh_refunds w" "\<forall>t \<in> set (transactions (db w)). int8_ok (tx_AmountRupiah t)"
  shows "\<exists>w' rs. HandleEventCancelled ev w = (Inr (), w') \<and> calm w' \<and> pay_schema (db w') \<and> fresh_refunds w' \<and>
    core_rows (db w') = core_rows (db w) \<and> txn_status (db w') = txn_status (db w) \<and>
    refund_requests (db w') = refund_requests (db w) @ rs \<and>
    rf_IdempotencyKey ` set rs =
      cancel_key ` {t \<in> set (transactions (db w)). tx_EventID t = ev \<and> tx_Status t = StatusCompleted} - refund_keys (db w) \<and>
    (\<forall>r \<in> set rs. \<exists>t \<in> set (transactions (db w)). tx_EventID t = ev \<and> tx_Status t = StatusCompleted \<and>
       rf_TransactionID r = tx_ID t \<and> rf_AmountRupiah r = tx_AmountRupiah t)"
proof -
  obtain ts where ts: "txn_ListByEventID ev w = (Inr ts, w)" "set ts = {t \<in> set (transactions (db w)). tx_EventID t = ev}"
    using ListByEventID_calm [OF assms(1)] by blast
  have ready: "\<forall>t \<in> set ts. refundable t (db w)"
    using ts(2) assms(2,4) by (auto simp: refundable_def pay_schema_def)
  have sel: "{t \<in> set ts. tx_Status t = StatusCompleted} =
      {t \<in> set (transactions (db w)). tx_EventID t = ev \<and> tx_Status t = StatusCompleted}"
    using ts(2) by auto
  have run: "HandleEventCancelled ev w = refund_each ts w"
    using ts(1) by (simp add: HandleEventCancelled_def bindE_def)
  from refund_each_calm [OF assms(1-3) ready] obtain w' rs where w': "refund_each ts w = (Inr (), w')" "calm w'"
    "pay_schema (db w')" "fresh_refunds w'" "txn_status (db w') = txn_status (db w)" "core_rows (db w') = core_rows (db w)"
    "refund_requests (db w') = refund_requests (db w) @ rs"
    "rf_IdempotencyKey ` set rs = cancel_key ` {t \<in> set ts. tx_Status t = StatusCompleted} - refund_keys (db w)"
    "\<forall>r \<in> set rs. \<exists>t \<in> set ts. tx_Status t = StatusCompleted \<and> rf_TransactionID r = tx_ID t \<and> rf_AmountRupiah r = tx_AmountRupiah t"
    by blast
  show ?thesis
  proof (intro exI conjI)
    show "HandleEventCancelled ev w = (Inr (), w')" using run w'(1) by simp
    show "\<forall>r \<in> set rs. \<exists>t \<in> set (transactions (db w)). tx_EventID t = ev \<and> tx_Status t = StatusCompleted \<and>
        rf_TransactionID r = tx_ID t \<and> rf_AmountRupiah r = tx_AmountRupiah t"
      using w'(9) ts(2) by blast
  qed (use w' sel in simp_all)
qed

text \<open>
  The key of a refund request names its transaction: with the invariant, the request that carries the key of
  a completed transaction is the only one for that transaction, and of its amount.
\<close>

lemma cancelled_refund_amount:
  assumes "pay_inv d" "pay_inv d'" "core_rows d' = core_rows d" "t \<in> set (transactions d)" "cancel_key t \<in> refund_keys d'"
  shows "\<exists>rf \<in> set (refund_requests d'). rf_TransactionID rf = tx_ID t \<and> rf_AmountRupiah rf = tx_AmountRupiah t"
proof -
  obtain rf where rf: "rf \<in> set (refund_requests d')" "rf_IdempotencyKey rf = cancel_key t" using assms(5) by (auto simp: refund_keys_def)
  obtain t' where t': "t' \<in> set (transactions d')" "tx_ID t' = rf_TransactionID rf" "tx_AmountRupiah t' = rf_AmountRupiah rf"
      "refund_key_ok t' (rf_IdempotencyKey rf)"
    using assms(2) rf(1) by (auto simp: pay_inv_def refund_ok_def)
  have id: "tx_ID t' = tx_ID t" using t'(4) rf(2) by (auto simp: refund_key_ok_def cancel_key_def)
  obtain t1 where "t1 \<in> set (transactions d)" "tx_ID t1 = tx_ID t'" "tx_AmountRupiah t1 = tx_AmountRupiah t'"
    using core_rows_row [OF assms(3) t'(1)] by metis
  moreover have "inj_on tx_ID (set (transactions d))" using assms(1) by (simp add: pay_inv_def pay_schema_def distinct_map)
  ultimately have "tx_AmountRupiah t = rf_AmountRupiah rf" using id assms(4) t'(3) by (metis inj_onD)
  with rf(1) t'(2) id show ?thesis by auto
qed

lemma cancelled_refund_single:
  assumes "pay_inv d" "pay_inv d'" "core_rows d' = core_rows d" "t \<in> set (transactions d)" "cancel_key t \<in> refund_keys d'"
  shows "\<exists>rf. filter (\<lambda>r. rf_TransactionID r = tx_ID t) (refund_requests d') = [rf] \<and> rf_AmountRupiah rf = tx_AmountRupiah t"
proof -
  let ?f = "filter (\<lambda>r. rf_TransactionID r = tx_ID t) (refund_requests d')"
  obtain rf where rf: "rf \<in> set (refund_requests d')" "rf_TransactionID rf = tx_ID t" "rf_AmountRupiah rf = tx_AmountRupiah t"
    using cancelled_refund_amount [OF assms] by blast
  then have mem: "rf \<in> set ?f" by simp
  have "length ?f \<le> 1" using pay_inv_single [OF assms(2), of "tx_ID t"] by blast
  with mem have "?f = [rf]" by (cases ?f) auto
  with rf(3) show ?thesis by blast
qed

text \<open>
  Property C31: when an event is cancelled, every completed transaction of it has exactly one refund request afterwards,
  of its amount. The requests that were there are kept, new ones are only for completed
  transactions of the event, and no transaction changes its status. Handling the message once
  more (a redelivery or a reprocessed cancellation) adds none. \<open>pay_inv\<close> holds at the start and is kept by
  everything the payment service does.
\<close>

theorem HandleEventCancelled_refunds:
  assumes "calm w" "pay_inv (db w)" "fresh_refunds w" "\<forall>t \<in> set (transactions (db w)). int8_ok (tx_AmountRupiah t)"
  shows "\<exists>w' rs w''. HandleEventCancelled ev w = (Inr (), w') \<and> txn_status (db w') = txn_status (db w) \<and>
    (\<forall>t \<in> set (transactions (db w)). tx_EventID t = ev \<and> tx_Status t = StatusCompleted \<longrightarrow>
       (\<exists>rf. filter (\<lambda>r. rf_TransactionID r = tx_ID t) (refund_requests (db w')) = [rf] \<and> rf_AmountRupiah rf = tx_AmountRupiah t)) \<and>
    refund_requests (db w') = refund_requests (db w) @ rs \<and>
    (\<forall>r \<in> set rs. \<exists>t \<in> set (transactions (db w)). tx_EventID t = ev \<and> tx_Status t = StatusCompleted \<and>
       rf_TransactionID r = tx_ID t \<and> rf_AmountRupiah r = tx_AmountRupiah t) \<and>
    HandleEventCancelled ev w' = (Inr (), w'') \<and> refund_requests (db w'') = refund_requests (db w')"
proof -
  let ?done = "\<lambda>d. {t \<in> set (transactions d). tx_EventID t = ev \<and> tx_Status t = StatusCompleted}"
  have "pay_schema (db w)" using assms(2) by (simp add: pay_inv_def)
  from HandleEventCancelled_calm [OF assms(1) this assms(3,4), of ev] obtain w' rs where w': "HandleEventCancelled ev w = (Inr (), w')"
    "calm w'" "pay_schema (db w')" "fresh_refunds w'" "core_rows (db w') = core_rows (db w)"
    "txn_status (db w') = txn_status (db w)" "refund_requests (db w') = refund_requests (db w) @ rs"
    "rf_IdempotencyKey ` set rs = cancel_key ` ?done (db w) - refund_keys (db w)"
    "\<forall>r \<in> set rs. \<exists>t \<in> set (transactions (db w)). tx_EventID t = ev \<and> tx_Status t = StatusCompleted \<and>
       rf_TransactionID r = tx_ID t \<and> rf_AmountRupiah r = tx_AmountRupiah t" by blast
  have inv: "pay_inv (db w')"
    using preservesD [OF HandleEventCancelled_inv [of "[]" ev], of w] assms(2) w'(1) by (simp add: inv_read_def)
  have "refund_keys (db w') = refund_keys (db w) \<union> rf_IdempotencyKey ` set rs"
    using w'(7) by (auto simp: refund_keys_def)
  then have keys: "cancel_key ` ?done (db w) \<subseteq> refund_keys (db w')"
    unfolding w'(8) by blast
  have one: "\<exists>rf. filter (\<lambda>r. rf_TransactionID r = tx_ID t) (refund_requests (db w')) = [rf] \<and> rf_AmountRupiah rf = tx_AmountRupiah t"
    if "t \<in> ?done (db w)" for t
    by (rule cancelled_refund_single [OF assms(2) inv w'(5)]) (use that keys in auto)
  have amounts: "\<forall>t \<in> set (transactions (db w')). int8_ok (tx_AmountRupiah t)"
    using assms(4) core_rows_row [OF w'(5)] by metis
  have "cancel_key ` ?done (db w') \<subseteq> cancel_key ` ?done (db w)"
  proof (rule image_subsetI)
    fix t' assume t': "t' \<in> ?done (db w')"
    then obtain t where "t \<in> set (transactions (db w))" "tx_ID t = tx_ID t'" "tx_EventID t = tx_EventID t'" "tx_Status t = tx_Status t'"
      using core_rows_row [OF w'(5)] by (metis (no_types, lifting) mem_Collect_eq)
    with t' show "cancel_key t' \<in> cancel_key ` ?done (db w)" by (auto simp: cancel_key_def image_iff intro!: exI [of _ t])
  qed
  with keys have none: "cancel_key ` ?done (db w') - refund_keys (db w') = {}" by blast
  from HandleEventCancelled_calm [OF w'(2-4) amounts, of ev] none obtain w'' where
    "HandleEventCancelled ev w' = (Inr (), w'')" "refund_requests (db w'') = refund_requests (db w')" by auto
  with w' one show ?thesis by blast
qed

end
