(* ===== verification/Consumers.thy ===== *)
theory Consumers
  imports Reservation_Paths Payment_Paths
begin

text \<open>
  Kafka on the receiving side: the generic consumer of \<^verbatim>\<open>pkg/kafka/kafka.go\<close>, the consumers of the
  two services (\<^verbatim>\<open>kafka/ticketing_consumer.go\<close>, \<^verbatim>\<open>kafka/consumer.go\<close>) and the callbacks they are
  given at the start. The reader of the Kafka library is outside the repository: what its calls
  return is a list of \<open>read_event\<close>s.
\<close>

section \<open>The generic consumer\<close>

record Message =
  ms_Topic :: string
  ms_Key :: string
  ms_Value :: "json option"
  ms_Offset :: int

definition WithConcurrency :: "int \<Rightarrow> int" where
  "WithConcurrency n = (if n < 1 then 1 else n)"

text \<open>
  \<^verbatim>\<open>ReadMessage\<close> returns a message, or a message that cannot be handed to a worker because the
  context ends, or an error, with the context ended or not. \<open>Running\<close> stands for a consumer that
  waits for the next message.
\<close>

datatype read_event = Got Message | GotAtEnd Message | ReadError bool string

datatype consume_end = Running | Ended | ReadFailed string

fun read_loop :: "read_event list \<Rightarrow> Message list \<times> consume_end" where
  "read_loop [] = ([], Running)"
| "read_loop (Got m # es) = (let (ms, fin) = read_loop es in (m # ms, fin))"
| "read_loop (GotAtEnd m # es) = ([], Ended)"
| "read_loop (ReadError cancelled e # es) = ([], if cancelled then Ended else ReadFailed e)"

text \<open>One worker: an error of the handler is printed, and the next message is taken.\<close>

fun work :: "(Message \<Rightarrow> ('e, 'd, unit) op) \<Rightarrow> Message list \<Rightarrow> 'd world \<Rightarrow> 'd world" where
  "work handler [] w = w"
| "work handler (m # ms) w = work handler ms (snd (handler m w))"

text \<open>
  The pool of workers takes the messages in some order \<open>sched\<close>; with one worker it is the order
  of the partition. Handlers that overlap are serialised here; what they do to one booking at the
  same time is decided by the guarded statements of the repositories.
\<close>

definition Consume ::
    "(Message list \<Rightarrow> Message list) \<Rightarrow> (Message \<Rightarrow> ('e, 'd, unit) op) \<Rightarrow> read_event list \<Rightarrow> 'd world \<Rightarrow> consume_end \<times> 'd world" where
  "Consume sched handler evs w = (let (ms, fin) = read_loop evs in (fin, work handler (sched ms) w))"

section \<open>The ticketing service\<close>

record TicketingConsumer =
  tc_paymentCompletedFn :: "(string \<Rightarrow> string \<Rightarrow> unit ticketing_op) option"
  tc_paymentFailedFn :: "(string \<Rightarrow> unit ticketing_op) option"
  tc_eventCancelledFn :: "(string \<Rightarrow> unit ticketing_op) option"

definition NewTicketingConsumer :: TicketingConsumer where
  "NewTicketingConsumer = \<lparr>tc_paymentCompletedFn = None, tc_paymentFailedFn = None, tc_eventCancelledFn = None\<rparr>"

text \<open>A payload that does not decode is an error of the handler.\<close>

definition handle_completed :: "TicketingConsumer \<Rightarrow> Message \<Rightarrow> unit ticketing_op" where
  "handle_completed c msg =
     (case Option.bind (ms_Value msg) unmarshal_PaymentCompleted of
        None \<Rightarrow> failE ErrDecode
      | Some event \<Rightarrow> (case tc_paymentCompletedFn c of None \<Rightarrow> retE () | Some fn \<Rightarrow> fn (pc_BookingID event) (pc_TransactionID event)))"

definition handle_expired :: "TicketingConsumer \<Rightarrow> Message \<Rightarrow> unit ticketing_op" where
  "handle_expired c msg =
     (case Option.bind (ms_Value msg) unmarshal_PaymentExpired of
        None \<Rightarrow> failE ErrDecode
      | Some event \<Rightarrow> (case tc_paymentFailedFn c of None \<Rightarrow> retE () | Some fn \<Rightarrow> fn (px_BookingID event)))"

definition handle_cancelled :: "TicketingConsumer \<Rightarrow> Message \<Rightarrow> unit ticketing_op" where
  "handle_cancelled c msg =
     (case Option.bind (ms_Value msg) unmarshal_EventCancelled of
        None \<Rightarrow> failE ErrDecode
      | Some event \<Rightarrow> (case tc_eventCancelledFn c of None \<Rightarrow> retE () | Some fn \<Rightarrow> fn (ec_EventID event)))"

text \<open>\<^verbatim>\<open>Start\<close> runs one consumer per topic; the table of their handlers.\<close>

definition ticketing_Start :: "TicketingConsumer \<Rightarrow> string \<Rightarrow> (Message \<Rightarrow> unit ticketing_op) option" where
  "ticketing_Start c topic =
     (if topic = ''payment.completed'' then Some (handle_completed c)
      else if topic = ''payment.expired'' then Some (handle_expired c)
      else if topic = ''event.cancelled'' then Some (handle_cancelled c)
      else None)"

definition StartConsumers :: "string \<Rightarrow> (Message \<Rightarrow> unit ticketing_op) option" where
  "StartConsumers =
     ticketing_Start (NewTicketingConsumer\<lparr>tc_paymentCompletedFn := Some Confirm, tc_paymentFailedFn := Some ExpireOnPaymentExpired,
                                            tc_eventCancelledFn := Some CancelBookings\<rparr>)"

section \<open>The payment service\<close>

definition payment_StartConsumer :: "string \<Rightarrow> (Message \<Rightarrow> unit payment_op) option" where
  "payment_StartConsumer topic =
     (if topic = ''event.cancelled'' then Some (\<lambda>msg. on_event_cancelled (ms_Value msg)) else None)"

section \<open>Invariants\<close>

lemma work_preserves: "(\<And>m. preserves I (h m)) \<Longrightarrow> I (db w) \<Longrightarrow> I (db (work h ms w))"
  by (induction ms arbitrary: w) (auto dest: preservesD)

lemma StartConsumers_table [simp]:
  "StartConsumers ''payment.completed'' = Some (\<lambda>m. case Option.bind (ms_Value m) unmarshal_PaymentCompleted of
     None \<Rightarrow> failE ErrDecode | Some e \<Rightarrow> Confirm (pc_BookingID e) (pc_TransactionID e))"
  "StartConsumers ''payment.expired'' = Some (\<lambda>m. case Option.bind (ms_Value m) unmarshal_PaymentExpired of
     None \<Rightarrow> failE ErrDecode | Some e \<Rightarrow> ExpireOnPaymentExpired (px_BookingID e))"
  "StartConsumers ''event.cancelled'' = Some (\<lambda>m. case Option.bind (ms_Value m) unmarshal_EventCancelled of
     None \<Rightarrow> failE ErrDecode | Some e \<Rightarrow> CancelBookings (ec_EventID e))"
  by (simp_all add: StartConsumers_def ticketing_Start_def NewTicketingConsumer_def handle_completed_def [abs_def]
      handle_expired_def [abs_def] handle_cancelled_def [abs_def] cong: option.case_cong)

lemma StartConsumers_topics:
  "StartConsumers topic = Some h \<Longrightarrow> topic \<in> {''payment.completed'', ''payment.expired'', ''event.cancelled''}"
  by (auto simp: StartConsumers_def ticketing_Start_def split: if_splits)

lemma StartConsumers_keeps:
  assumes "StartConsumers topic = Some h"
  shows "preserves inventory_ok (h m)"
  using StartConsumers_topics [OF assms] assms
  by (auto intro!: preserves_failE inventory.Confirm_keeps inventory.Expire_keeps inventory.CancelBookings_keeps split: option.split)

text \<open>
  Property C5: whatever messages arrive on the topics of the ticketing service, well-formed or not,
  repeated or out of order, in whatever order the workers take them, and whatever statements the
  database fails or answers late, seats are never oversold and the schema is kept: confirmation,
  expiry and cancellation each move seats and status in one transaction.
\<close>

theorem consumers_keep_inventory:
  assumes "StartConsumers topic = Some h" "inventory_ok (db w)"
  shows "inventory_ok (db (snd (Consume sched h evs w)))"
proof -
  have "preserves inventory_ok (h m)" for m by (rule StartConsumers_keeps [OF assms(1)])
  then show ?thesis
    using assms(2) by (auto simp: Consume_def Let_def work_preserves split: prod.split)
qed

section \<open>Repeated delivery\<close>

lemma read_loop_Got: "read_loop (map Got ms) = (ms, Running)"
  by (induction ms) simp_all

lemma work_replicate: "(\<And>w. P (db w) \<Longrightarrow> db (snd (h m w)) = db w) \<Longrightarrow> P (db w) \<Longrightarrow> db (work h (replicate n m) w) = db w"
proof (induction n arbitrary: w)
  case (Suc n)
  then have "db (snd (h m w)) = db w" by blast
  with Suc.IH [of "snd (h m w)"] Suc.prems show ?case by simp
qed simp

text \<open>
  The outbox may publish a message more than once. However often the message that a
  booking was paid is delivered, the booking is confirmed once and one ticket per item is issued.
\<close>

theorem paid_message_repeated:
  assumes "StartConsumers ''payment.completed'' = Some h" "calm w" "schema_ok (db w)"
    and "Option.bind (ms_Value m) unmarshal_PaymentCompleted = Some e" "pc_BookingID e = i"
    and "find (\<lambda>x. br_ID x = i) (bookings (db w)) = Some r" "br_Status r = ''pending''"
    and "find (\<lambda>x. ev_ID x = br_EventID r) (events (db w)) = Some ev" "ev_Status ev = ''published''"
  shows "\<exists>w'. Consume id h (replicate (Suc n) (Got m)) w = (Running, w') \<and>
    booking_status (db w') = (booking_status (db w))(i \<mapsto> ''confirmed'') \<and>
    map (\<lambda>x. (ob_Topic x, ob_Key x)) (outbox (db w')) = map (\<lambda>x. (ob_Topic x, ob_Key x)) (outbox (db w)) @
      map (\<lambda>it. (''ticket.issued'', i @ ''-'' @ ir_ID it)) (filter (\<lambda>it. ir_BookingID it = i) (booking_items (db w)))"
proof -
  have h: "h m = Confirm i (pc_TransactionID e)"
    using assms(1,4,5) by auto
  let ?v = "\<lambda>x. (ob_Topic x, ob_Key x, ob_Payload x, ob_Delivered x)"
  obtain w1 where w1: "Confirm i (pc_TransactionID e) w = (Inr (), w1)"
    "booking_status (db w1) = (booking_status (db w))(i \<mapsto> ''confirmed'')"
    "map ?v (outbox (db w1)) = map ?v (outbox (db w)) @
      map (\<lambda>it. (''ticket.issued'', i @ ''-'' @ ir_ID it, marshal_TicketIssued
        \<lparr>ti_TicketID = ir_ID it, ti_BookingID = i, ti_UserID = br_UserID r, ti_EventID = br_EventID r, ti_TicketTypeID = ir_TicketTypeID it\<rparr>, False))
      (filter (\<lambda>it. ir_BookingID it = i) (booking_items (db w)))"
    using Confirm_issues [OF assms(2,3,6-9)] by blast
  have again: "db (work h (replicate n m) w1) = db w1"
  proof (rule work_replicate [where P = "\<lambda>d. booking_status d i \<noteq> Some ''pending''"])
    show "booking_status (db w1) i \<noteq> Some ''pending''" using w1(2) by simp
  qed (use h settled_untouched in simp)
  have run: "Consume id h (replicate (Suc n) (Got m)) w = (Running, work h (replicate n m) w1)"
    using w1(1) h read_loop_Got [of "replicate (Suc n) m"] by (simp add: Consume_def Let_def)
  have "map (\<lambda>(a, b, c, d). (a, b)) (map ?v (outbox (db w1))) = map (\<lambda>x. (ob_Topic x, ob_Key x)) (outbox (db w1))" by simp
  then have "map (\<lambda>x. (ob_Topic x, ob_Key x)) (outbox (db w1)) = map (\<lambda>x. (ob_Topic x, ob_Key x)) (outbox (db w)) @
      map (\<lambda>it. (''ticket.issued'', i @ ''-'' @ ir_ID it)) (filter (\<lambda>it. ir_BookingID it = i) (booking_items (db w)))"
    unfolding w1(3) by (simp add: comp_def)
  with run again w1(2) show ?thesis by auto
qed

end
