(* ===== verification/Http.thy ===== *)
theory Http
  imports Dto
begin

text \<open>
  Package \<^verbatim>\<open>pkg/http\<close>: the user context that the gateway passes in headers, the role guard and
  the JSON responses, and the few parts of the standard library the handlers use. A request is
  what a handler can see of it: \<open>rq_header\<close>, \<open>rq_param\<close> and \<open>rq_query\<close> give the empty string for
  a name that is absent, as \<^verbatim>\<open>Header.Get\<close>, \<^verbatim>\<open>chi.URLParam\<close> and \<^verbatim>\<open>Query().Get\<close> do;
  \<open>rq_body\<close> is \<open>None\<close> when the body is not JSON and \<open>rq_size\<close> is its length in bytes.
\<close>

section \<open>Requests and responses\<close>

record request =
  rq_header :: "string \<Rightarrow> string"
  rq_param :: "string \<Rightarrow> string"
  rq_query :: "string \<Rightarrow> string"
  rq_body :: "json option"
  rq_size :: nat

text \<open>
  The envelope \<^verbatim>\<open>Response\<close> carries data or an error. The text of an error value
  (\<^verbatim>\<open>err.Error()\<close>) is kept as the value itself, that of the validator is not looked into.
\<close>

datatype 'e body = NoBody | Data json | Err string | ErrVal 'e | ErrValidation

record 'e http_response =
  hr_status :: int
  hr_body :: "'e body"
  hr_headers :: "(string \<times> string) list"

definition json_header :: "(string \<times> string) list" where
  "json_header = [(''Content-Type'', ''application/json'')]"

definition writeJSON :: "int \<Rightarrow> 'e body \<Rightarrow> 'e http_response" where
  "writeJSON status payload = \<lparr>hr_status = status, hr_body = payload, hr_headers = json_header\<rparr>"

definition OK :: "json \<Rightarrow> 'e http_response" where "OK dat = writeJSON 200 (Data dat)"
definition Created :: "json \<Rightarrow> 'e http_response" where "Created dat = writeJSON 201 (Data dat)"
definition Error :: "int \<Rightarrow> 'e body \<Rightarrow> 'e http_response" where "Error status msg = writeJSON status msg"
definition BadRequest :: "'e body \<Rightarrow> 'e http_response" where "BadRequest msg = Error 400 msg"
definition Unauthorized :: "'e body \<Rightarrow> 'e http_response" where "Unauthorized msg = Error 401 msg"
definition Forbidden :: "'e body \<Rightarrow> 'e http_response" where "Forbidden msg = Error 403 msg"
definition NotFound :: "'e body \<Rightarrow> 'e http_response" where "NotFound msg = Error 404 msg"
definition InternalServerError :: "'e body \<Rightarrow> 'e http_response" where "InternalServerError msg = Error 500 msg"

named_theorems responses \<open>the responses with their status codes\<close>

lemmas response_defs [responses] =
  writeJSON_def OK_def Created_def Error_def BadRequest_def Unauthorized_def Forbidden_def NotFound_def
  InternalServerError_def

section \<open>The user context\<close>

record user_ctx =
  uc_UserID :: "string option"
  uc_Role :: "string option"
  uc_Email :: "string option"

definition no_user :: user_ctx where
  "no_user = \<lparr>uc_UserID = None, uc_Role = None, uc_Email = None\<rparr>"

type_synonym ('e, 'd) handler = "request \<Rightarrow> user_ctx \<Rightarrow> 'd world \<Rightarrow> 'e http_response \<times> 'd world"

definition ctx_of_headers :: "request \<Rightarrow> user_ctx \<Rightarrow> user_ctx" where
  "ctx_of_headers r ctx =
     (let uid = rq_header r ''X-Authenticated-User-ID'';
          rl = rq_header r ''X-Authenticated-User-Role'';
          em = rq_header r ''X-Authenticated-User-Email'';
          ctx = (if uid \<noteq> '''' then ctx\<lparr>uc_UserID := Some uid\<rparr> else ctx);
          ctx = (if rl \<noteq> '''' then ctx\<lparr>uc_Role := Some rl\<rparr> else ctx);
          ctx = (if em \<noteq> '''' then ctx\<lparr>uc_Email := Some em\<rparr> else ctx)
      in ctx)"

definition WithUserContext :: "('e, 'd) handler \<Rightarrow> ('e, 'd) handler" where
  "WithUserContext nxt r ctx = nxt r (ctx_of_headers r ctx)"

definition UserIDFromContext :: "user_ctx \<Rightarrow> string" where
  "UserIDFromContext ctx = (case uc_UserID ctx of Some v \<Rightarrow> v | None \<Rightarrow> '''')"

definition UserRoleFromContext :: "user_ctx \<Rightarrow> role" where
  "UserRoleFromContext ctx = (case uc_Role ctx of Some v \<Rightarrow> v | None \<Rightarrow> '''')"

definition UserEmailFromContext :: "user_ctx \<Rightarrow> string" where
  "UserEmailFromContext ctx = (case uc_Email ctx of Some v \<Rightarrow> v | None \<Rightarrow> '''')"

lemma ctx_of_headers_user:
  "UserIDFromContext (ctx_of_headers r no_user) = rq_header r ''X-Authenticated-User-ID''"
  "UserRoleFromContext (ctx_of_headers r no_user) = rq_header r ''X-Authenticated-User-Role''"
  "UserEmailFromContext (ctx_of_headers r no_user) = rq_header r ''X-Authenticated-User-Email''"
  by (simp_all add: ctx_of_headers_def Let_def no_user_def UserIDFromContext_def UserRoleFromContext_def UserEmailFromContext_def)

fun role_allowed :: "role \<Rightarrow> role list \<Rightarrow> bool" where
  "role_allowed userRole [] = False"
| "role_allowed userRole (allowed # roles) = (if userRole = allowed then True else role_allowed userRole roles)"

definition RequireRole :: "role list \<Rightarrow> ('e, 'd) handler \<Rightarrow> ('e, 'd) handler" where
  "RequireRole roles nxt r ctx w =
     (if role_allowed (UserRoleFromContext ctx) roles then nxt r ctx w
      else (Forbidden (Err ''insufficient permissions''), w))"

lemma role_allowed_iff [simp]: "role_allowed u roles \<longleftrightarrow> u \<in> set roles"
  by (induction roles) auto

section \<open>Answering with the result of an operation\<close>

definition respond ::
    "('e, 'd, 'a) op \<Rightarrow> ('e \<Rightarrow> 'f http_response) \<Rightarrow> ('a \<Rightarrow> 'f http_response) \<Rightarrow> 'd world \<Rightarrow> 'f http_response \<times> 'd world" where
  "respond f fail succ w = (case f w of (Inl e, w') \<Rightarrow> (fail e, w') | (Inr a, w') \<Rightarrow> (succ a, w'))"

definition reply :: "'f http_response \<Rightarrow> 'd world \<Rightarrow> 'f http_response \<times> 'd world" where
  "reply resp w = (resp, w)"

lemma respond_run:
  "respond f fail succ w = (resp, w') \<longleftrightarrow>
   (\<exists>e. f w = (Inl e, w') \<and> resp = fail e) \<or> (\<exists>a. f w = (Inr a, w') \<and> resp = succ a)"
  by (auto simp: respond_def split: prod.splits sum.splits)

lemma respond_world [simp]: "snd (respond f fail succ w) = snd (f w)"
  by (simp add: respond_def split: prod.split sum.split)

lemma reply_world [simp]: "snd (reply resp w) = w" "fst (reply resp w) = resp"
  by (simp_all add: reply_def)

section \<open>Parts of the standard library\<close>

text \<open>
  \<^verbatim>\<open>n, _ := strconv.Atoi(s)\<close>: text that is not a number gives 0, a number that does not fit
  gives the nearest 64-bit value.
\<close>

definition digit_of :: "char \<Rightarrow> int option" where
  "digit_of c = (let n = (of_char c :: int) in if 48 \<le> n \<and> n \<le> 57 then Some (n - 48) else None)"

fun digits_from :: "int \<Rightarrow> string \<Rightarrow> int option" where
  "digits_from acc [] = Some acc"
| "digits_from acc (c # cs) = (case digit_of c of None \<Rightarrow> None | Some d \<Rightarrow> digits_from (10 * acc + d) cs)"

definition clamp64 :: "int \<Rightarrow> int" where
  "clamp64 n = min (2 ^ 63 - 1) (max (- (2 ^ 63)) n)"

definition Atoi :: "string \<Rightarrow> int" where
  "Atoi s =
     (let (neg, ds) = (case s of [] \<Rightarrow> (False, [])
                       | c # cs \<Rightarrow> if c = CHR ''-'' then (True, cs) else if c = CHR ''+'' then (False, cs) else (False, s))
      in if ds = [] then 0
         else (case digits_from 0 ds of None \<Rightarrow> 0 | Some n \<Rightarrow> clamp64 (if neg then - n else n)))"

lemma Atoi_bounds: "int8_ok (Atoi s)"
  by (auto simp: Atoi_def Let_def clamp64_def int8_ok_def split: list.splits option.splits prod.splits)

text \<open>\<^verbatim>\<open>Format("2006-01-02T15:04:05Z07:00")\<close> drops the fraction of the second.\<close>

definition fmt_seconds :: "time \<Rightarrow> json" where
  "fmt_seconds t = JTime (t div Second * Second)"

text \<open>\<^verbatim>\<open>strings.CutPrefix\<close> and \<^verbatim>\<open>strings.HasPrefix\<close> with \<^verbatim>\<open>strings.TrimPrefix\<close>.\<close>

fun cut_prefix :: "string \<Rightarrow> string \<Rightarrow> string option" where
  "cut_prefix [] s = Some s"
| "cut_prefix (p # ps) [] = None"
| "cut_prefix (p # ps) (c # cs) = (if p = c then cut_prefix ps cs else None)"

lemma cut_prefix_iff: "cut_prefix p s = Some r \<longleftrightarrow> s = p @ r"
  by (induction p s rule: cut_prefix.induct) auto

text \<open>\<^verbatim>\<open>strings.TrimSuffix\<close>\<close>

definition TrimSuffix :: "string \<Rightarrow> string \<Rightarrow> string" where
  "TrimSuffix s suffix = (case cut_prefix (rev suffix) (rev s) of None \<Rightarrow> s | Some r \<Rightarrow> rev r)"

text \<open>
  \<^verbatim>\<open>base64.StdEncoding\<close> and \<^verbatim>\<open>base64.URLEncoding\<close>, with padding; they differ in their alphabets.
\<close>

definition StdEncoding :: string where
  "StdEncoding = ''ABCDEFGHIJKLMNOPQRSTUVWXYZabcdefghijklmnopqrstuvwxyz0123456789+/''"

definition URLEncoding :: string where
  "URLEncoding = ''ABCDEFGHIJKLMNOPQRSTUVWXYZabcdefghijklmnopqrstuvwxyz0123456789-_''"

definition b64_digits :: "string \<Rightarrow> int \<Rightarrow> string" where
  "b64_digits alphabet n = map (\<lambda>k. alphabet ! nat (k mod 64)) [n div 262144, n div 4096, n div 64, n]"

fun base64 :: "string \<Rightarrow> string \<Rightarrow> string" where
  "base64 alphabet [] = []"
| "base64 alphabet [a] = take 2 (b64_digits alphabet (65536 * of_char a)) @ ''==''"
| "base64 alphabet [a, b] = take 3 (b64_digits alphabet (65536 * of_char a + 256 * of_char b)) @ ''=''"
| "base64 alphabet (a # b # c # cs) =
     b64_digits alphabet (65536 * of_char a + 256 * of_char b + of_char c) @ base64 alphabet cs"

text \<open>A field with the tag \<^verbatim>\<open>omitempty\<close>.\<close>

definition omit_str :: "string \<Rightarrow> string \<Rightarrow> (string \<times> json) list" where
  "omit_str k s = (if s = '''' then [] else [(k, JStr s)])"

text \<open>A request given by its path parameters, query, headers and body, as the examples use it.\<close>

definition lookup_or_empty :: "(string \<times> string) list \<Rightarrow> string \<Rightarrow> string" where
  "lookup_or_empty kvs k = (case map_of kvs k of None \<Rightarrow> '''' | Some v \<Rightarrow> v)"

definition request_with ::
    "(string \<times> string) list \<Rightarrow> (string \<times> string) list \<Rightarrow> (string \<times> string) list \<Rightarrow> json option \<Rightarrow> request" where
  "request_with params query headers body =
     \<lparr>rq_header = lookup_or_empty headers, rq_param = lookup_or_empty params, rq_query = lookup_or_empty query,
      rq_body = body, rq_size = 0\<rparr>"

lemma request_with_sel [simp]:
  "rq_header (request_with ps qs hs b) k = lookup_or_empty hs k" "rq_param (request_with ps qs hs b) k = lookup_or_empty ps k"
  "rq_query (request_with ps qs hs b) k = lookup_or_empty qs k" "rq_body (request_with ps qs hs b) = b"
  by (simp_all add: request_with_def)

lemma lookup_or_empty_simps [simp]:
  "lookup_or_empty [] k = ''''" "lookup_or_empty ((k, v) # kvs) k' = (if k' = k then v else lookup_or_empty kvs k')"
  by (simp_all add: lookup_or_empty_def)

end
