(* ===== verification/Payment_Handlers.thy ===== *)
theory Payment_Handlers
  imports Payment_Invariant Http
begin

text \<open>
  The HTTP layer of the payment service: \<^verbatim>\<open>handler/dto.go\<close>, \<^verbatim>\<open>handler/payment_handler.go\<close> and
  \<^verbatim>\<open>handler/routes.go\<close>. Comparing keys in constant time is comparing them.
\<close>

section \<open>Requests and responses\<close>

record InternalCreateRequest =
  ic_BookingID :: string
  ic_EventID :: string
  ic_UserID :: string
  ic_Email :: string
  ic_AmountRupiah :: int
  ic_ExpiresAt :: time

definition unmarshal_InternalCreateRequest :: "json \<Rightarrow> InternalCreateRequest option" where
  "unmarshal_InternalCreateRequest j =
     (case dec_top j of None \<Rightarrow> None | Some kvs \<Rightarrow>
       (case (dec_str ''booking_id'' kvs, dec_str ''event_id'' kvs, dec_str ''user_id'' kvs, dec_str ''email'' kvs,
              dec_int ''amount_rupiah'' kvs, dec_time ''expires_at'' kvs) of
          (Some b, Some e, Some u, Some em, Some a, Some x) \<Rightarrow>
            Some \<lparr>ic_BookingID = b, ic_EventID = e, ic_UserID = u, ic_Email = em, ic_AmountRupiah = a, ic_ExpiresAt = x\<rparr>
        | _ \<Rightarrow> None))"

definition formatTime :: "time option \<Rightarrow> json" where
  "formatTime t = (case t of None \<Rightarrow> JStr '''' | Some t \<Rightarrow> if t = 0 then JStr '''' else fmt_seconds t)"

definition InternalCreateResponse :: "Transaction \<Rightarrow> json" where
  "InternalCreateResponse txn = JObj [(''transaction_id'', JStr (tx_ID txn)), (''booking_id'', JStr (tx_BookingID txn))]"

definition ProcessPaymentResponse :: "Transaction \<Rightarrow> SessionResult \<Rightarrow> json" where
  "ProcessPaymentResponse txn result = JObj
     [(''transaction_id'', JStr (tx_ID txn)), (''payment_session_id'', JStr (sr_ProviderRef result)),
      (''payment_link_url'', JStr (sr_PaymentLinkURL result)), (''amount_rupiah'', JNum (tx_AmountRupiah txn)),
      (''currency'', JStr (tx_Currency txn)), (''status'', JStr (tx_Status txn)), (''expires_at'', formatTime (tx_ExpiresAt txn))]"

definition PaymentStatusResponse :: "Transaction \<Rightarrow> json" where
  "PaymentStatusResponse txn = JObj
     ([(''transaction_id'', JStr (tx_ID txn)), (''status'', JStr (tx_Status txn))] @
      omit_str ''payment_link_url'' (tx_PaymentLinkURL txn) @
      [(''amount_rupiah'', JNum (tx_AmountRupiah txn)), (''currency'', JStr (tx_Currency txn))])"

text \<open>\<open>full\<close>: with the payment link and the deadline, which the other uses leave empty.\<close>

definition TransactionResponse :: "bool \<Rightarrow> Transaction \<Rightarrow> json" where
  "TransactionResponse full txn = JObj
     ([(''id'', JStr (tx_ID txn)), (''booking_id'', JStr (tx_BookingID txn)), (''event_id'', JStr (tx_EventID txn)),
       (''amount_rupiah'', JNum (tx_AmountRupiah txn)), (''currency'', JStr (tx_Currency txn)), (''status'', JStr (tx_Status txn))] @
      omit_str ''refund_status'' (tx_RefundStatus txn) @
      (if full then omit_str ''payment_link_url'' (tx_PaymentLinkURL txn) else []) @
      (if full \<and> formatTime (tx_ExpiresAt txn) \<noteq> JStr '''' then [(''expires_at'', formatTime (tx_ExpiresAt txn))] else []) @
      [(''created_at'', fmt_seconds (tx_CreatedAt txn))])"

section \<open>Handlers\<close>

type_synonym payment_handler = "(payment_error, payment_db) handler"

record PaymentHandler =
  ph_svc :: PaymentService
  ph_internalKey :: string
  ph_callbackToken :: string

definition requireInternalKey :: "PaymentHandler \<Rightarrow> payment_handler \<Rightarrow> payment_handler" where
  "requireInternalKey h nxt r ctx w =
     (if rq_header r ''X-Internal-Key'' \<noteq> ph_internalKey h then (Unauthorized (Err ''invalid internal key''), w)
      else nxt r ctx w)"

definition PaymentHandler_InitiateTxnForBooking :: "PaymentHandler \<Rightarrow> payment_handler" where
  "PaymentHandler_InitiateTxnForBooking h r ctx =
     (case Option.bind (rq_body r) unmarshal_InternalCreateRequest of
        None \<Rightarrow> reply (BadRequest (Err ''invalid request body''))
      | Some req \<Rightarrow>
          if ic_BookingID req = '''' \<or> ic_UserID req = '''' \<or> ic_EventID req = '''' \<or> ic_AmountRupiah req \<le> 0
          then reply (BadRequest (Err ''booking_id, event_id, user_id and amount_rupiah are required''))
          else respond (InitiateTxnForBooking (ph_svc h) (ic_BookingID req) (ic_EventID req) (ic_UserID req) (ic_Email req)
                          (ic_AmountRupiah req) (ic_ExpiresAt req))
                 (\<lambda>_. InternalServerError (Err ''failed to create transaction''))
                 (\<lambda>txn. Created (InternalCreateResponse txn)))"

definition process_failed :: "payment_error \<Rightarrow> payment_error http_response" where
  "process_failed err =
     (case err of
        ErrTransactionNotFound \<Rightarrow> NotFound (Err ''transaction not found'')
      | ErrAlreadyProcessed \<Rightarrow> Error 409 (Err ''payment already initiated'')
      | ErrTransactionExpired \<Rightarrow> Error 409 (Err ''booking has expired'')
      | ErrGatewayUnavailable e \<Rightarrow> Error 502 (Err ''payment provider unavailable, please try again'')
      | _ \<Rightarrow> InternalServerError (Err ''failed to initiate payment''))"

definition PaymentHandler_ProcessPayment :: "PaymentHandler \<Rightarrow> payment_handler" where
  "PaymentHandler_ProcessPayment h r ctx =
     (if UserIDFromContext ctx = '''' then reply (Unauthorized (Err ''authentication required''))
      else respond (ProcessPayment (ph_svc h) (rq_param r ''booking_id'') (UserIDFromContext ctx)) process_failed
             (\<lambda>(txn, result). OK (ProcessPaymentResponse txn result)))"

definition PaymentHandler_GetPaymentStatus :: payment_handler where
  "PaymentHandler_GetPaymentStatus r ctx =
     respond (GetPaymentStatus (rq_param r ''booking_id''))
       (\<lambda>err. if err = ErrTransactionNotFound then NotFound (Err ''transaction not found'')
              else InternalServerError (Err ''failed to load payment status''))
       (\<lambda>txn. OK (PaymentStatusResponse txn))"

definition webhook_failed :: "string \<Rightarrow> payment_error \<Rightarrow> payment_error http_response" where
  "webhook_failed msg err = (if err = PayErr NoRows then NotFound (Err ''transaction not found'') else BadRequest (Err msg))"

definition received :: "payment_error http_response" where
  "received = OK (JObj [(''status'', JStr ''received'')])"

definition mock_payload :: "string \<Rightarrow> string \<Rightarrow> string \<Rightarrow> string \<Rightarrow> json" where
  "mock_payload event bookingID providerRef sessionStatus = JObj
     [(''data'', JObj [(''payment_session_id'', JStr providerRef), (''reference_id'', JStr bookingID), (''status'', JStr sessionStatus)]),
      (''event'', JStr event)]"

definition mock_event :: "string \<Rightarrow> (string \<times> string) option" where
  "mock_event status =
     (if status = ''success'' then Some (''payment_session.completed'', ''COMPLETED'')
      else if status = ''expired'' then Some (''payment_session.expired'', ''EXPIRED'')
      else None)"

definition PaymentHandler_MockSessionWebhook :: payment_handler where
  "PaymentHandler_MockSessionWebhook r ctx w =
     (case mock_event (rq_param r ''status'') of
        None \<Rightarrow> (BadRequest (Err (''status must be '' @ [CHR 0x27] @ ''success'' @ [CHR 0x27] @ '' or '' @ [CHR 0x27] @ ''expired'' @ [CHR 0x27])), w)
      | Some (event, sessionStatus) \<Rightarrow>
          (case GetPaymentStatus (rq_param r ''booking_id'') w of
             (Inl _, w1) \<Rightarrow> (NotFound (Err ''transaction not found''), w1)
           | (Inr txn, w1) \<Rightarrow>
               respond (HandleSessionWebhook (Some (mock_payload event (rq_param r ''booking_id'') (tx_ProviderRef txn) sessionStatus)))
                 (webhook_failed ''mock webhook failed'') (\<lambda>_. received) w1))"

definition PaymentHandler_GetStatus :: payment_handler where
  "PaymentHandler_GetStatus r ctx =
     respond (GetTransaction (rq_param r ''id'')) (\<lambda>_. NotFound (Err ''transaction not found''))
       (\<lambda>txn. OK (TransactionResponse False txn))"

definition PaymentHandler_GetTransaction :: payment_handler where
  "PaymentHandler_GetTransaction r ctx =
     respond (GetTransaction (rq_param r ''txn_id'')) (\<lambda>_. NotFound (Err ''transaction not found''))
       (\<lambda>txn. if tx_UserID txn \<noteq> UserIDFromContext ctx then NotFound (Err ''transaction not found'')
              else OK (TransactionResponse True txn))"

definition PaymentHandler_Webhook :: "PaymentHandler \<Rightarrow> payment_handler" where
  "PaymentHandler_Webhook h r ctx =
     (if rq_header r ''x-callback-token'' \<noteq> ph_callbackToken h then reply (Unauthorized (Err ''invalid callback token''))
      else if 1048576 < rq_size r then reply (BadRequest (Err ''failed to read body''))
      else respond (HandleSessionWebhook (rq_body r)) (webhook_failed ''invalid webhook payload'') (\<lambda>_. received))"

definition PaymentHandler_ListTransactions :: payment_handler where
  "PaymentHandler_ListTransactions r ctx =
     (if UserIDFromContext ctx = '''' then reply (Unauthorized (Err ''authentication required''))
      else respond (ListMyTransactions (UserIDFromContext ctx)) (\<lambda>_. InternalServerError (Err ''failed to list transactions''))
             (\<lambda>txns. OK (JArr (map (TransactionResponse False) txns))))"

section \<open>Routes\<close>

definition payment_Routes :: "PaymentHandler \<Rightarrow> string \<Rightarrow> string \<Rightarrow> payment_handler option" where
  "payment_Routes h meth pat =
     (let customer = (\<lambda>k. Some (WithUserContext (RequireRole [RoleCustomer] k)))
      in if meth = ''POST'' \<and> pat = ''/api/payments/webhook'' then Some (PaymentHandler_Webhook h)
         else if meth = ''POST'' \<and> pat = ''/api/payments/booking/mock/{booking_id}/{status}'' then Some PaymentHandler_MockSessionWebhook
         else if meth = ''POST'' \<and> pat = ''/api/payments/internal''
              then Some (requireInternalKey h (PaymentHandler_InitiateTxnForBooking h))
         else if meth = ''POST'' \<and> pat = ''/api/payments/booking/{booking_id}'' then customer (PaymentHandler_ProcessPayment h)
         else if meth = ''GET'' \<and> pat = ''/api/payments/booking/{booking_id}'' then customer PaymentHandler_GetPaymentStatus
         else if meth = ''GET'' \<and> pat = ''/api/payments/{id}/status'' then customer PaymentHandler_GetStatus
         else if meth = ''GET'' \<and> pat = ''/api/payments/{txn_id}'' then customer PaymentHandler_GetTransaction
         else if meth = ''GET'' \<and> pat = ''/api/payments'' then customer PaymentHandler_ListTransactions
         else None)"

section \<open>Configuration\<close>

record payment_config =
  cfg_Provider :: string
  cfg_XenditAPIKey :: string
  cfg_XenditBaseURL :: string
  cfg_GatewayExpiryBufferMin :: int
  cfg_ExpiryPollSec :: int
  cfg_PaymentMethods :: string

datatype payment_config_error = BadProvider string | MissingXenditKey | BadBuffer int | BadPoll int

definition payment_Validate :: "payment_config \<Rightarrow> payment_config_error option" where
  "payment_Validate c =
     (if cfg_Provider c \<noteq> ''mock'' \<and> cfg_Provider c \<noteq> ''xendit'' then Some (BadProvider (cfg_Provider c))
      else if cfg_Provider c = ''xendit'' \<and> cfg_XenditAPIKey c = '''' then Some MissingXenditKey
      else if cfg_GatewayExpiryBufferMin c < 0 then Some (BadBuffer (cfg_GatewayExpiryBufferMin c))
      else if cfg_ExpiryPollSec c \<le> 0 then Some (BadPoll (cfg_ExpiryPollSec c))
      else None)"

text \<open>\<^verbatim>\<open>strings.Split(s, ",")\<close> and \<^verbatim>\<open>strings.TrimSpace\<close> (ASCII white space).\<close>

fun split_on :: "char \<Rightarrow> string \<Rightarrow> string list" where
  "split_on sep [] = [[]]"
| "split_on sep (c # cs) =
     (if c = sep then [] # split_on sep cs
      else (case split_on sep cs of [] \<Rightarrow> [[c]] | p # ps \<Rightarrow> (c # p) # ps))"

definition trim_space :: "string \<Rightarrow> string" where
  "trim_space s =
     (let sp = (\<lambda>ch. (of_char ch :: int) \<in> {9, 10, 11, 12, 13, 32})
      in rev (dropWhile sp (rev (dropWhile sp s))))"

fun enabled_from :: "string list \<Rightarrow> string list" where
  "enabled_from [] = []"
| "enabled_from (p # ps) = (let p' = trim_space p in if p' \<noteq> '''' then p' # enabled_from ps else enabled_from ps)"

definition EnabledMethods :: "payment_config \<Rightarrow> string list" where
  "EnabledMethods c = enabled_from (split_on (CHR '','') (cfg_PaymentMethods c))"

section \<open>What a request can do\<close>

lemma read_only_payment_reads [reading]:
  "read_only (GetPaymentStatus b)" "read_only (GetTransaction i)" "read_only (ListMyTransactions u)"
  unfolding GetPaymentStatus_def GetTransaction_def ListMyTransactions_def by (intro reading)+

lemmas payment_reads_db [simp] = read_only_payment_reads [unfolded read_only_def, rule_format]

lemma payment_reach_one: "db w1 = d \<Longrightarrow> db w' = db (run_payment c w1) \<Longrightarrow> payment_reach d (db w')"
  using payment_reach.call [of d w1 c] payment_reach.here [of d] by simp

lemma mock_reach:
  assumes "PaymentHandler_MockSessionWebhook r ctx w = (resp, w')"
  shows "payment_reach (db w) (db w')"
proof (cases "mock_event (rq_param r ''status'')")
  case None
  then show ?thesis using assms by (auto simp: PaymentHandler_MockSessionWebhook_def intro: payment_reach.here)
next
  case (Some p)
  obtain ev st where p: "p = (ev, st)" by fastforce
  obtain g w1 where g: "GetPaymentStatus (rq_param r ''booking_id'') w = (g, w1)" by fastforce
  have db1: "db w1 = db w" by (rule read_onlyD [OF read_only_payment_reads(1) g])
  show ?thesis
  proof (cases g)
    case (Inl e)
    then show ?thesis using assms Some p g db1 by (auto simp: PaymentHandler_MockSessionWebhook_def intro: payment_reach.here)
  next
    case (Inr t)
    let ?p = "Some (mock_payload ev (rq_param r ''booking_id'') (tx_ProviderRef t) st)"
    have "w' = snd (HandleSessionWebhook ?p w1)"
      using assms Some p g Inr by (simp add: PaymentHandler_MockSessionWebhook_def) (metis respond_world snd_conv)
    then show ?thesis by (intro payment_reach_one [OF db1, of _ "CallWebhook ?p"]) simp
  qed
qed

text \<open>What a request to each route does, and in whose name.\<close>

lemma webhook_request:
  assumes "PaymentHandler_Webhook h r c w = (resp, w')"
  shows "w' = w \<or> rq_header r ''x-callback-token'' = ph_callbackToken h \<and> (\<exists>res. HandleSessionWebhook (rq_body r) w = (res, w'))"
  using assms by (auto simp: PaymentHandler_Webhook_def reply_def respond_run split: if_splits)

lemma internal_request:
  assumes "requireInternalKey h (PaymentHandler_InitiateTxnForBooking h) r c w = (resp, w')"
  shows "w' = w \<or> rq_header r ''X-Internal-Key'' = ph_internalKey h \<and>
    (\<exists>b e u em a x res. 0 < a \<and> InitiateTxnForBooking (ph_svc h) b e u em a x w = (res, w'))"
  using assms
  by (auto simp: requireInternalKey_def PaymentHandler_InitiateTxnForBooking_def reply_def respond_run not_le split: option.splits if_splits)

lemma process_request:
  assumes "WithUserContext (RequireRole [RoleCustomer] (PaymentHandler_ProcessPayment h)) r no_user w = (resp, w')"
  shows "w' = w \<or> rq_header r ''X-Authenticated-User-Role'' = RoleCustomer \<and>
    (\<exists>res. ProcessPayment (ph_svc h) (rq_param r ''booking_id'') (rq_header r ''X-Authenticated-User-ID'') w = (res, w'))"
  using assms
  by (auto simp: WithUserContext_def RequireRole_def PaymentHandler_ProcessPayment_def reply_def respond_run ctx_of_headers_user [of r] split: if_splits)

lemma reading_request:
  assumes "x \<in> {PaymentHandler_GetPaymentStatus, PaymentHandler_GetStatus, PaymentHandler_GetTransaction, PaymentHandler_ListTransactions}"
  shows "db (snd (WithUserContext (RequireRole [RoleCustomer] x) r c w)) = db w"
  using assms by (auto simp: WithUserContext_def RequireRole_def PaymentHandler_GetPaymentStatus_def PaymentHandler_GetStatus_def
      PaymentHandler_GetTransaction_def PaymentHandler_ListTransactions_def)

lemma payment_Routes_cases:
  assumes "payment_Routes h meth pat = Some k"
  obtains (webhook) "pat = ''/api/payments/webhook''" "k = PaymentHandler_Webhook h"
    | (mock) "pat = ''/api/payments/booking/mock/{booking_id}/{status}''" "k = PaymentHandler_MockSessionWebhook"
    | (internal) "pat = ''/api/payments/internal''" "k = requireInternalKey h (PaymentHandler_InitiateTxnForBooking h)"
    | (process) "k = WithUserContext (RequireRole [RoleCustomer] (PaymentHandler_ProcessPayment h))"
    | (reading) x where "k = WithUserContext (RequireRole [RoleCustomer] x)"
        "x \<in> {PaymentHandler_GetPaymentStatus, PaymentHandler_GetStatus, PaymentHandler_GetTransaction, PaymentHandler_ListTransactions}"
  using assms unfolding payment_Routes_def Let_def by (auto split: if_splits)

text \<open>
  Property C18: a request to the payment service either leaves its database as it was, or is a
  provider webhook with the shared callback token, or the creation of a transaction with the
  internal key and a positive amount, or a payment by a customer in the customer's own name, or
  comes over the simulated webhook. In every case it is a step of the payment service for which
  the single-outcome property holds.
\<close>

theorem payment_requests_authorised:
  assumes "payment_Routes h meth pat = Some k" "k r no_user w = (resp, w')"
  shows "payment_reach (db w) (db w') \<and>
    (db w' = db w \<or>
     pat = ''/api/payments/webhook'' \<and> rq_header r ''x-callback-token'' = ph_callbackToken h \<and>
       (\<exists>res. HandleSessionWebhook (rq_body r) w = (res, w')) \<or>
     pat = ''/api/payments/internal'' \<and> rq_header r ''X-Internal-Key'' = ph_internalKey h \<and>
       (\<exists>b e u em a x res. 0 < a \<and> InitiateTxnForBooking (ph_svc h) b e u em a x w = (res, w')) \<or>
     rq_header r ''X-Authenticated-User-Role'' = RoleCustomer \<and>
       (\<exists>res. ProcessPayment (ph_svc h) (rq_param r ''booking_id'') (rq_header r ''X-Authenticated-User-ID'') w = (res, w')) \<or>
     pat = ''/api/payments/booking/mock/{booking_id}/{status}'')"
  using assms(1)
proof (cases rule: payment_Routes_cases)
  case webhook
  with webhook_request [of h r no_user w resp w'] assms(2) show ?thesis
    using payment_reach_one [of w "db w" w' "CallWebhook (rq_body r)"] by (auto intro: payment_reach.here)
next
  case mock
  then show ?thesis using mock_reach assms(2) by simp
next
  case internal
  have "k r no_user w = (resp, w')" by (fact assms(2))
  from internal_request [OF this [unfolded internal(2)]] show ?thesis
  proof (elim disjE conjE exE)
    fix b e u em a x res assume i: "0 < a" "InitiateTxnForBooking (ph_svc h) b e u em a x w = (res, w')" "rq_header r ''X-Internal-Key'' = ph_internalKey h"
    then have "payment_reach (db w) (db w')" by (intro payment_reach_one [of w _ w' "CallInitiate (ph_svc h) b e u em a x"]) auto
    with i internal show ?thesis by blast
  qed (auto intro: payment_reach.here)
next
  case process
  with process_request [of h r w resp w'] assms(2) show ?thesis
    using payment_reach_one [of w "db w" w' "CallProcess (ph_svc h) (rq_param r ''booking_id'') (rq_header r ''X-Authenticated-User-ID'')"]
    by (auto intro: payment_reach.here)
next
  case (reading x)
  then show ?thesis using reading_request [OF reading(2), of r no_user w] assms(2) by (simp add: payment_reach.here)
qed

end
