(* ===== verification/Payment_Client.thy ===== *)
theory Payment_Client
  imports Consumers Payment_Handlers
begin

text \<open>
  The client with which the ticketing service opens the payment of a booking
  (\<^verbatim>\<open>service/ticketing/internal/payment/client.go\<close>), run against the routes of the payment
  service. What the network and the HTTP library do to a request is its \<open>fate\<close>: it never
  reaches the server, it is handled and the answer is lost (a timeout), or the answer arrives.
  The second attempt sends the request that the first one has already read; whether the library
  can rewind it, or fails without sending, is one of these fates.
\<close>

section \<open>Requests over the network\<close>

datatype fate = NotSent | ReplyLost | Answered

type_synonym network = "string \<Rightarrow> string \<Rightarrow> payment_handler option"

text \<open>The payment service behind a base address, which answers 404 where no route matches.\<close>

definition payment_at :: "PaymentHandler \<Rightarrow> string \<Rightarrow> network" where
  "payment_at h base meth url = Option.bind (cut_prefix base url) (payment_Routes h meth)"

definition serve :: "network \<Rightarrow> string \<Rightarrow> string \<Rightarrow> request \<Rightarrow> payment_db world \<Rightarrow> int \<times> payment_db world" where
  "serve net meth url r w =
     (case net meth url of None \<Rightarrow> (404, w)
      | Some k \<Rightarrow> (case k r no_user w of (resp, w') \<Rightarrow> (hr_status resp, w')))"

definition Do ::
    "network \<Rightarrow> fate \<Rightarrow> string \<Rightarrow> string \<Rightarrow> request \<Rightarrow> payment_db world \<Rightarrow> int option \<times> payment_db world" where
  "Do net f meth url r w =
     (case f of
        NotSent \<Rightarrow> (None, w)
      | ReplyLost \<Rightarrow> (None, snd (serve net meth url r w))
      | Answered \<Rightarrow> (case serve net meth url r w of (st, w') \<Rightarrow> (Some st, w')))"

section \<open>The client\<close>

record Client =
  cl_baseURL :: string
  cl_apiKey :: string

definition NewClient :: "string \<Rightarrow> string \<Rightarrow> Client" where
  "NewClient baseURL apiKey = \<lparr>cl_baseURL = TrimSuffix baseURL ''/'', cl_apiKey = apiKey\<rparr>"

text \<open>\<^verbatim>\<open>json.Marshal\<close> writes the keys of a map in their order; the deadline loses its fraction of a second.\<close>

definition initiate_body :: "string \<Rightarrow> string \<Rightarrow> string \<Rightarrow> string \<Rightarrow> int \<Rightarrow> time \<Rightarrow> json" where
  "initiate_body bookingID eventID userID email amountRupiah expiresAt = JObj
     [(''amount_rupiah'', JNum amountRupiah), (''booking_id'', JStr bookingID), (''email'', JStr email),
      (''event_id'', JStr eventID), (''expires_at'', fmt_seconds expiresAt), (''user_id'', JStr userID)]"

function attempts ::
    "(request \<Rightarrow> fate \<Rightarrow> payment_db world \<Rightarrow> int option \<times> payment_db world) \<Rightarrow> (int \<Rightarrow> fate) \<Rightarrow> request \<Rightarrow> int \<Rightarrow>
     payment_db world \<Rightarrow> ticketing_error option \<times> payment_db world" where
  "attempts send fates r attempt w =
     (if attempt < 2 then
        (case send r (fates attempt) w of
           (None, w') \<Rightarrow> if attempt = 0 then attempts send fates r (attempt + 1) w' else (Some ErrPaymentUnavailable, w')
         | (Some st, w') \<Rightarrow>
             if 200 \<le> st \<and> st < 300 then (None, w')
             else if attempt = 0 \<and> 500 \<le> st then attempts send fates r (attempt + 1) w'
             else (Some ErrPaymentUnavailable, w'))
      else (Some ErrPaymentUnavailable, w))"
  by pat_completeness auto
termination attempts
  by (relation "measure (\<lambda>(send, fates, r, attempt, w). nat (2 - attempt))") auto

definition Client_InitiateTxnForBooking ::
    "network \<Rightarrow> (int \<Rightarrow> fate) \<Rightarrow> Client \<Rightarrow> string \<Rightarrow> string \<Rightarrow> string \<Rightarrow> string \<Rightarrow> int \<Rightarrow> time \<Rightarrow>
     payment_db world \<Rightarrow> ticketing_error option \<times> payment_db world" where
  "Client_InitiateTxnForBooking net fates c bookingID eventID userID email amountRupiah expiresAt =
     attempts (\<lambda>r f. Do net f ''POST'' (cl_baseURL c @ ''/api/payments/internal'') r) fates
       (request_with [] [] [(''Content-Type'', ''application/json''), (''X-Internal-Key'', cl_apiKey c)]
          (Some (initiate_body bookingID eventID userID email amountRupiah expiresAt))) 0"

declare attempts.simps [simp del]

section \<open>The loop\<close>

lemma Do_serves: "Do net f m u r w = (st, w') \<Longrightarrow> w' = w \<or> w' = snd (serve net m u r w)"
  by (auto simp: Do_def split: fate.splits prod.splits)

lemma Do_Some: "Do net f m u r w = (Some st, w') \<Longrightarrow> serve net m u r w = (st, w')"
  by (auto simp: Do_def split: fate.splits prod.splits)

text \<open>The two rounds, without the recursion.\<close>

lemma attempts_rounds:
  "attempts send fates r 0 w =
     (case send r (fates 0) w of
        (None, w') \<Rightarrow> attempts send fates r 1 w'
      | (Some st, w') \<Rightarrow> if 200 \<le> st \<and> st < 300 then (None, w')
          else if 500 \<le> st then attempts send fates r 1 w' else (Some ErrPaymentUnavailable, w'))"
  "attempts send fates r 1 w =
     (case send r (fates 1) w of
        (Some st, w') \<Rightarrow> (if 200 \<le> st \<and> st < 300 then None else Some ErrPaymentUnavailable, w')
      | (None, w') \<Rightarrow> (Some ErrPaymentUnavailable, w'))"
  by (subst attempts.simps, simp split: prod.splits option.splits)+

lemma attempts_invariant:
  assumes send: "\<And>f w. I w \<Longrightarrow> I (snd (send r f w))" and "I w" "attempts send fates r 0 w = (res, w')"
  shows "I w'" "res = None \<or> res = Some ErrPaymentUnavailable"
    "res = None \<Longrightarrow> \<exists>f v st. I v \<and> send r f v = (Some st, w') \<and> 200 \<le> st \<and> st < 300"
proof -
  obtain s1 w1 where s1: "send r (fates 0) w = (s1, w1)" by fastforce
  obtain s2 w2 where s2: "send r (fates 1) w1 = (s2, w2)" by fastforce
  have I1: "I w1" using send [OF assms(2), of "fates 0"] s1 by simp
  have I2: "I w2" using send [OF I1, of "fates 1"] s2 by simp
  have *: "(w' = w1 \<and> res = Some ErrPaymentUnavailable) \<or> (w' = w2 \<and> res = Some ErrPaymentUnavailable) \<or>
    (\<exists>st. w' = w1 \<and> res = None \<and> s1 = Some st \<and> 200 \<le> st \<and> st < 300) \<or>
    (\<exists>st. w' = w2 \<and> res = None \<and> s2 = Some st \<and> 200 \<le> st \<and> st < 300)"
    using assms(3) s1 s2 by (simp add: attempts_rounds split: option.splits if_splits)
  then show "I w'" "res = None \<or> res = Some ErrPaymentUnavailable" using I1 I2 by auto
  show "\<exists>f v st. I v \<and> send r f v = (Some st, w') \<and> 200 \<le> st \<and> st < 300" if "res = None"
    using * that s1 s2 assms(2) I1 by (elim disjE exE conjE) (simp, simp, blast+)
qed


section \<open>The transaction of a booking\<close>

text \<open>The transaction the payment service holds for a booking is the one that was asked for.\<close>

definition asked_for :: "string \<Rightarrow> string \<Rightarrow> string \<Rightarrow> string \<Rightarrow> int \<Rightarrow> time \<Rightarrow> Transaction \<Rightarrow> bool" where
  "asked_for b e u em a x t \<longleftrightarrow>
     tx_BookingID t = b \<and> tx_EventID t = e \<and> tx_UserID t = u \<and> tx_CustomerEmail t = em \<and> tx_AmountRupiah t = a \<and>
     tx_ExpiresAt t = Some x \<and> tx_Status t = StatusInitiated"

definition only_asked :: "string \<Rightarrow> string \<Rightarrow> string \<Rightarrow> string \<Rightarrow> int \<Rightarrow> time \<Rightarrow> payment_db \<Rightarrow> bool" where
  "only_asked b e u em a x d \<longleftrightarrow> pay_schema d \<and> (\<forall>t \<in> set (transactions d). tx_BookingID t = b \<longrightarrow> asked_for b e u em a x t)"

lemma insert_asked:
  assumes "only_asked b e u em a x d" "stmt_insert_txn (new_txn s i b e u em a x) now d = Inr (v, d')"
  shows "only_asked b e u em a x d' \<and> b \<in> tx_BookingID ` set (transactions d')"
proof -
  let ?t = "(new_txn s i b e u em a x)\<lparr>tx_CreatedAt := now, tx_UpdatedAt := now\<rparr>"
  have "transactions d' = transactions d @ [?t]" "asked_for b e u em a x ?t"
    using assms(2) by (auto simp: stmt_insert_txn_def Let_def asked_for_def new_txn_def split: if_splits)
  then obtain t where t: "transactions d' = transactions d @ [t]" "asked_for b e u em a x t" by blast
  then have "tx_BookingID t = b" by (simp add: asked_for_def)
  then show ?thesis
    using t assms(1) stmt_insert_txn_schema [OF assms(2)] by (auto simp: only_asked_def)
qed

lemma Find_asked:
  "hoare (only_asked b e u em a x) (txn_FindByBookingID b)
     (\<lambda>_ d. only_asked b e u em a x d \<and> b \<in> tx_BookingID ` set (transactions d)) (only_asked b e u em a x)"
  unfolding txn_FindByBookingID_def select_txn_def
proof (intro hoare_mapErr hoare_exec)
  fix d t d'
  assume "only_asked b e u em a x d"
    and "(case order_desc tx_CreatedAt (filter (\<lambda>t. tx_BookingID t = b) (transactions d)) of [] \<Rightarrow> Inl NoRows | t # _ \<Rightarrow> Inr (t, d)) = Inr (t, d')"
  moreover from this(2) have "d' = d" "t \<in> set (order_desc tx_CreatedAt (filter (\<lambda>t. tx_BookingID t = b) (transactions d)))"
    by (auto simp del: set_order_desc split: list.splits)
  ultimately show "only_asked b e u em a x d' \<and> b \<in> tx_BookingID ` set (transactions d')" "only_asked b e u em a x d'" by auto
qed

lemma Initiate_asked:
  "hoare (only_asked b e u em a x) (InitiateTxnForBooking s b e u em a x)
     (\<lambda>_ d. only_asked b e u em a x d \<and> b \<in> tx_BookingID ` set (transactions d)) (only_asked b e u em a x)"
  unfolding InitiateTxnForBooking_def Let_def txn_Create_def
  by (intro hoare_bindE [OF hoare_newUUID] hoare_handleE [where F = "only_asked b e u em a x" and
        Q = "\<lambda>_ d. only_asked b e u em a x d \<and> b \<in> tx_BookingID ` set (transactions d)"]
      hoare_bindE [OF hoare_readClock] hoare_mapErr hoare_exec hoare_if Find_asked hoare_failE hoare_retE)
    (auto dest: insert_asked)

lemma decode_initiate_body:
  "int8_ok a \<Longrightarrow> unmarshal_InternalCreateRequest (initiate_body b e u em a x) =
     Some \<lparr>ic_BookingID = b, ic_EventID = e, ic_UserID = u, ic_Email = em, ic_AmountRupiah = a, ic_ExpiresAt = x div Second * Second\<rparr>"
  by (simp add: unmarshal_InternalCreateRequest_def initiate_body_def dec_field_def fmt_seconds_def)

lemma payment_at_internal:
  "payment_at h (cl_baseURL c) ''POST'' (cl_baseURL c @ ''/api/payments/internal'') =
     Some (requireInternalKey h (PaymentHandler_InitiateTxnForBooking h))"
  by (simp add: payment_at_def payment_Routes_def Let_def cut_prefix_iff [THEN iffD2])


text \<open>What the payment service does with a request of the client.\<close>

lemma serve_asked:
  assumes "only_asked b e u em a (x div Second * Second) (db w)" "int8_ok a"
    and "serve (payment_at h (cl_baseURL c)) ''POST'' (cl_baseURL c @ ''/api/payments/internal'')
           (request_with [] [] hs (Some (initiate_body b e u em a x))) w = (st, w')"
  shows "only_asked b e u em a (x div Second * Second) (db w')"
    "st < 300 \<Longrightarrow> b \<in> tx_BookingID ` set (transactions (db w')) \<and> 0 < a"
proof -
  let ?x = "x div Second * Second"
  have outcome: "w' = w \<and> 400 \<le> st \<or>
    (\<exists>err. InitiateTxnForBooking (ph_svc h) b e u em a ?x w = (Inl err, w') \<and> st = 500) \<or>
    (\<exists>t. InitiateTxnForBooking (ph_svc h) b e u em a ?x w = (Inr t, w') \<and> 0 < a)"
    using assms(3)
    by (auto simp: serve_def payment_at_internal requireInternalKey_def PaymentHandler_InitiateTxnForBooking_def
        decode_initiate_body [OF assms(2)] reply_def respond_run responses split: if_splits prod.splits)
  note asked = Initiate_asked [of b e u em a ?x "ph_svc h", unfolded hoare_def, rule_format, OF assms(1)]
  show "only_asked b e u em a ?x (db w')" using outcome asked assms(1) by fastforce
  show "b \<in> tx_BookingID ` set (transactions (db w')) \<and> 0 < a" if "st < 300" using outcome asked that by fastforce
qed

text \<open>
  Property C35: the client returns after at most two attempts, whatever becomes of its requests: it
  reports success or \<^verbatim>\<open>ErrPaymentUnavailable\<close> and nothing else, and the payment service has handled
  the request at most twice.
\<close>

theorem client_returns:
  "\<exists>res w'. Client_InitiateTxnForBooking net fates c b e u em a x w = (res, w') \<and>
     (res = None \<or> res = Some ErrPaymentUnavailable) \<and>
     (\<exists>n \<le> (2 :: nat). w' = ((\<lambda>v. snd (serve net ''POST'' (cl_baseURL c @ ''/api/payments/internal'')
        (request_with [] [] [(''Content-Type'', ''application/json''), (''X-Internal-Key'', cl_apiKey c)]
          (Some (initiate_body b e u em a x))) v)) ^^ n) w)"
proof -
  let ?url = "cl_baseURL c @ ''/api/payments/internal''"
  let ?r = "request_with [] [] [(''Content-Type'', ''application/json''), (''X-Internal-Key'', cl_apiKey c)]
    (Some (initiate_body b e u em a x))"
  let ?send = "\<lambda>r f. Do net f ''POST'' ?url r"
  let ?step = "\<lambda>v. snd (serve net ''POST'' ?url ?r v)"
  obtain res w' where run: "Client_InitiateTxnForBooking net fates c b e u em a x w = (res, w')" by fastforce
  obtain s1 w1 where s1: "?send ?r (fates 0) w = (s1, w1)" by fastforce
  obtain s2 w2 where s2: "?send ?r (fates 1) w1 = (s2, w2)" by fastforce
  have w': "w' = w1 \<or> w' = w2" and res: "res = None \<or> res = Some ErrPaymentUnavailable"
    using run s1 s2 by (auto simp: Client_InitiateTxnForBooking_def attempts_rounds split: option.splits if_splits)
  obtain n where n: "n \<le> 1" "w1 = (?step ^^ n) w"
    using Do_serves [OF s1] that [of 0] that [of 1] by auto
  have "w2 = (?step ^^ n) w \<or> w2 = (?step ^^ Suc n) w"
    using Do_serves [OF s2] n(2) by auto
  moreover have "n \<le> 2" "Suc n \<le> 2" using n(1) by auto
  ultimately show ?thesis using run res w' n(2) by blast
qed


section \<open>Reserving across the two services\<close>

lemma client_opens:
  assumes "Client_InitiateTxnForBooking (payment_at h (cl_baseURL c)) fates c b e u em a x pw = (None, pw')"
    and "only_asked b e u em a (x div Second * Second) (db pw)" "int8_ok a"
  shows "0 < a" "\<exists>t. filter (\<lambda>t. tx_BookingID t = b) (transactions (db pw')) = [t] \<and> asked_for b e u em a (x div Second * Second) t"
proof -
  let ?url = "cl_baseURL c @ ''/api/payments/internal''"
  let ?r = "request_with [] [] [(''Content-Type'', ''application/json''), (''X-Internal-Key'', cl_apiKey c)]
    (Some (initiate_body b e u em a x))"
  let ?net = "payment_at h (cl_baseURL c)" and ?I = "\<lambda>w. only_asked b e u em a (x div Second * Second) (db w)"
  let ?send = "\<lambda>r f. Do ?net f ''POST'' ?url r"
  have keep: "?I (snd (?send ?r f w))" if "?I w" for f w
    using that Do_serves [of ?net f "''POST''" ?url ?r w "fst (?send ?r f w)" "snd (?send ?r f w)"]
      serve_asked(1) [OF that assms(3), of h c _ "fst (serve ?net ''POST'' ?url ?r w)" "snd (serve ?net ''POST'' ?url ?r w)"]
    by fastforce
  note inv = attempts_invariant [of ?I ?send ?r pw fates None pw', OF keep assms(2)
      assms(1) [unfolded Client_InitiateTxnForBooking_def]]
  obtain f v st where v: "?I v" "?send ?r f v = (Some st, pw')" "st < 300" using inv(3) by blast
  have got: "b \<in> tx_BookingID ` set (transactions (db pw')) \<and> 0 < a"
    using serve_asked(2) [OF v(1) assms(3) Do_Some [OF v(2)] v(3)] .
  then show "0 < a" by simp
  obtain t where t: "t \<in> set (transactions (db pw'))" "tx_BookingID t = b" using got by auto
  have "filter (\<lambda>t. tx_BookingID t = b) (transactions (db pw')) = [t]"
    using filter_booking [OF _ t] inv(1) by (simp add: only_asked_def)
  with t inv(1) show "\<exists>t. filter (\<lambda>t. tx_BookingID t = b) (transactions (db pw')) = [t] \<and> asked_for b e u em a (x div Second * Second) t"
    by (auto simp: only_asked_def)
qed


text \<open>The client as the port of the booking service, with the payment service in the state \<open>pw\<close>.\<close>

definition payment_port :: "network \<Rightarrow> (int \<Rightarrow> fate) \<Rightarrow> Client \<Rightarrow> payment_db world \<Rightarrow> initiate_call" where
  "payment_port net fates c pw b e u em a x = fst (Client_InitiateTxnForBooking net fates c b e u em a x pw)"

text \<open>
  Property C7: a reservation that succeeds has its payment: whatever requests were lost or repeated
  on the way and whatever statements failed in the two databases, the payment service then holds
  exactly one transaction for the new booking, initiated, for the same customer and event, over
  the total of the reservation, which is positive, and due no later than the reservation expires
  and less than a second before.
\<close>

theorem Reserve_opens_payment:
  assumes "Reserve ttl (payment_port (payment_at h (cl_baseURL c)) fates c pw) userID email ev items w = (Inr res, w')"
    and "schema_ok (db w)" "pay_schema (db pw)" "rs_BookingID res \<notin> tx_BookingID ` set (transactions (db pw))"
    and "Client_InitiateTxnForBooking (payment_at h (cl_baseURL c)) fates c (rs_BookingID res) ev userID email
           (rs_TotalRupiah res) (rs_ExpiresAt res) pw = (r, pw')"
  shows "r = None \<and> 0 < rs_TotalRupiah res \<and>
    (\<exists>t due. filter (\<lambda>t. tx_BookingID t = rs_BookingID res) (transactions (db pw')) = [t] \<and>
       tx_Status t = StatusInitiated \<and> tx_UserID t = userID \<and> tx_EventID t = ev \<and> tx_CustomerEmail t = email \<and>
       tx_AmountRupiah t = rs_TotalRupiah res \<and> tx_ExpiresAt t = Some due \<and>
       rs_ExpiresAt res - Second < due \<and> due \<le> rs_ExpiresAt res)"
proof -
  let ?x = "rs_ExpiresAt res"
  have r: "r = None"
    using Reserve_Inr [OF assms(1,2)] assms(5) by (fastforce simp: payment_port_def new_reservation_def)
  have only: "only_asked (rs_BookingID res) ev userID email (rs_TotalRupiah res) (?x div Second * Second) (db pw)"
    using assms(3,4) by (auto simp: only_asked_def image_iff)
  have total: "int8_ok (rs_TotalRupiah res)"
    using Reserve_done [OF assms(1,2)] by auto
  have "0 < rs_TotalRupiah res" "\<exists>t. filter (\<lambda>t. tx_BookingID t = rs_BookingID res) (transactions (db pw')) = [t] \<and>
      asked_for (rs_BookingID res) ev userID email (rs_TotalRupiah res) (?x div Second * Second) t"
    by (rule client_opens [OF assms(5) [unfolded r] only total])+
  moreover have "?x - Second < ?x div Second * Second" "?x div Second * Second \<le> ?x"
    by presburger+
  ultimately show ?thesis using r by (auto simp: asked_for_def)
qed

end
