(* ===== verification/Booking_Refinement.thy ===== *)
theory Booking_Refinement
  imports Consumers
begin

text \<open>
  What the ticketing service promises about bookings, said without tables, statements or faults:
  a \<open>ledger\<close> of booking statuses and free seats with three atomic steps. The consumers of the
  service refine it: whatever messages they handle and whatever statements the database fails or
  answers late, what they do to the tables is a sequence of steps of the ledger.
\<close>

section \<open>The ledger\<close>

record ledger =
  ld_status :: "string \<Rightarrow> string option"
  ld_free :: "string \<Rightarrow> int option"
  ld_qty :: "string \<Rightarrow> string \<Rightarrow> int"

definition ld_release :: "string \<Rightarrow> string \<Rightarrow> ledger \<Rightarrow> ledger" where
  "ld_release i st L =
     L\<lparr>ld_status := (ld_status L)(i \<mapsto> st), ld_free := (\<lambda>t. map_option (\<lambda>a. a + ld_qty L i t) (ld_free L t))\<rparr>"

inductive ledger_step :: "ledger \<Rightarrow> ledger \<Rightarrow> bool" where
  confirm: "ld_status L i = Some ''pending'' \<Longrightarrow> ledger_step L (L\<lparr>ld_status := (ld_status L)(i \<mapsto> ''confirmed'')\<rparr>)"
| expire: "ld_status L i = Some ''pending'' \<Longrightarrow> ledger_step L (ld_release i ''expired'' L)"
| cancel: "ld_status L i \<in> {Some ''pending'', Some ''confirmed''} \<Longrightarrow> ledger_step L (ld_release i ''cancelled'' L)"

inductive_cases ledger_stepE: "ledger_step L L'"

abbreviation ledger_steps :: "ledger \<Rightarrow> ledger \<Rightarrow> bool" where
  "ledger_steps \<equiv> rtranclp ledger_step"

section \<open>The tables as a ledger\<close>

text \<open>Every item names a ticket type of the table.\<close>

definition items_known :: "ticketing_db \<Rightarrow> bool" where
  "items_known d \<longleftrightarrow> (\<forall>it \<in> set (booking_items d). avail d (ir_TicketTypeID it) \<noteq> None)"

definition booked_qty :: "ticketing_db \<Rightarrow> string \<Rightarrow> string \<Rightarrow> int" where
  "booked_qty d i t = (\<Sum>it \<leftarrow> filter (\<lambda>it. ir_BookingID it = i) (booking_items d). if ir_TicketTypeID it = t then ir_Quantity it else 0)"

lemma booked_qty_nonneg: "schema_ok d \<Longrightarrow> 0 \<le> booked_qty d i t"
  unfolding booked_qty_def by (rule sum_list_nonneg) (auto simp: schema_ok_def booking_item_check_def less_imp_le)

definition ledger_of :: "ticketing_db \<Rightarrow> ledger" where
  "ledger_of d = \<lparr>ld_status = booking_status d, ld_free = avail d, ld_qty = booked_qty d\<rparr>"

text \<open>The states the tables can be in after steps of the ledger from \<open>L\<close>.\<close>

definition follows :: "ledger \<Rightarrow> ticketing_db \<Rightarrow> bool" where
  "follows L d \<longleftrightarrow> inventory_ok d \<and> items_known d \<and> ledger_steps L (ledger_of d)"

section \<open>The release of a booking is one step\<close>

lemma release_items_Inr:
  "release_items items w = (Inr u, w') \<Longrightarrow> db w' = seats.gives (pairs items) (db w)"
proof (induction items arbitrary: w)
  case (Cons it rest)
  then obtain n w1 where e: "exec (stmt_Release (bi_TicketTypeID it) (bi_Quantity it)) w = (Inr n, w1)"
      and r: "release_items rest w1 = (Inr u, w')"
    by (auto simp: run_inv)
  from exec_Inr(1) [OF e] Cons.IH [OF r] show ?case by simp
qed (simp add: retE_def)

abbreviation release_body :: "Booking \<Rightarrow> string \<Rightarrow> (bool \<times> bool) ticketing_op" where
  "release_body b st \<equiv>
     bindE (mapErr DbErr (exec (stmt_transition (bk_ID b) (bk_Status b) st))) (\<lambda>n.
        if n = 0 then retE (False, False) else bindE (release_items (bk_Items b)) (\<lambda>_. retE (True, True)))"

text \<open>A body that reaches the commit has done all of its statements, so its result is a function of the table.\<close>

lemma release_body_Inr:
  assumes "release_body b st w = (Inr (a, True), w')"
  shows "\<exists>n d1. stmt_transition (bk_ID b) (bk_Status b) st (db w) = Inr (n, d1) \<and> n \<noteq> 0 \<and>
    db w' = seats.gives (pairs (bk_Items b)) d1"
proof -
  obtain n w1 u where e: "exec (stmt_transition (bk_ID b) (bk_Status b) st) w = (Inr n, w1)" "n \<noteq> 0"
      and r: "release_items (bk_Items b) w1 = (Inr u, w')"
    using assms by (auto simp: run_inv split: if_splits)
  from exec_Inr(1) [OF e(1)] e(2) release_items_Inr [OF r] show ?thesis by blast
qed

lemma release_exact:
  assumes inv: "inventory_ok (db w)" "items_known (db w)" and b: "snapshot (db w) b" "active_status (bk_Status b)"
    and st: "st \<in> {''expired'', ''cancelled''}" and run: "booking_TransitionAndReleaseSeats b st w = (r, w')"
  shows "db w' = db w \<or>
    booking_status (db w) (bk_ID b) = Some (bk_Status b) \<and>
    booking_status (db w') = (booking_status (db w))(bk_ID b \<mapsto> st) \<and>
    (\<forall>t. avail (db w') t = map_option (\<lambda>a. a + booked_qty (db w) (bk_ID b) t) (avail (db w) t)) \<and>
    booking_items (db w') = booking_items (db w)"
proof -
  consider "db w' = db w" | w1 a w2 where "db w1 = db w" "release_body b st w1 = (Inr (a, True), w2)" "db w' = db w2"
    using withTx_db_cases [of DbErr "release_body b st" w] run by (auto simp: booking_TransitionAndReleaseSeats_def)
  then show ?thesis
  proof cases
    case 2
    from release_body_Inr [OF 2(2)] 2(1,3) obtain n d1
      where t: "stmt_transition (bk_ID b) (bk_Status b) st (db w) = Inr (n, d1)" "n \<noteq> 0"
        and w': "db w' = seats.gives (pairs (bk_Items b)) d1" by auto
    obtain x where x: "x \<in> set (bookings (db w))" "br_ID x = bk_ID b" "br_Status x = bk_Status b"
      using active_booking_transition(2) [OF t inventory_okD(1) [OF inv(1)]] by blast
    have s: "booking_status (db w) (bk_ID b) = Some (bk_Status b)"
      using inventory_okD(1) [OF inv(1)] distinct_map_find [OF _ x(1), of br_ID] x(2,3)
      by (simp add: booking_status_def schema_ok_def)
    let ?w = "w\<lparr>faults := []\<rparr>"
    have known: "\<forall>it \<in> set (bk_Items b). avail (db ?w) (bi_TicketTypeID it) \<noteq> None"
      using b(1) inv(2) by (auto simp: snapshot_def items_known_def)
    obtain d' where d': "booking_TransitionAndReleaseSeats b st ?w = (Inr True, ?w\<lparr>db := d'\<rparr>)"
        "booking_status d' = (booking_status (db w))(bk_ID b \<mapsto> st)" "booking_items d' = booking_items (db w)"
        "\<forall>t. avail d' t = map_option (\<lambda>a. a + items_qty t (bk_Items b)) (avail (db w) t)"
      using TransitionAndReleaseSeats_calm [of ?w b st] inv(1) b s st known by auto
    have "db w' = d'"
      using d'(1) unfolding booking_TransitionAndReleaseSeats_def
    proof (rule withTx_Inr)
      fix v c v2 assume v: "db v = db ?w" "release_body b st v = (Inr (True, c), v2)" "db (?w\<lparr>db := d'\<rparr>) = (if c then db v2 else db ?w)"
      have c using v(2) by (auto simp: run_inv split: if_splits)
      with release_body_Inr [of b st v True v2] v t(1) w' show "db w' = d'" by auto
    qed
    moreover have "items_qty t (bk_Items b) = booked_qty (db w) (bk_ID b) t" for t
      using b(1) by (simp add: snapshot_def items_qty_scan booked_qty_def)
    ultimately show ?thesis using s d'(2-4) by simp
  qed simp
qed


section \<open>The invariant\<close>

lemma ledger_of_frame: "ledger_of (d\<lparr>outbox := x, outbox_seq := n\<rparr>) = ledger_of d" "items_known (d\<lparr>outbox := x, outbox_seq := n\<rparr>) = items_known d"
  by (simp_all add: ledger_of_def booking_status_def [abs_def] avail_def [abs_def] booked_qty_def [abs_def] items_known_def)

lemma ledger_of_release:
  assumes "booking_status d' = (booking_status d)(i \<mapsto> st)" "booking_items d' = booking_items d"
    and "\<forall>t. avail d' t = map_option (\<lambda>a. a + booked_qty d i t) (avail d t)"
  shows "ledger_of d' = ld_release i st (ledger_of d)"
  using assms by (simp add: ledger_of_def ld_release_def booked_qty_def [abs_def] fun_eq_iff)

lemma transition_status:
  assumes "schema_ok d" "stmt_transition i ''pending'' ''confirmed'' d = Inr (n, d')"
  shows "d' = d \<or> booking_status d i = Some ''pending'' \<and> booking_status d' = (booking_status d)(i \<mapsto> ''confirmed'')"
proof (cases "booking_status d i = Some ''pending''")
  case True
  with stmt_transition_applied [OF assms(1) True, of "''confirmed''"] assms(2) show ?thesis by auto
next
  case False
  with leave_pending_skipped [OF assms(1) False, of "''confirmed''"] assms(2) show ?thesis
    by (auto simp: leave_pending_def decide_def split: if_splits)
qed

lemma confirm_follows:
  assumes "follows L d" "stmt_transition i ''pending'' ''confirmed'' d = Inr (n, d')"
  shows "follows L d'"
proof -
  have inv: "inventory_ok d" "items_known d" "ledger_steps L (ledger_of d)" using assms(1) by (auto simp: follows_def)
  note f = stmt_transition_frame [OF assms(2)]
  have "inventory_ok d'"
    using transition_active_covered [OF assms(2) inv(1) [unfolded inventory_covered]] by (simp add: inventory_covered active_status_def)
  moreover have same: "avail d' = avail d" "booked_qty d' = booked_qty d" "items_known d' = items_known d"
    by (simp_all add: fun_eq_iff avail_def booked_qty_def items_known_def f)
  moreover have "ledger_steps (ledger_of d) (ledger_of d')"
    using transition_status [OF inventory_okD(1) [OF inv(1)] assms(2)]
  proof (elim disjE conjE)
    assume "booking_status d i = Some ''pending''" "booking_status d' = (booking_status d)(i \<mapsto> ''confirmed'')"
    then show ?thesis
      using ledger_step.confirm [of "ledger_of d" i] same by (auto simp: ledger_of_def)
  qed simp
  ultimately show ?thesis using inv by (auto simp: follows_def)
qed

lemma release_follows:
  assumes "follows L (db w)" "snapshot (db w) b" "bk_Status b \<in> {''pending'', ''confirmed''}"
    and "st \<in> {''expired'', ''cancelled''}" "st = ''expired'' \<longrightarrow> bk_Status b = ''pending''"
    and "booking_TransitionAndReleaseSeats b st w = (r, w')"
  shows "follows L (db w') \<and> booking_items (db w') = booking_items (db w)"
proof -
  have inv: "inventory_ok (db w)" "items_known (db w)" "ledger_steps L (ledger_of (db w))" using assms(1) by (auto simp: follows_def)
  have act: "active_status (bk_Status b)" "\<not> active_status st" using assms(3,4) by (auto simp: active_status_def)
  have keep: "inventory_ok (db w') \<and> booking_items (db w') = booking_items (db w)"
    by (rule hoare_same [OF TransitionAndReleaseSeats_triple [OF act] _ assms(6)]) (use inv assms(2) in auto)
  show ?thesis
    using release_exact [OF inv(1,2) assms(2) act(1) assms(4,6)]
  proof (elim disjE conjE)
    assume s: "booking_status (db w) (bk_ID b) = Some (bk_Status b)"
      "booking_status (db w') = (booking_status (db w))(bk_ID b \<mapsto> st)" "booking_items (db w') = booking_items (db w)"
      "\<forall>t. avail (db w') t = map_option (\<lambda>a. a + booked_qty (db w) (bk_ID b) t) (avail (db w) t)"
    have "ledger_step (ledger_of (db w)) (ld_release (bk_ID b) st (ledger_of (db w)))"
      using assms(3-5) s(1) ledger_step.expire [of "ledger_of (db w)" "bk_ID b"] ledger_step.cancel [of "ledger_of (db w)" "bk_ID b"]
      by (auto simp: ledger_of_def)
    then have "ledger_steps L (ledger_of (db w'))"
      using inv(3) ledger_of_release [OF s(2-4)] by (auto intro: rtranclp.rtrancl_into_rtrancl)
    moreover have "items_known (db w')" using inv(2) s(3,4) by (auto simp: items_known_def)
    ultimately show ?thesis using keep by (simp add: follows_def)
  qed (use assms(1) in simp)
qed

interpretation ledger: booking_invariant "follows L" for L
proof unfold_locales
  show "hoare (follows L) (booking_UpdateStatusIfPending i ''confirmed'') (\<lambda>_. follows L) (follows L)" for i
    unfolding booking_UpdateStatusIfPending_def hoare_preserves by (auto intro!: preserve dest: confirm_follows)
  show "hoare (\<lambda>d. follows L d \<and> booking_items d = its \<and> snapshot d b) (booking_TransitionAndReleaseSeats b st)
      (\<lambda>_ d. follows L d \<and> booking_items d = its) (\<lambda>d. follows L d \<and> booking_items d = its)"
    if "bk_Status b \<in> {''pending'', ''confirmed''}" "st \<in> {''expired'', ''cancelled''}" "st = ''expired'' \<longrightarrow> bk_Status b = ''pending''"
    for b st its
    unfolding hoare_def using release_follows [OF _ _ that] by (auto split: sum.split)
qed (simp add: follows_def ledger_of_frame)

section \<open>The consumers refine the ledger\<close>


end
