(* ===== verification/Settled_Bookings.thy ===== *)
theory Settled_Bookings
  imports Booking_Refinement
begin

text \<open>
  What the consumers of the ticketing service do to many bookings: which event a booking is for never
  changes, and when bookings leave a status, exactly the seats of their items are freed.
\<close>

section \<open>Which event a booking is for\<close>

text \<open>No transition of a booking changes which event it is for.\<close>

definition booked_for :: "ticketing_db \<Rightarrow> (string \<times> string) list" where
  "booked_for d = map (\<lambda>b. (br_ID b, br_EventID b)) (bookings d)"

lemma stmt_transition_booked_for: "stmt_transition i st st' d = Inr (n, d') \<Longrightarrow> booked_for d' = booked_for d"
  by (auto simp: booked_for_def stmt_transition_frame(6) map_update_where)

lemma release_items_booked_for: "preserves (\<lambda>d. booked_for d = l \<and> booking_items d = its) (release_items items)"
  by (induction items) (auto intro!: preserve dest!: stmt_Release_only tickets_only_frame simp: booked_for_def)

interpretation booked_events: booking_invariant "\<lambda>d. booked_for d = l" for l
proof unfold_locales
  show "hoare (\<lambda>d. booked_for d = l) (booking_UpdateStatusIfPending i ''confirmed'') (\<lambda>_ d. booked_for d = l) (\<lambda>d. booked_for d = l)" for i
    unfolding booking_UpdateStatusIfPending_def hoare_preserves by (intro preserve) (auto dest: stmt_transition_booked_for)
  show "hoare (\<lambda>d. booked_for d = l \<and> booking_items d = its \<and> snapshot d b) (booking_TransitionAndReleaseSeats b st)
      (\<lambda>_ d. booked_for d = l \<and> booking_items d = its) (\<lambda>d. booked_for d = l \<and> booking_items d = its)" for b st its
  proof (rule hoare_pre)
    let ?I = "\<lambda>d. booked_for d = l \<and> booking_items d = its"
    have body: "preserves ?I (bindE (mapErr DbErr (exec (stmt_transition (bk_ID b) (bk_Status b) st))) (\<lambda>n.
        if n = 0 then retE (False, False) else bindE (release_items (bk_Items b)) (\<lambda>_. retE (True, True))))"
      by (intro preserve release_items_booked_for) (auto dest: stmt_transition_booked_for stmt_transition_frame(3))
    have "preserves ?I (booking_TransitionAndReleaseSeats b st)"
      unfolding booking_TransitionAndReleaseSeats_def
    proof (rule preserves_withTx)
      fix w a w' assume "?I (db w)" "bindE (mapErr DbErr (exec (stmt_transition (bk_ID b) (bk_Status b) st))) (\<lambda>n.
        if n = 0 then retE (False, False) else bindE (release_items (bk_Items b)) (\<lambda>_. retE (True, True))) w = (Inr (a, True), w')"
      with preservesD [OF body, of w] show "?I (db w')" by simp
    qed
    then show "hoare ?I (booking_TransitionAndReleaseSeats b st) (\<lambda>_. ?I) ?I" by (simp add: hoare_preserves)
  qed simp
qed (simp add: booked_for_def)

section \<open>Bookings that leave a status\<close>

text \<open>The seats of the bookings whose status differs.\<close>

definition freed :: "ticketing_db \<Rightarrow> ticketing_db \<Rightarrow> string \<Rightarrow> int" where
  "freed d d' t = (\<Sum>i \<leftarrow> map fst (booked_for d). if booking_status d' i = booking_status d i then 0 else booked_qty d i t)"

text \<open>
  From \<open>d\<close> to \<open>d'\<close> bookings only moved from a status of \<open>A\<close> to \<open>st\<close>, and exactly their seats were freed.
\<close>

definition settling :: "string set \<Rightarrow> string \<Rightarrow> ticketing_db \<Rightarrow> ticketing_db \<Rightarrow> bool" where
  "settling A st d d' \<longleftrightarrow>
     booking_items d' = booking_items d \<and> booked_for d' = booked_for d \<and>
     (\<forall>j. booking_status d' j = booking_status d j \<or> (\<exists>s \<in> A. booking_status d j = Some s) \<and> booking_status d' j = Some st) \<and>
     (\<forall>t. avail d' t = map_option (\<lambda>a. a + freed d d' t) (avail d t))"

lemma freed_same [simp]: "freed d d t = 0"
  by (simp add: freed_def comp_def)

lemma settling_refl: "settling A st d d"
  by (simp add: settling_def option.map_ident)

lemma settling_frame:
  assumes "settling A st d d'"
  shows "booked_for d' = booked_for d" "booked_qty d' i t = booked_qty d i t" "items_known d \<Longrightarrow> items_known d'"
  using assms by (auto simp: settling_def booked_qty_def items_known_def)

lemma settling_status:
  "settling A st d d' \<Longrightarrow> booking_status d' j = booking_status d j \<or> (\<exists>s \<in> A. booking_status d j = Some s) \<and> booking_status d' j = Some st"
  by (simp add: settling_def)

lemma settling_avail: "settling A st d d' \<Longrightarrow> avail d t = Some a \<Longrightarrow> avail d' t = Some (a + freed d d' t)"
  by (simp add: settling_def)

lemma settling_trans:
  assumes "settling A st d d1" "settling A st d1 d2" "st \<notin> A"
  shows "settling A st d d2"
proof -
  have "booking_status d2 j = booking_status d j \<or> (\<exists>s \<in> A. booking_status d j = Some s) \<and> booking_status d2 j = Some st" for j
    using settling_status [OF assms(1), of j] settling_status [OF assms(2), of j] by metis
  moreover have "freed d d2 t = freed d d1 t + freed d1 d2 t" for t
    unfolding freed_def settling_frame [OF assms(1)] sum_list_addf [symmetric]
  proof (rule arg_cong [where f = sum_list], rule map_cong [OF refl])
    show "(if booking_status d2 i = booking_status d i then 0 else booked_qty d i t) =
        (if booking_status d1 i = booking_status d i then 0 else booked_qty d i t) +
        (if booking_status d2 i = booking_status d1 i then 0 else booked_qty d i t)" for i
      using settling_status [OF assms(1), of i] settling_status [OF assms(2), of i] assms(3) by auto
  qed
  ultimately show ?thesis
    using assms(1,2) by (auto simp: settling_def option.map_comp comp_def add.assoc)
qed

text \<open>If a status of each booking changed, the seats of all of them are free.\<close>

lemma freed_ge:
  assumes "schema_ok d" "\<forall>b \<in> set (bookings d). P b \<longrightarrow> booking_status d' (br_ID b) \<noteq> booking_status d (br_ID b)"
  shows "(\<Sum>b \<leftarrow> filter P (bookings d). booked_qty d (br_ID b) t) \<le> freed d d' t"
proof -
  have "freed d d' t = (\<Sum>b \<leftarrow> bookings d. if booking_status d' (br_ID b) = booking_status d (br_ID b) then 0 else booked_qty d (br_ID b) t)"
    by (simp add: freed_def booked_for_def comp_def)
  moreover have "(\<Sum>b \<leftarrow> filter P (bookings d). booked_qty d (br_ID b) t) = (\<Sum>b \<leftarrow> bookings d. if P b then booked_qty d (br_ID b) t else 0)"
    by (simp add: sum_list_map_filter')
  ultimately show ?thesis
    by (simp only:) (rule sum_list_mono, use assms booked_qty_nonneg [OF assms(1)] in auto)
qed

lemma booking_status_row:
  "schema_ok d \<Longrightarrow> r \<in> set (bookings d) \<Longrightarrow> booking_status d (br_ID r) = Some (br_Status r)"
  using distinct_map_find [of br_ID "bookings d" r] by (simp add: booking_status_def schema_ok_def)

lemma booking_status_SomeD: "booking_status d i = Some st \<Longrightarrow> \<exists>r \<in> set (bookings d). br_ID r = i \<and> br_Status r = st"
  by (auto simp: booking_status_def dest: find_SomeD)

lemma freed_booking:
  assumes "schema_ok d" "booking_status d i = Some st" "booking_status d' i \<noteq> Some st"
  shows "booked_qty d i t \<le> freed d d' t"
proof -
  obtain b where b: "b \<in> set (bookings d)" "br_ID b = i" using booking_status_SomeD [OF assms(2)] by blast
  have "booked_qty d (br_ID b) t \<le> (\<Sum>b \<leftarrow> filter (\<lambda>b. br_ID b = i) (bookings d). booked_qty d (br_ID b) t)"
    by (rule member_le_sum_list) (use b booked_qty_nonneg [OF assms(1)] in auto)
  also have "\<dots> \<le> freed d d' t" by (rule freed_ge) (use assms in auto)
  finally show ?thesis using b(2) by simp
qed

lemma freed_one:
  assumes "schema_ok d" "booking_status d' = (booking_status d)(j \<mapsto> st)" "booking_status d j = Some s" "s \<noteq> st"
  shows "freed d d' t = booked_qty d j t"
proof -
  have d: "distinct (map br_ID (bookings d))" "j \<in> br_ID ` set (bookings d)"
    using assms(1) booking_status_SomeD [OF assms(3)] by (auto simp: schema_ok_def)
  have "freed d d' t = (\<Sum>i \<leftarrow> map br_ID (bookings d). if i = j then booked_qty d i t else 0)"
    unfolding freed_def booked_for_def map_map by (intro arg_cong [where f = sum_list] map_cong) (use assms in auto)
  also have "\<dots> = (\<Sum>i \<in> br_ID ` set (bookings d). if i = j then booked_qty d i t else 0)"
    unfolding sum_list_distinct_conv_sum_set [OF d(1)] by simp
  also have "\<dots> = booked_qty d j t" using d(2) by simp
  finally show ?thesis .
qed

end
