(* ===== verification/System.thy ===== *)
theory System
  imports Payment_Client Settled_Bookings
begin

text \<open>
  Properties that span the services: how the outcome of a payment travels from the provider's
  webhook over the outbox of the payment service, the broker and the consumer of the ticketing
  service to the booking.
\<close>

section \<open>The outbox of the payment service\<close>

lemma stmts_outbox_wf [simp]:
  "stmt_settle g i st ref now d = Inr (n, d') \<Longrightarrow> outbox_wf d' = outbox_wf d"
  "stmt_update_txn P f d = Inr (m, d') \<Longrightarrow> outbox_wf d' = outbox_wf d"
  "stmt_insert_refund rf now d = Inr (u, d') \<Longrightarrow> outbox_wf d' = outbox_wf d"
  by (auto simp: stmt_settle_def stmt_update_txn_def stmt_insert_refund_def Let_def outbox_wf_def split: if_splits)

lemma repos_outbox_wf [preserve]:
  "preserves outbox_wf (txn_TransitionIfActive i st ref)" "preserves outbox_wf (refund_Create rf)"
  "preserves outbox_wf (txn_UpdateRefundStatus i rs)" "preserves outbox_wf (txn_FindByBookingID b)"
  unfolding txn_TransitionIfActive_def refund_Create_def txn_UpdateRefundStatus_def
  by (intro preserve read_only_preserves [OF read_only_txn_queries(2)]; simp)+

lemma emit_outbox_wf [preserve]: "preserves outbox_wf (emit_completed t)" "preserves outbox_wf (emit_expired r t)"
  unfolding emit_completed_def emit_expired_def by (intro preserve outbox_wf_insert; simp)+

lemma webhook_outbox_wf: "preserves outbox_wf (HandleSessionWebhook payload)"
proof (cases "Option.bind payload unmarshal_webhook")
  case (Some ev)
  then show ?thesis
    unfolding HandleSessionWebhook_def webhook_completed_def webhook_expired_def requestLatePaymentRefund_def Some option.case
    by (intro preserve)
qed (simp add: HandleSessionWebhook_def preserves_failE)

section \<open>Expired payments on the side of the bookings\<close>

lemma Expire_settles:
  assumes "calm w" "inventory_ok (db w)" "items_known (db w)"
  shows "\<exists>w'. ExpireOnPaymentExpired i w = (Inr (), w') \<and> calm w' \<and> booking_items (db w') = booking_items (db w) \<and>
    (if booking_status (db w) i = Some ''pending''
     then booking_status (db w') = (booking_status (db w))(i \<mapsto> ''expired'') \<and>
       (\<forall>t. avail (db w') t = map_option (\<lambda>a. a + booked_qty (db w) i t) (avail (db w) t))
     else db w' = db w)"
proof (cases "booking_status (db w) i = Some ''pending''")
  case True
  then obtain r where r: "find (\<lambda>x. br_ID x = i) (bookings (db w)) = Some r" "br_Status r = ''pending''"
    by (auto simp: booking_status_def)
  obtain b where b: "loadPendingBooking i w = (Inr (Some b), w)" "snapshot (db w) b" "bk_ID b = i" "bk_Status b = ''pending''"
    using loadPendingBooking_calm [OF assms(1) r] by blast
  have s: "booking_status (db w) (bk_ID b) = Some (bk_Status b)" "active_status (bk_Status b)"
    using True b by (simp_all add: active_status_def)
  have known: "\<forall>it \<in> set (bk_Items b). avail (db w) (bi_TicketTypeID it) \<noteq> None"
    using b(2,3) assms(3) by (auto simp: snapshot_def items_known_def)
  have "items_qty t (bk_Items b) = booked_qty (db w) i t" for t
    using b(2,3) by (simp add: snapshot_def items_qty_scan booked_qty_def)
  then obtain d' where d': "booking_TransitionAndReleaseSeats b ''expired'' w = (Inr True, w\<lparr>db := d'\<rparr>)"
      "booking_status d' = (booking_status (db w))(i \<mapsto> ''expired'')" "booking_items d' = booking_items (db w)"
      "\<forall>t. avail d' t = map_option (\<lambda>a. a + booked_qty (db w) i t) (avail (db w) t)"
    using TransitionAndReleaseSeats_calm [OF assms(1,2) b(2) s _ known, of "''expired''"] b(3) by auto
  moreover have "ExpireOnPaymentExpired i w = (Inr (), w\<lparr>db := d'\<rparr>)"
    by (simp add: ExpireOnPaymentExpired_def releaseReservation_def bindE_def b(1) d'(1) retE_def)
  ultimately show ?thesis using True assms(1) by auto
next
  case False
  obtain res w' where l: "loadPendingBooking i w = (res, w')" by fastforce
  have "calm w'"
    using l assms(1) unfolding loadPendingBooking_def booking_FindByID_def loadItems_def
    by (auto simp: run_inv run_stmt_def split: if_splits sum.splits option.splits)
  with False loadPendingBooking_settled [OF False l] show ?thesis
    by (simp add: ExpireOnPaymentExpired_def releaseReservation_def bindE_def l retE_def)
qed


abbreviation expiring :: "ticketing_db \<Rightarrow> ticketing_db \<Rightarrow> bool" where
  "expiring \<equiv> settling {''pending''} ''expired''"

lemma Expire_expiring:
  assumes "calm w" "inventory_ok (db w)" "items_known (db w)" "ExpireOnPaymentExpired j w = (r, w')"
  shows "calm w' \<and> expiring (db w) (db w') \<and> booking_status (db w') j \<noteq> Some ''pending''"
proof -
  have e: "r = Inr () \<and> calm w' \<and> booking_items (db w') = booking_items (db w) \<and>
    (if booking_status (db w) j = Some ''pending''
     then booking_status (db w') = (booking_status (db w))(j \<mapsto> ''expired'') \<and>
       (\<forall>t. avail (db w') t = map_option (\<lambda>a. a + booked_qty (db w) j t) (avail (db w) t))
     else db w' = db w)"
    using Expire_settles [OF assms(1-3), of j] assms(4) by auto
  have "booked_for (db w') = booked_for (db w)"
    using preservesD [OF booked_events.Expire_keeps, of w "booked_for (db w)" j] assms(4) by simp
  then show ?thesis
    using e freed_one [OF inventory_okD(1) [OF assms(2)], of "db w'" j "''expired''" "''pending''"]
    by (cases "booking_status (db w) j = Some ''pending''") (auto simp: settling_def option.map_ident)
qed

lemma expired_messages:
  assumes "StartConsumers ''payment.expired'' = Some h" "calm w" "inventory_ok (db w)" "items_known (db w)"
  shows "expiring (db w) (db (work h ms w)) \<and>
    ((\<exists>m \<in> set ms. map_option px_BookingID (Option.bind (ms_Value m) unmarshal_PaymentExpired) = Some i) \<longrightarrow>
      booking_status (db (work h ms w)) i \<noteq> Some ''pending'')"
  using assms(2-4)
proof (induction ms arbitrary: w)
  case Nil
  then show ?case by (simp add: settling_refl)
next
  case (Cons m ms)
  obtain r w1 where run: "h m w = (r, w1)" by fastforce
  let ?dec = "Option.bind (ms_Value m) unmarshal_PaymentExpired"
  have one: "calm w1 \<and> expiring (db w) (db w1) \<and> (map_option px_BookingID ?dec = Some i \<longrightarrow> booking_status (db w1) i \<noteq> Some ''pending'')"
  proof (cases ?dec)
    case None
    then have "w1 = w" using run assms(1) by (auto simp: failE_def)
    then show ?thesis using Cons.prems(1) None by (simp add: settling_refl)
  next
    case (Some e)
    then have "ExpireOnPaymentExpired (px_BookingID e) w = (r, w1)" using run assms(1) by auto
    from Expire_expiring [OF Cons.prems this] Some show ?thesis by auto
  qed
  have inv: "inventory_ok (db w1)"
    using preservesD [OF StartConsumers_keeps [OF assms(1)] Cons.prems(2), of m] run by simp
  have known: "items_known (db w1)" using one settling_frame(3) Cons.prems(3) by blast
  have rest: "expiring (db w1) (db (work h ms w1))"
    and "(\<exists>m \<in> set ms. map_option px_BookingID (Option.bind (ms_Value m) unmarshal_PaymentExpired) = Some i) \<longrightarrow>
      booking_status (db (work h ms w1)) i \<noteq> Some ''pending''"
    using Cons.IH [of w1] one inv known by auto
  moreover have "booking_status (db w1) i \<noteq> Some ''pending'' \<Longrightarrow> booking_status (db (work h ms w1)) i \<noteq> Some ''pending''"
    using settling_status [OF rest, of i] by auto
  moreover have "expiring (db w) (db (work h ms w1))"
    using settling_trans [OF _ rest] one by simp
  ultimately show ?case using one run by auto
qed


section \<open>From the provider to the booking\<close>

lemma webhook_keeps_clear: "keeps_clear (HandleSessionWebhook payload)"
  unfolding HandleSessionWebhook_def webhook_completed_def webhook_expired_def requestLatePaymentRefund_def
    emit_completed_def emit_expired_def txn_TransitionIfActive_def refund_Create_def txn_UpdateRefundStatus_def
    txn_FindByBookingID_def select_txn_def
  by (auto intro!: clearing split: option.split)

text \<open>The message that a webhook put in the outbox is among the messages the broker hands over.\<close>

lemma webhook_announced:
  assumes "calm pw" "outbox_wf (db pw)" "delivered_logged log (db pw)"
    and "HandleSessionWebhook payload pw = (r, pw1)" "outbox (db pw1) = outbox (db pw) @ [row]" "\<not> ob_Delivered row"
    and "\<And>b. set (sched b) = set b" "length (undelivered (db pw1)) \<le> 100 * n"
    and "worker_Run n sched (\<lambda>_. Written) (log, pw1) = (log', pw2)"
    and "\<forall>km \<in> set log'. km_Topic km = ob_Topic row \<longrightarrow> (\<exists>m \<in> set ms. ms_Value m = Some (km_Value km))"
  shows "\<exists>m \<in> set ms. ms_Value m = Some (ob_Payload row)"
proof -
  have "outbox_wf (db pw1)" using preservesD [OF webhook_outbox_wf assms(2), of payload] assms(4) by simp
  moreover have "delivered_logged log (db pw1)" using assms(3,5,6) by (auto simp: delivered_logged_def)
  moreover have "calm pw1" by (rule keeps_calm [OF webhook_keeps_clear assms(1,4)])
  ultimately have "msg_of row \<in> set log'"
    using worker_delivers [OF _ _ _ _ assms(7,8,9), of row] assms(5) by simp
  from bspec [OF assms(10) this] show ?thesis by (simp add: msg_of_def)
qed

text \<open>
  Property C8: an expired payment frees its seats. When the provider reports that the session of
  an active transaction expired, the transaction expires; after enough ticks of the outbox worker
  the message is at the broker; and whatever else is on the topic, repeated, malformed or for
  other bookings, once the consumer of the ticketing service has handled what the broker hands
  over, the pending booking is expired, all seats of its items are available again, and nothing
  is oversold. Databases and broker are healthy here.
\<close>

theorem expired_payment_frees_seats:
  assumes "calm pw" "pay_schema (db pw)" "outbox_wf (db pw)" "delivered_logged log (db pw)"
    and "t \<in> set (transactions (db pw))" "tx_Status t \<in> set ActiveStatuses" "tx_BookingID t \<noteq> ''''"
    and "Option.bind payload unmarshal_webhook = Some ev" "wh_Event ev = ''payment_session.expired''"
    and "wh_ReferenceID ev = tx_BookingID t" "sessionID ev = '''' \<or> sessionID ev = tx_ProviderRef t"
    and "HandleSessionWebhook payload pw = (r, pw1)"
    and "\<And>b. set (sched b) = set b" "length (undelivered (db pw1)) \<le> 100 * n"
    and "worker_Run n sched (\<lambda>_. Written) (log, pw1) = (log', pw2)"
    and "\<forall>km \<in> set log'. km_Topic km = ''payment.expired'' \<longrightarrow> (\<exists>m \<in> set ms. ms_Value m = Some (km_Value km))"
    and "set (pick ms) = set ms" "StartConsumers ''payment.expired'' = Some h" "Consume pick h (map Got ms) w = (fin, w')"
    and "calm w" "inventory_ok (db w)" "items_known (db w)" "booking_status (db w) (tx_BookingID t) = Some ''pending''"
  shows "txn_status (db pw1) (tx_ID t) = Some StatusExpired \<and>
    booking_status (db w') (tx_BookingID t) = Some ''expired'' \<and>
    (\<forall>tt a. avail (db w) tt = Some a \<longrightarrow>
       (\<exists>a'. avail (db w') tt = Some a' \<and> a + booked_qty (db w) (tx_BookingID t) tt \<le> a')) \<and>
    inventory_ok (db w')"
proof -
  let ?i = "tx_BookingID t"
  obtain row where pay: "txn_status (db pw1) (tx_ID t) = Some StatusExpired"
      "outbox (db pw1) = outbox (db pw) @ [row]" "ob_Topic row = ''payment.expired''" "\<not> ob_Delivered row"
      "map_option px_BookingID (unmarshal_PaymentExpired (ob_Payload row)) = Some ?i"
    using webhook_expired_run [OF assms(1,2,5,8,9,10,7,11)] assms(6,12) by auto
  obtain m where m: "m \<in> set ms" "ms_Value m = Some (ob_Payload row)"
    using webhook_announced [OF assms(1,3,4,12) pay(2,4) assms(13-15), of ms] assms(16) pay(3) by auto
  have w': "w' = work h (pick ms) w" using assms(19) by (auto simp: Consume_def read_loop_Got)
  have ex: "expiring (db w) (db w')" and "booking_status (db w') ?i \<noteq> Some ''pending''"
    using expired_messages [OF assms(18,20,21,22), of "pick ms" ?i] m assms(17) pay(5) w' by auto
  then have st: "booking_status (db w') ?i = Some ''expired''"
    using settling_status [OF ex, of ?i] assms(23) by auto
  moreover have "\<exists>a'. avail (db w') tt = Some a' \<and> a + booked_qty (db w) ?i tt \<le> a'" if "avail (db w) tt = Some a" for tt a
    using settling_avail [OF ex that] freed_booking [OF inventory_okD(1) [OF assms(21)] assms(23), of "db w'" tt] st by simp
  moreover have "inventory_ok (db w')"
    unfolding w' by (rule work_preserves [OF StartConsumers_keeps [OF assms(18)] assms(21)])
  ultimately show ?thesis using pay(1) by blast
qed

end
