(* ===== verification/Event_Service.thy ===== *)
theory Event_Service
  imports Booking_Repo Event_Repo
begin

text \<open>
  \<^verbatim>\<open>application/event\<close>: creating and editing events, the review by an administrator,
  cancellation and its reprocessing, and the queries. The life of an event is a state machine
  (\<open>event_step\<close>); the operations are shown to follow it under every fault schedule.
\<close>

section \<open>Creating and editing\<close>

fun sum_quantities :: "int \<Rightarrow> TicketType list \<Rightarrow> int" where
  "sum_quantities tot [] = tot"
| "sum_quantities tot (tt # types) = sum_quantities (wrap64 (tot + tt_Quantity tt)) types"

fun assign_ids :: "string \<Rightarrow> TicketType list \<Rightarrow> TicketType list ticketing_op" where
  "assign_ids eventID [] = retE []"
| "assign_ids eventID (tt # types) =
     bindE newUUID (\<lambda>i.
     bindE (assign_ids eventID types) (\<lambda>types'.
     retE (tt\<lparr>tt_ID := i, tt_EventID := eventID\<rparr> # types')))"

definition CreateEvent ::
    "string \<Rightarrow> string \<Rightarrow> string \<Rightarrow> string \<Rightarrow> string \<Rightarrow> int \<Rightarrow> time \<Rightarrow> time \<Rightarrow> TicketType list \<Rightarrow> Event ticketing_op" where
  "CreateEvent organizerID title description venueName venueAddress venueCapacity startAt endAt ticketTypes =
     (if ticketTypes = [] then failE ErrTicketTypesEmpty
      else if sum_quantities 0 ticketTypes > venueCapacity then failE ErrCapacityExceeded
      else
        bindE newUUID (\<lambda>eventID.
        let event = \<lparr>ev_ID = eventID, ev_OrganizerID = organizerID, ev_Title = title,
              ev_Description = description, ev_VenueName = venueName, ev_VenueAddress = venueAddress,
              ev_VenueCapacity = venueCapacity, ev_StartAt = startAt, ev_EndAt = endAt,
              ev_Status = EventStatusPending, ev_ReviewedBy = None, ev_ReviewedAt = None,
              ev_CreatedAt = 0, ev_UpdatedAt = 0\<rparr>
        in bindE (repo_CreateEvent event) (\<lambda>_.
           bindE (assign_ids eventID ticketTypes) (\<lambda>types'.
           bindE (CreateTicketTypes types') (\<lambda>_.
           retE event)))))"

text \<open>Every error of the lookup is reported as \<^verbatim>\<open>ErrEventNotFound\<close>.\<close>

definition find_event :: "string \<Rightarrow> Event ticketing_op" where
  "find_event eventID = mapErr (\<lambda>_. ErrEventNotFound) (FindEventByID eventID)"

definition UpdateEvent :: "string \<Rightarrow> string \<Rightarrow> string \<Rightarrow> string \<Rightarrow> time \<Rightarrow> time \<Rightarrow> Event ticketing_op" where
  "UpdateEvent eventID organizerID title description startAt endAt =
     bindE (find_event eventID) (\<lambda>event.
     if ev_OrganizerID event \<noteq> organizerID then failE ErrNotEventOwner
     else if ev_Status event \<noteq> EventStatusDraft \<and> ev_Status event \<noteq> EventStatusPending
          then failE ErrEventNotEditable
     else
       bindE readClock (\<lambda>now.
       let event' = event\<lparr>ev_Title := title, ev_Description := description, ev_StartAt := startAt,
                          ev_EndAt := endAt, ev_UpdatedAt := now\<rparr>
       in bindE (repo_UpdateEvent event') (\<lambda>_. retE event')))"

section \<open>Review\<close>

fun init_seats :: "string \<Rightarrow> TicketType list \<Rightarrow> unit ticketing_op" where
  "init_seats eventID [] = retE ()"
| "init_seats eventID (tt # types) =
     bindE (seat_Init eventID (tt_ID tt) (tt_Quantity tt)) (\<lambda>_.
     bindE (seat_SetPrice eventID (tt_ID tt) (tt_PriceRupiah tt)) (\<lambda>_.
     init_seats eventID types))"

definition review :: "string \<Rightarrow> string \<Rightarrow> event_status \<Rightarrow> Event ticketing_op" where
  "review eventID adminUserID status =
     bindE (find_event eventID) (\<lambda>event.
     if ev_Status event \<noteq> EventStatusPending then failE ErrEventNotApprovable
     else
       bindE readClock (\<lambda>now.
       let event' = event\<lparr>ev_Status := status, ev_ReviewedBy := Some adminUserID,
                          ev_ReviewedAt := Some now, ev_UpdatedAt := now\<rparr>
       in bindE (repo_UpdateEvent event') (\<lambda>_. retE event')))"

definition ApproveEvent :: "string \<Rightarrow> string \<Rightarrow> Event ticketing_op" where
  "ApproveEvent eventID adminUserID =
     bindE (review eventID adminUserID EventStatusPublished) (\<lambda>event.
     bindE (ListTicketTypesByEvent eventID) (\<lambda>types.
     bindE (init_seats eventID types) (\<lambda>_.
     retE event)))"

definition RejectEvent :: "string \<Rightarrow> string \<Rightarrow> string \<Rightarrow> Event ticketing_op" where
  "RejectEvent eventID adminUserID reason = review eventID adminUserID EventStatusRejected"

section \<open>Cancellation\<close>

definition emit_cancelled :: "string \<Rightarrow> 'a ticketing_op \<Rightarrow> 'a ticketing_op" where
  "emit_cancelled eventID k =
     bindE readClock (\<lambda>now.
     ignoreE (outbox_Insert ''event.cancelled'' eventID
               (marshal_EventCancelled \<lparr>ec_EventID = eventID, ec_At = now\<rparr>)) k)"

definition CancelEvent :: "string \<Rightarrow> string \<Rightarrow> Event ticketing_op" where
  "CancelEvent eventID userID =
     bindE (find_event eventID) (\<lambda>event.
     if ev_Status event \<noteq> EventStatusPublished then failE ErrEventNotCancellable
     else if ev_OrganizerID event \<noteq> userID then failE ErrNotEventOwner
     else
       bindE readClock (\<lambda>now.
       let event' = event\<lparr>ev_Status := EventStatusCancelled, ev_UpdatedAt := now\<rparr>
       in bindE (repo_UpdateEvent event') (\<lambda>_.
          emit_cancelled (ev_ID event') (retE event'))))"

definition reprocessCancellation :: "string \<Rightarrow> string \<Rightarrow> bool \<Rightarrow> Event ticketing_op" where
  "reprocessCancellation eventID userID checkOwner =
     bindE (find_event eventID) (\<lambda>event.
     if ev_Status event \<noteq> EventStatusCancelled then failE ErrEventNotCancelled
     else if checkOwner \<and> ev_OrganizerID event \<noteq> userID then failE ErrNotEventOwner
     else emit_cancelled (ev_ID event) (retE event))"

definition ReprocessCancellation :: "string \<Rightarrow> string \<Rightarrow> Event ticketing_op" where
  "ReprocessCancellation eventID userID = reprocessCancellation eventID userID True"

definition ReprocessCancellationAsAdmin :: "string \<Rightarrow> Event ticketing_op" where
  "ReprocessCancellationAsAdmin eventID = reprocessCancellation eventID '''' False"

section \<open>Queries\<close>

fun live_seats :: "string \<Rightarrow> TicketType list \<Rightarrow> TicketType list ticketing_op" where
  "live_seats eventID [] = retE []"
| "live_seats eventID (tt # types) =
     bindE (reader_Available eventID (tt_ID tt)) (\<lambda>n.
     bindE (live_seats eventID types) (\<lambda>types'.
     retE (tt\<lparr>tt_Available := n\<rparr> # types')))"

definition GetEvent :: "string \<Rightarrow> (Event \<times> TicketType list) ticketing_op" where
  "GetEvent eventID =
     bindE (find_event eventID) (\<lambda>event.
     bindE (handleE (ListTicketTypesByEvent eventID) (\<lambda>_. retE []) retE) (\<lambda>types.
     bindE (live_seats eventID types) (\<lambda>types'.
     retE (event, types'))))"

definition ListPublished :: "int \<Rightarrow> int \<Rightarrow> (Event list \<times> int) ticketing_op" where
  "ListPublished lim off = repo_ListPublished lim off"

definition ListByOrganizer :: "string \<Rightarrow> Event list ticketing_op" where
  "ListByOrganizer organizerID = repo_ListByOrganizer organizerID"

definition ListPending :: "int \<Rightarrow> int \<Rightarrow> (Event list \<times> int) ticketing_op" where
  "ListPending lim off = repo_ListPending lim off"

definition ListAll :: "string \<Rightarrow> int \<Rightarrow> int \<Rightarrow> (Event list \<times> int) ticketing_op" where
  "ListAll status lim off = repo_FindAll status lim off"

section \<open>The life of an event\<close>

definition event_status_of :: "ticketing_db \<Rightarrow> string \<Rightarrow> event_status option" where
  "event_status_of d i = map_option ev_Status (find (\<lambda>e. ev_ID e = i) (events d))"

inductive event_step :: "event_status \<Rightarrow> event_status \<Rightarrow> bool" where
  approve: "event_step EventStatusPending EventStatusPublished"
| reject: "event_step EventStatusPending EventStatusRejected"
| cancel: "event_step EventStatusPublished EventStatusCancelled"

inductive_simps event_step_iff: "event_step s s'"

text \<open>What one operation may do to the statuses: each event stays or takes one step.\<close>

definition event_moves :: "ticketing_db \<Rightarrow> ticketing_db \<Rightarrow> bool" where
  "event_moves d d' \<longleftrightarrow>
     (\<forall>i s. event_status_of d i = Some s \<longrightarrow>
        (\<exists>s'. event_status_of d' i = Some s' \<and> (s' = s \<or> event_step s s')))"

definition follows_life :: "'a ticketing_op \<Rightarrow> bool" where
  "follows_life f \<longleftrightarrow>
     (\<forall>w r w'. schema_ok (db w) \<longrightarrow> f w = (r, w') \<longrightarrow> schema_ok (db w') \<and> event_moves (db w) (db w'))"

lemma event_moves_events: "events d' = events d \<Longrightarrow> event_moves d d'"
  by (auto simp: event_moves_def event_status_of_def)

lemma event_moves_trans_same: "event_moves d d1 \<Longrightarrow> events d2 = events d1 \<Longrightarrow> event_moves d d2"
  by (simp add: event_moves_def event_status_of_def)

lemma find_event_Inr:
  "find_event i w = (Inr e, w') \<Longrightarrow> find (\<lambda>x. ev_ID x = i) (events (db w)) = Some e \<and> ev_ID e = i \<and> db w' = db w"
  using FindEventByID_Inr [of i w e w'] by (auto simp: find_event_def run_inv dest: find_SomeD)

lemma read_only_find_event [reading]: "read_only (find_event i)"
  unfolding find_event_def by (intro reading)

lemma stmt_update_event_status:
  assumes "stmt_update_event e now d = Inr (u, d')" "event_status_of d (ev_ID e) = Some s"
  shows "event_status_of d' = (event_status_of d)(ev_ID e \<mapsto> ev_Status e)"
    and "ticket_types d' = ticket_types d" "bookings d' = bookings d" "booking_items d' = booking_items d"
      "outbox d' = outbox d" "outbox_seq d' = outbox_seq d"
proof -
  have ev: "events d' = update_where (\<lambda>row. ev_ID row = ev_ID e) (write_event e now) (events d)"
    using assms(1) by (auto simp: stmt_update_event_def split: if_splits)
  have "event_status_of d' j = ((event_status_of d)(ev_ID e \<mapsto> ev_Status e)) j" for j
    using assms(2) by (cases "find (\<lambda>x. ev_ID x = j) (events d)")
      (auto simp: event_status_of_def ev find_update_where dest: find_SomeD)
  then show "event_status_of d' = (event_status_of d)(ev_ID e \<mapsto> ev_Status e)" ..
qed (use assms(1) in \<open>auto simp: stmt_update_event_def split: if_splits\<close>)

lemma repo_UpdateEvent_run:
  assumes "repo_UpdateEvent e w = (r, w')" "schema_ok (db w)" "event_status_of (db w) (ev_ID e) = Some s"
    and "ev_Status e = s \<or> event_step s (ev_Status e)"
  shows "schema_ok (db w') \<and> event_moves (db w) (db w')"
proof -
  obtain r1 where e: "exec (stmt_update_event e (clock w (ticks w))) (w\<lparr>ticks := Suc (ticks w)\<rparr>) = (r1, w')"
    using assms(1) by (cases r) (auto simp: repo_UpdateEvent_def run_inv)
  then show ?thesis
  proof (cases rule: exec_cases)
    case 1
    then show ?thesis using assms(2) by (simp add: event_moves_events)
  next
    case (2 u)
    with stmt_update_event_schema stmt_update_event_status(1) assms(2-4) show ?thesis
      by (auto simp: event_moves_def)
  qed
qed

lemma follows_life_guarded:
  assumes "\<And>e w r w'. find (\<lambda>x. ev_ID x = i) (events (db w)) = Some e \<Longrightarrow> ev_ID e = i \<Longrightarrow> schema_ok (db w) \<Longrightarrow>
      k e w = (r, w') \<Longrightarrow> schema_ok (db w') \<and> event_moves (db w) (db w')"
  shows "follows_life (bindE (find_event i) k)"
  unfolding follows_life_def
proof (intro allI impI)
  fix w r w' assume ok: "schema_ok (db w)" and r: "bindE (find_event i) k w = (r, w')"
  obtain r1 w1 where f: "find_event i w = (r1, w1)" by fastforce
  have db1: "db w1 = db w" by (rule read_onlyD [OF read_only_find_event f])
  show "schema_ok (db w') \<and> event_moves (db w) (db w')"
  proof (cases r1)
    case (Inl e)
    with r f db1 ok show ?thesis by (auto simp: bindE_def event_moves_events)
  next
    case (Inr e)
    with r f have "k e w1 = (r, w')" by (simp add: bindE_def)
    with assms [of w1 e r w'] find_event_Inr [of i w e w1] f Inr ok db1 show ?thesis by simp
  qed
qed

text \<open>Work that touches neither the events nor the schema may follow a life step.\<close>

definition off_events :: "'a ticketing_op \<Rightarrow> bool" where
  "off_events f \<longleftrightarrow> (\<forall>es. preserves (\<lambda>d. schema_ok d \<and> events d = es) f)"

lemma off_eventsD: "off_events f \<Longrightarrow> schema_ok (db w) \<Longrightarrow> f w = (r, w') \<Longrightarrow> schema_ok (db w') \<and> events (db w') = events (db w)"
  unfolding off_events_def using preservesD [of "\<lambda>d. schema_ok d \<and> events d = events (db w)" f w] by simp

lemma follows_life_then:
  assumes f: "follows_life f" and k: "\<And>a. off_events (k a)"
  shows "follows_life (bindE f k)"
  unfolding follows_life_def
proof (intro allI impI)
  fix w r w' assume ok: "schema_ok (db w)" and run: "bindE f k w = (r, w')"
  obtain r1 w1 where r1: "f w = (r1, w1)" by fastforce
  with f ok have m: "schema_ok (db w1)" "event_moves (db w) (db w1)" by (auto simp: follows_life_def)
  show "schema_ok (db w') \<and> event_moves (db w) (db w')"
  proof (cases r1)
    case (Inl e)
    with run r1 m show ?thesis by (auto simp: bindE_def)
  next
    case (Inr a)
    with run r1 have "k a w1 = (r, w')" by (simp add: bindE_def)
    with off_eventsD [OF k m(1)] m(2) event_moves_trans_same show ?thesis by blast
  qed
qed

lemma off_events_read_only: "read_only f \<Longrightarrow> off_events f"
  by (simp add: off_events_def read_only_preserves)

lemma off_events_bindE: "off_events f \<Longrightarrow> (\<And>a. off_events (k a)) \<Longrightarrow> off_events (bindE f k)"
  by (auto simp: off_events_def intro: preserves_bindE)

lemma off_events_tickets:
  assumes "\<And>d n d'. q d = Inr (n, d') \<Longrightarrow> events d' = events d \<and> (schema_ok d \<longrightarrow> schema_ok d')"
  shows "off_events (bindE (mapErr DbErr (exec q)) (\<lambda>_. retE ()))"
  unfolding off_events_def using assms by (auto intro!: preserve)

lemma off_events_seat [simp]: "off_events (seat_Init ev i q)" "off_events (seat_SetPrice ev i p)"
  unfolding seat_Init_def seat_SetPrice_def
  by (rule off_events_tickets,
      auto simp: stmt_Init_def stmt_SetPrice_def split: if_splits
      dest: update_tickets_frame(1) elim!: update_tickets_schema)+

lemma off_events_retE [simp]: "off_events (retE a)"
  by (simp add: off_events_def preserves_retE)

lemma off_events_init_seats [simp]: "off_events (init_seats ev types)"
  by (induction types) (auto intro!: off_events_bindE)

lemma off_events_emit: "off_events (emit_cancelled i (retE e))"
  unfolding off_events_def emit_cancelled_def outbox_Insert_def preserves_def
  by (auto simp: bindE_def ignoreE_def readClock_def retE_def exec_def run_stmt_def split: fault.splits)

text \<open>
  Updates, reviews and cancellations share one shape: look the event up, check a guard, write the
  changed copy back.
\<close>

definition edit_event ::
    "string \<Rightarrow> (Event \<Rightarrow> ticketing_error option) \<Rightarrow> (time \<Rightarrow> Event \<Rightarrow> Event) \<Rightarrow> Event ticketing_op" where
  "edit_event i guard f =
     bindE (find_event i) (\<lambda>e.
     case guard e of
       Some err \<Rightarrow> failE err
     | None \<Rightarrow> bindE readClock (\<lambda>now. bindE (repo_UpdateEvent (f now e)) (\<lambda>_. retE (f now e))))"

lemma edit_event_life:
  assumes f: "\<And>now e. guard e = None \<Longrightarrow> ev_ID (f now e) = ev_ID e \<and>
      (ev_Status (f now e) = ev_Status e \<or> event_step (ev_Status e) (ev_Status (f now e)))"
  shows "follows_life (edit_event i guard f)"
  unfolding edit_event_def
proof (rule follows_life_guarded)
  fix e w r w' assume e: "find (\<lambda>x. ev_ID x = i) (events (db w)) = Some e" "ev_ID e = i" and ok: "schema_ok (db w)"
    and run: "(case guard e of Some err \<Rightarrow> failE err
      | None \<Rightarrow> bindE readClock (\<lambda>now. bindE (repo_UpdateEvent (f now e)) (\<lambda>_. retE (f now e)))) w = (r, w')"
  consider "db w' = db w" | r1 now where "guard e = None"
      "repo_UpdateEvent (f now e) (w\<lparr>ticks := Suc (ticks w)\<rparr>) = (r1, w')"
    using run by (cases r) (auto simp: run_inv split: option.splits)
  then show "schema_ok (db w') \<and> event_moves (db w) (db w')"
  proof cases
    case 1
    with ok show ?thesis by (simp add: event_moves_events)
  next
    case 2
    from repo_UpdateEvent_run [OF 2(2), of "ev_Status e"] f [OF 2(1), of now] ok e show ?thesis
      by (simp add: event_status_of_def)
  qed
qed

lemma UpdateEvent_edit:
  "UpdateEvent i org t de st en =
     edit_event i (\<lambda>e. if ev_OrganizerID e \<noteq> org then Some ErrNotEventOwner
                       else if ev_Status e \<noteq> EventStatusDraft \<and> ev_Status e \<noteq> EventStatusPending
                            then Some ErrEventNotEditable else None)
       (\<lambda>now e. e\<lparr>ev_Title := t, ev_Description := de, ev_StartAt := st, ev_EndAt := en, ev_UpdatedAt := now\<rparr>)"
  unfolding UpdateEvent_def edit_event_def
  by (intro arg_cong2 [where f = bindE] refl ext) (auto simp: Let_def)

lemma review_edit:
  "review i admin st =
     edit_event i (\<lambda>e. if ev_Status e \<noteq> EventStatusPending then Some ErrEventNotApprovable else None)
       (\<lambda>now e. e\<lparr>ev_Status := st, ev_ReviewedBy := Some admin, ev_ReviewedAt := Some now, ev_UpdatedAt := now\<rparr>)"
  unfolding review_def edit_event_def
  by (intro arg_cong2 [where f = bindE] refl ext) (auto simp: Let_def)

lemma CancelEvent_edit:
  "CancelEvent i userID =
     bindE (edit_event i (\<lambda>e. if ev_Status e \<noteq> EventStatusPublished then Some ErrEventNotCancellable
                              else if ev_OrganizerID e \<noteq> userID then Some ErrNotEventOwner else None)
              (\<lambda>now e. e\<lparr>ev_Status := EventStatusCancelled, ev_UpdatedAt := now\<rparr>))
       (\<lambda>e. emit_cancelled (ev_ID e) (retE e))"
  unfolding CancelEvent_def edit_event_def
  by (rule ext) (auto simp: bindE_def Let_def failE_def retE_def readClock_def split: prod.splits sum.splits)

lemma UpdateEvent_life: "follows_life (UpdateEvent i org t de st en)"
  unfolding UpdateEvent_edit by (rule edit_event_life) simp

lemma review_life: "st \<in> {EventStatusPublished, EventStatusRejected} \<Longrightarrow> follows_life (review i admin st)"
  unfolding review_edit by (rule edit_event_life) (auto simp: event_step_iff split: if_splits)

lemma ApproveEvent_life: "follows_life (ApproveEvent i admin)"
  unfolding ApproveEvent_def
  by (rule follows_life_then [OF review_life])
    (auto intro!: off_events_bindE off_events_read_only [OF read_only_event_queries(2)])

lemma RejectEvent_life: "follows_life (RejectEvent i admin reason)"
  unfolding RejectEvent_def by (rule review_life) simp

lemma CancelEvent_life: "follows_life (CancelEvent i userID)"
  unfolding CancelEvent_edit
  by (rule follows_life_then [OF edit_event_life off_events_emit]) (auto simp: event_step_iff split: if_splits)

lemma reprocess_life: "follows_life (reprocessCancellation i userID c)"
  unfolding reprocessCancellation_def
proof (rule follows_life_guarded)
  fix e w r w' assume ok: "schema_ok (db w)"
    and run: "(if ev_Status e \<noteq> EventStatusCancelled then failE ErrEventNotCancelled
     else if c \<and> ev_OrganizerID e \<noteq> userID then failE ErrNotEventOwner
     else emit_cancelled (ev_ID e) (retE e)) w = (r, w')"
  from run have "db w' = db w \<or> emit_cancelled (ev_ID e) (retE e) w = (r, w')"
    by (auto simp: run_inv split: if_splits)
  with ok off_eventsD [OF off_events_emit ok, of "ev_ID e" e r w'] show "schema_ok (db w') \<and> event_moves (db w) (db w')"
    by (auto intro: event_moves_events)
qed

lemma follows_life_read_only: "read_only f \<Longrightarrow> follows_life f"
  unfolding follows_life_def by (metis event_moves_events read_onlyD)

lemma follows_life_after_read:
  assumes "read_only f" "\<And>a. follows_life (k a)"
  shows "follows_life (bindE f k)"
  unfolding follows_life_def
proof (intro allI impI)
  fix w r w' assume ok: "schema_ok (db w)" and run: "bindE f k w = (r, w')"
  obtain r1 w1 where r1: "f w = (r1, w1)" by fastforce
  have db1: "db w1 = db w" by (rule read_onlyD [OF assms(1) r1])
  show "schema_ok (db w') \<and> event_moves (db w) (db w')"
  proof (cases r1)
    case (Inl e)
    with run r1 db1 ok show ?thesis by (auto simp: bindE_def event_moves_events)
  next
    case (Inr a)
    with run r1 have "k a w1 = (r, w')" by (simp add: bindE_def)
    moreover have "schema_ok (db w1)" using ok db1 by simp
    ultimately have "schema_ok (db w') \<and> event_moves (db w1) (db w')"
      using assms(2) [of a] unfolding follows_life_def by blast
    with db1 show ?thesis by simp
  qed
qed

lemma stmt_insert_event_appends: "stmt_insert_event e now d = Inr (u, d') \<Longrightarrow> \<exists>row. events d' = events d @ [row]"
  by (auto simp: stmt_insert_event_def Let_def split: if_splits)

lemma repo_CreateEvent_life: "follows_life (repo_CreateEvent e)"
  unfolding repo_CreateEvent_def
proof (rule follows_life_after_read [OF read_only_basic(3)])
  fix now
  show "follows_life (mapErr DbErr (exec (stmt_insert_event e now)))"
    unfolding follows_life_def
  proof (intro allI impI)
    fix w r w' assume ok: "schema_ok (db w)" and "mapErr DbErr (exec (stmt_insert_event e now)) w = (r, w')"
    then obtain r1 where "exec (stmt_insert_event e now) w = (r1, w')" by (cases r) (auto simp: run_inv)
    then show "schema_ok (db w') \<and> event_moves (db w) (db w')"
    proof (cases rule: exec_cases)
      case 1
      with ok show ?thesis by (simp add: event_moves_events)
    next
      case (2 u)
      from stmt_insert_event_appends [OF 2] have "event_moves (db w) (db w')" by (auto simp: event_moves_def event_status_of_def find_append)
      with stmt_insert_event_schema [OF 2 ok] show ?thesis by simp
    qed
  qed
qed

lemma read_only_assign_ids [reading]: "read_only (assign_ids ev types)"
  by (induction types) (auto intro!: reading)

lemma off_events_CreateTicketTypes: "off_events (CreateTicketTypes types)"
proof (induction types)
  case (Cons t types)
  have "off_events (mapErr DbErr (exec (stmt_insert_ticket t)))"
    unfolding off_events_def
  proof (intro allI preserve)
    fix es d u d' assume "schema_ok d \<and> events d = es" "stmt_insert_ticket t d = Inr (u, d')"
    then show "schema_ok d' \<and> events d' = es"
      using stmt_insert_ticket_schema [of t d u d']
      by (auto simp: stmt_insert_ticket_def Let_def split: if_splits)
  qed
  with Cons show ?case by (auto intro: off_events_bindE)
qed simp

lemma CreateEvent_life: "follows_life (CreateEvent org t de vn va cap st en types)"
proof -
  have tail: "off_events (bindE (assign_ids i types) (\<lambda>types'. bindE (CreateTicketTypes types') (\<lambda>_. retE e)))" for i e
    by (intro off_events_bindE off_events_read_only [OF read_only_assign_ids] off_events_CreateTicketTypes off_events_retE)
  show ?thesis
    unfolding CreateEvent_def Let_def
    by (auto intro!: follows_life_read_only [OF read_only_basic(2)] follows_life_after_read [OF read_only_basic(4)]
        follows_life_then [OF repo_CreateEvent_life tail])
qed

text \<open>Any sequence of calls of the event service, each under its own fault schedule.\<close>

datatype event_call =
    CallCreate string string string string string int time time "TicketType list"
  | CallUpdate string string string string time time
  | CallApprove string string
  | CallReject string string string
  | CallCancel string string
  | CallReprocess string string
  | CallReprocessAsAdmin string

fun run_call :: "event_call \<Rightarrow> Event ticketing_op" where
  "run_call (CallCreate org t de vn va cap st en types) = CreateEvent org t de vn va cap st en types"
| "run_call (CallUpdate i org t de st en) = UpdateEvent i org t de st en"
| "run_call (CallApprove i admin) = ApproveEvent i admin"
| "run_call (CallReject i admin reason) = RejectEvent i admin reason"
| "run_call (CallCancel i userID) = CancelEvent i userID"
| "run_call (CallReprocess i userID) = ReprocessCancellation i userID"
| "run_call (CallReprocessAsAdmin i) = ReprocessCancellationAsAdmin i"

lemma run_call_life: "follows_life (run_call c)"
  by (cases c) (simp_all add: CreateEvent_life UpdateEvent_life ApproveEvent_life RejectEvent_life CancelEvent_life
      reprocess_life ReprocessCancellation_def ReprocessCancellationAsAdmin_def)

text \<open>Calls one after another; each runs to its end before the next one begins.\<close>

inductive event_reach :: "ticketing_db \<Rightarrow> ticketing_db \<Rightarrow> bool" where
  here: "event_reach d d"
| call: "event_reach d (db w) \<Longrightarrow> run_call c w = (r, w') \<Longrightarrow> event_reach d (db w')"

lemma event_reach_steps:
  assumes "event_reach d d'" "schema_ok d"
  shows "schema_ok d' \<and> (\<forall>i s. event_status_of d i = Some s \<longrightarrow>
    (\<exists>s'. event_status_of d' i = Some s' \<and> event_step\<^sup>*\<^sup>* s s'))"
  using assms
proof (induction rule: event_reach.induct)
  case (call d w c r w')
  then have "event_moves (db w) (db w')" "schema_ok (db w')" using run_call_life by (auto simp: follows_life_def)
  then show ?case using call unfolding event_moves_def by (metis rtranclp.rtrancl_into_rtrancl)
qed auto

lemma event_step_terminal: "event_step\<^sup>*\<^sup>* s s' \<Longrightarrow> s \<in> {EventStatusRejected, EventStatusCancelled} \<Longrightarrow> s' = s"
  by (induction rule: rtranclp_induct) (auto simp: event_step_iff)

lemma event_step_from_pending:
  "event_step\<^sup>*\<^sup>* s s' \<Longrightarrow> s = EventStatusPending \<Longrightarrow>
   s' \<in> {EventStatusPending, EventStatusPublished, EventStatusRejected, EventStatusCancelled}"
  by (induction rule: rtranclp_induct) (auto simp: event_step_iff)

text \<open>
  Property C13: as long as the event service serves its calls one after another, in any sequence and
  with any statements failing, no event disappears, its status only moves from pending to published
  or rejected and from published to cancelled, and a rejected or cancelled event keeps its status
  for ever. Calls for the same event that overlap are not covered, and there it is false: the service
  checks a status it read before it writes (\<open>stale_edit_unpublishes\<close>).
\<close>

theorem event_life_cycle:
  assumes "event_reach d d'" "schema_ok d" "event_status_of d i = Some s"
  shows "\<exists>s'. event_status_of d' i = Some s' \<and> event_step\<^sup>*\<^sup>* s s' \<and>
    (s \<in> {EventStatusRejected, EventStatusCancelled} \<longrightarrow> s' = s)"
  using event_reach_steps [OF assms(1,2)] assms(3) event_step_terminal by blast

section \<open>Approval opens the sale\<close>

lemma stmt_Init_avail:
  assumes "stmt_Init i q d = Inr (n, d')"
  shows "avail d' t = (if t = i then map_option (\<lambda>_. q) (avail d t) else avail d t)" "capacity d' = capacity d" "price d' = price d"
proof -
  note u = assms [unfolded stmt_Init_def]
  show "avail d' t = (if t = i then map_option (\<lambda>_. q) (avail d t) else avail d t)"
    using update_tickets_eqs(1) [OF u, of t]
    by (cases "find (\<lambda>x. tt_ID x = t) (ticket_types d)") (auto simp: avail_def dest: find_SomeD)
  show "capacity d' = capacity d"
    using update_tickets_eqs(2) [OF u] by (simp add: fun_eq_iff capacity_def if_distrib [of tt_Quantity] cong: if_cong)
  show "price d' = price d"
    using update_tickets_eqs(3) [OF u] by (simp add: fun_eq_iff price_def if_distrib [of tt_PriceRupiah] cong: if_cong)
qed

lemma stmt_SetPrice_avail:
  assumes "stmt_SetPrice i p d = Inr (n, d')"
  shows "avail d' = avail d" "capacity d' = capacity d" "price d' t = (if t = i then map_option (\<lambda>_. p) (price d t) else price d t)"
proof -
  have u: "update_tickets (\<lambda>t. tt_ID t = i) (\<lambda>t. tt_Available t) (\<lambda>t. t\<lparr>tt_PriceRupiah := p\<rparr>) d = Inr (n, d')"
    using assms by (auto simp: stmt_SetPrice_def split: if_splits)
  show "avail d' = avail d" "capacity d' = capacity d"
    using update_tickets_eqs [OF u]
    by (simp_all add: fun_eq_iff avail_def capacity_def if_distrib [of tt_Quantity] if_distrib [of tt_Available] cong: if_cong)
  show "price d' t = (if t = i then map_option (\<lambda>_. p) (price d t) else price d t)"
    using update_tickets_eqs(3) [OF u, of t]
    by (cases "find (\<lambda>x. tt_ID x = t) (ticket_types d)") (auto simp: price_def dest: find_SomeD)
qed

lemma avail_None_capacity: "avail d t = None \<longleftrightarrow> capacity d t = None"
  by (simp add: avail_def capacity_def)

lemma init_seats_Inr:
  "init_seats ev types w = (Inr u, w') \<Longrightarrow>
   \<forall>tt \<in> set types. capacity (db w) (tt_ID tt) = Some (tt_Quantity tt) \<and> price (db w) (tt_ID tt) = Some (tt_PriceRupiah tt) \<Longrightarrow>
   capacity (db w') = capacity (db w) \<and> price (db w') = price (db w) \<and>
   avail (db w') = (\<lambda>t. if t \<in> tt_ID ` set types then capacity (db w) t else avail (db w) t)"
proof (induction types arbitrary: w)
  case (Cons tt types)
  obtain n w1 m w2 where i: "exec (stmt_Init (tt_ID tt) (tt_Quantity tt)) w = (Inr n, w1)"
    and p: "exec (stmt_SetPrice (tt_ID tt) (tt_PriceRupiah tt)) w1 = (Inr m, w2)"
    and r: "init_seats ev types w2 = (Inr u, w')"
    using Cons.prems(1) by (auto simp: seat_Init_def seat_SetPrice_def run_inv)
  note q = exec_Inr(1) [OF i] exec_Inr(1) [OF p]
  have av: "avail (db w2) t = (if t = tt_ID tt then capacity (db w) t else avail (db w) t)" for t
    using stmt_Init_avail(1) [OF q(1), of t] stmt_SetPrice_avail(1) [OF q(2)] Cons.prems(2)
      avail_None_capacity [of "db w" t] by (cases "avail (db w) t") auto
  have ca: "capacity (db w2) = capacity (db w)"
    using stmt_Init_avail(2) [OF q(1)] stmt_SetPrice_avail(2) [OF q(2)] by simp
  have pr: "price (db w2) = price (db w)"
    using stmt_Init_avail(3) [OF q(1)] stmt_SetPrice_avail(3) [OF q(2)] Cons.prems(2) by (auto simp: fun_eq_iff)
  from Cons.IH [OF r] Cons.prems(2) ca av pr show ?case by (auto simp: fun_eq_iff)
qed (simp add: run_inv)

lemma edit_event_Inr:
  assumes "edit_event i guard f w = (Inr e', w')"
  obtains e now where "find (\<lambda>x. ev_ID x = i) (events (db w)) = Some e" "ev_ID e = i" "guard e = None" "e' = f now e"
    "\<exists>now' u. stmt_update_event (f now e) now' (db w) = Inr (u, db w')"
proof -
  obtain e w1 where f: "find_event i w = (Inr e, w1)" and
    k: "(case guard e of Some err \<Rightarrow> failE err
       | None \<Rightarrow> bindE readClock (\<lambda>now. bindE (repo_UpdateEvent (f now e)) (\<lambda>_. retE (f now e)))) w1 = (Inr e', w')"
    using assms by (auto simp: edit_event_def run_inv)
  note fe = find_event_Inr [OF f]
  have g: "guard e = None" using k by (auto simp: run_inv split: option.splits)
  let ?now = "clock w1 (ticks w1)" and ?w = "w1\<lparr>ticks := Suc (ticks w1)\<rparr>"
  have "e' = f ?now e" and r: "\<exists>u. repo_UpdateEvent (f ?now e) ?w = (Inr u, w')"
    using k g by (auto simp: run_inv)
  moreover have "\<exists>now' u. stmt_update_event (f ?now e) now' (db w) = Inr (u, db w')"
    using r fe by (auto simp: repo_UpdateEvent_def run_inv dest!: exec_Inr(1))
  ultimately show thesis using that fe g by blast
qed

lemma schema_capacity:
  "schema_ok d \<Longrightarrow> t \<in> set (ticket_types d) \<Longrightarrow> capacity d (tt_ID t) = Some (tt_Quantity t) \<and>
     avail d (tt_ID t) = Some (tt_Available t) \<and> price d (tt_ID t) = Some (tt_PriceRupiah t)"
  using tickets_ok_find [OF schema_ok_tickets] by (simp add: capacity_def avail_def price_def)

lemma open_sale:
  assumes ls: "ListTicketTypesByEvent i w1 = (Inr types, w2)" and ini: "init_seats i types w2 = (Inr u, w')" and ok: "schema_ok (db w1)"
  shows "\<forall>t \<in> set (ticket_types (db w1)). price (db w') (tt_ID t) = Some (tt_PriceRupiah t) \<and>
    avail (db w') (tt_ID t) = Some (if tt_EventID t = i then tt_Quantity t else tt_Available t)"
proof
  fix t assume t: "t \<in> set (ticket_types (db w1))"
  have w2: "db w2 = db w1" by (rule read_onlyD [OF read_only_event_queries(2) ls])
  have types: "types = map (\<lambda>t. t\<lparr>tt_Available := 0\<rparr>) (filter (\<lambda>t. tt_EventID t = i) (ticket_types (db w1)))"
    using ls by (auto simp: ListTicketTypesByEvent_def run_inv dest!: exec_Inr(1))
  have cap: "\<forall>tt \<in> set types. capacity (db w2) (tt_ID tt) = Some (tt_Quantity tt) \<and> price (db w2) (tt_ID tt) = Some (tt_PriceRupiah tt)"
    using schema_capacity [OF ok] by (auto simp: types w2)
  have inj: "inj_on tt_ID (set (ticket_types (db w1)))" using ok by (simp add: schema_ok_def distinct_map)
  have ids: "tt_ID ` set types = tt_ID ` {t \<in> set (ticket_types (db w1)). tt_EventID t = i}"
    by (simp add: types image_image)
  have "tt_ID t \<in> tt_ID ` set types \<longleftrightarrow> tt_EventID t = i"
    unfolding ids using inj t by (subst inj_on_image_mem_iff) auto
  then show "price (db w') (tt_ID t) = Some (tt_PriceRupiah t) \<and>
      avail (db w') (tt_ID t) = Some (if tt_EventID t = i then tt_Quantity t else tt_Available t)"
    using init_seats_Inr [OF ini cap] schema_capacity [OF ok t] w2 by auto
qed

text \<open>
  Property C32: an approval that reports success found the event pending, made it published in the
  name of the administrator, and put every seat of its ticket types on sale at the price of the
  type; the seats of other events did not move, and no price changed.
\<close>

theorem ApproveEvent_opens_sale:
  assumes "ApproveEvent i admin w = (Inr e, w')" "schema_ok (db w)"
  shows "event_status_of (db w) i = Some EventStatusPending \<and>
    event_status_of (db w') = (event_status_of (db w))(i \<mapsto> EventStatusPublished) \<and>
    ev_Status e = EventStatusPublished \<and> ev_ReviewedBy e = Some admin \<and>
    (\<forall>t \<in> set (ticket_types (db w)). price (db w') (tt_ID t) = Some (tt_PriceRupiah t) \<and>
       avail (db w') (tt_ID t) = Some (if tt_EventID t = i then tt_Quantity t else tt_Available t))"
proof -
  obtain w1 types w2 u where rv: "review i admin EventStatusPublished w = (Inr e, w1)"
    and ls: "ListTicketTypesByEvent i w1 = (Inr types, w2)" and ini: "init_seats i types w2 = (Inr u, w')"
    using assms(1) by (auto simp: ApproveEvent_def run_inv)
  from rv [unfolded review_edit] obtain e0 now where e0: "find (\<lambda>x. ev_ID x = i) (events (db w)) = Some e0" "ev_ID e0 = i"
    "(if ev_Status e0 \<noteq> EventStatusPending then Some ErrEventNotApprovable else None) = None"
    "e = e0\<lparr>ev_Status := EventStatusPublished, ev_ReviewedBy := Some admin, ev_ReviewedAt := Some now, ev_UpdatedAt := now\<rparr>"
    "\<exists>now' u. stmt_update_event (e0\<lparr>ev_Status := EventStatusPublished, ev_ReviewedBy := Some admin,
        ev_ReviewedAt := Some now, ev_UpdatedAt := now\<rparr>) now' (db w) = Inr (u, db w1)"
    by (rule edit_event_Inr)
  have pend: "event_status_of (db w) i = Some EventStatusPending"
    using e0(1,3) by (simp add: event_status_of_def split: if_splits)
  obtain now' v where up: "stmt_update_event e now' (db w) = Inr (v, db w1)" using e0(4,5) by blast
  have upd: "event_status_of (db w1) = (event_status_of (db w))(i \<mapsto> EventStatusPublished)" "ticket_types (db w1) = ticket_types (db w)"
    using stmt_update_event_status [OF up, of EventStatusPending] pend e0(2,4) by simp_all
  have ok1: "schema_ok (db w1)" by (rule stmt_update_event_schema [OF up assms(2)])
  note opened = open_sale [OF ls ini ok1]
  have "events (db w') = events (db w1)"
    using off_eventsD [OF off_events_init_seats _ ini] ok1 read_onlyD [OF read_only_event_queries(2) ls] by simp
  then have "event_status_of (db w') = event_status_of (db w1)" by (simp add: event_status_of_def fun_eq_iff)
  with opened show ?thesis using pend upd e0(4) by simp
qed

section \<open>Cancellation and its message\<close>

lemma find_event_calm:
  "calm w \<Longrightarrow> find_event i w =
     (case find (\<lambda>e. ev_ID e = i) (events (db w)) of None \<Rightarrow> Inl ErrEventNotFound | Some e \<Rightarrow> Inr e, w)"
  by (simp add: find_event_def FindEventByID_def mapErr_def run_stmt_def split: option.splits)

lemma stmt_update_event_ok:
  assumes "schema_ok d" "ev_Status e \<in> {''draft'', ''pending'', ''published'', ''rejected'', ''cancelled''}"
  shows "stmt_update_event e now d =
    Inr ((), d\<lparr>events := update_where (\<lambda>row. ev_ID row = ev_ID e) (write_event e now) (events d)\<rparr>)"
  using assms by (auto simp: stmt_update_event_def schema_ok_def event_check_def)

lemma update_where_status:
  assumes "find (\<lambda>x. ev_ID x = i) (events d) = Some e0" "ev_ID e = i"
  shows "event_status_of (d\<lparr>events := update_where (\<lambda>row. ev_ID row = i) (write_event e now) (events d)\<rparr>) =
    (event_status_of d)(i \<mapsto> ev_Status e)"
proof
  fix j
  show "event_status_of (d\<lparr>events := update_where (\<lambda>row. ev_ID row = i) (write_event e now) (events d)\<rparr>) j =
      ((event_status_of d)(i \<mapsto> ev_Status e)) j"
    using assms by (cases "find (\<lambda>x. ev_ID x = j) (events d)")
      (auto simp: event_status_of_def find_update_where dest: find_SomeD)
qed

lemma event_status_of_outbox [simp]:
  "event_status_of (d\<lparr>outbox := x, outbox_seq := n\<rparr>) = event_status_of d"
  by (simp add: event_status_of_def fun_eq_iff)

text \<open>
  Only a published event can be cancelled, only by its organizer, and then it becomes
  cancelled and one \<^verbatim>\<open>event.cancelled\<close> message that names it joins the outbox; a refused
  cancellation changes nothing.
\<close>

theorem CancelEvent_outcome:
  assumes "calm w" "schema_ok (db w)" "find (\<lambda>e. ev_ID e = i) (events (db w)) = Some e"
  shows "if ev_Status e \<noteq> EventStatusPublished then CancelEvent i u w = (Inl ErrEventNotCancellable, w)
    else if ev_OrganizerID e \<noteq> u then CancelEvent i u w = (Inl ErrNotEventOwner, w)
    else \<exists>e' w' m. CancelEvent i u w = (Inr e', w') \<and>
      event_status_of (db w') = (event_status_of (db w))(i \<mapsto> EventStatusCancelled) \<and>
      outbox (db w') = outbox (db w) @ [m] \<and> ob_Topic m = ''event.cancelled'' \<and> \<not> ob_Delivered m \<and>
      map_option ec_EventID (unmarshal_EventCancelled (ob_Payload m)) = Some i"
proof -
  have id: "ev_ID e = i" using find_SomeD [OF assms(3)] by simp
  let ?e = "e\<lparr>ev_Status := EventStatusCancelled, ev_UpdatedAt := clock w (ticks w)\<rparr>"
  have run: "CancelEvent i u w =
      (Inr ?e, w\<lparr>ticks := ticks w + 3,
         db := (db w)\<lparr>events := update_where (\<lambda>row. ev_ID row = i) (write_event ?e (clock w (ticks w + 1))) (events (db w)),
           outbox := outbox (db w) @ [\<lparr>ob_ID = outbox_seq (db w), ob_Topic = ''event.cancelled'', ob_Key = i,
             ob_Payload = marshal_EventCancelled \<lparr>ec_EventID = i, ec_At = clock w (ticks w + 2)\<rparr>,
             ob_TraceContext = (if trace_ctx w \<noteq> '''' then Some (trace_ctx w) else None), ob_Delivered = False\<rparr>],
           outbox_seq := Suc (outbox_seq (db w))\<rparr>\<rparr>)"
    if "ev_Status e = EventStatusPublished" "ev_OrganizerID e = u"
    using assms that id
    by (simp add: CancelEvent_def bindE_def find_event_calm readClock_def repo_UpdateEvent_def mapErr_def run_stmt_def
        stmt_update_event_ok emit_cancelled_def ignoreE_def outbox_Insert_def retE_def eval_nat_numeral Let_def)
  have "CancelEvent i u w = (Inl ErrEventNotCancellable, w)" if "ev_Status e \<noteq> EventStatusPublished"
    using assms(1,3) that by (simp add: CancelEvent_def bindE_def find_event_calm failE_def)
  moreover have "CancelEvent i u w = (Inl ErrNotEventOwner, w)"
    if "ev_Status e = EventStatusPublished" "ev_OrganizerID e \<noteq> u"
    using assms(1,3) that by (simp add: CancelEvent_def bindE_def find_event_calm failE_def)
  ultimately show ?thesis using run update_where_status [OF assms(3), of ?e] id by simp
qed

text \<open>
  The message is not written in the transaction of the status change and its error is
  dropped: when the outbox insert fails, the cancellation reports success and no message exists.
\<close>

theorem CancelEvent_can_lose_message:
  assumes "faults w = [NoFault, NoFault, FaultBefore]" "schema_ok (db w)"
    and "find (\<lambda>e. ev_ID e = i) (events (db w)) = Some e" "ev_Status e = EventStatusPublished" "ev_OrganizerID e = u"
  shows "\<exists>e' w'. CancelEvent i u w = (Inr e', w') \<and>
    event_status_of (db w') i = Some EventStatusCancelled \<and> outbox (db w') = outbox (db w)"
proof -
  have id: "ev_ID e = i" using find_SomeD [OF assms(3)] by simp
  let ?e = "e\<lparr>ev_Status := EventStatusCancelled, ev_UpdatedAt := clock w (ticks w)\<rparr>"
  have "CancelEvent i u w =
      (Inr ?e, w\<lparr>ticks := ticks w + 3, faults := [],
         db := (db w)\<lparr>events := update_where (\<lambda>row. ev_ID row = i) (write_event ?e (clock w (ticks w + 1))) (events (db w))\<rparr>\<rparr>)"
    using assms id
    by (simp add: CancelEvent_def bindE_def find_event_def FindEventByID_def exec_def next_fault_def drop_fault_def
        readClock_def repo_UpdateEvent_def mapErr_def run_stmt_def stmt_update_event_ok emit_cancelled_def ignoreE_def
        outbox_Insert_def retE_def eval_nat_numeral Let_def)
  with update_where_status [OF assms(3), of ?e] id show ?thesis by simp
qed

text \<open>
  An approval that fails after the event row was written cannot be repeated: the event
  is published with no seat on sale, and a second approval is refused.
\<close>

theorem ApproveEvent_partial:
  assumes "faults w = [NoFault, NoFault, FaultBefore]" "schema_ok (db w)"
    and "find (\<lambda>e. ev_ID e = i) (events (db w)) = Some e" "ev_Status e = EventStatusPending"
  shows "\<exists>w'. ApproveEvent i admin w = (Inl (DbErr ConnFailed), w') \<and>
    event_status_of (db w') i = Some EventStatusPublished \<and> ticket_types (db w') = ticket_types (db w) \<and>
    fst (ApproveEvent i admin w') = Inl ErrEventNotApprovable"
proof -
  have id: "ev_ID e = i" using find_SomeD [OF assms(3)] by simp
  let ?t = "clock w (ticks w)"
  let ?e = "e\<lparr>ev_Status := EventStatusPublished, ev_ReviewedBy := Some admin, ev_ReviewedAt := Some ?t, ev_UpdatedAt := ?t\<rparr>"
  let ?d = "(db w)\<lparr>events := update_where (\<lambda>row. ev_ID row = i) (write_event ?e (clock w (ticks w + 1))) (events (db w))\<rparr>"
  let ?w = "w\<lparr>ticks := ticks w + 2, faults := [], db := ?d\<rparr>"
  have run: "ApproveEvent i admin w = (Inl (DbErr ConnFailed), ?w)"
    using assms id
    by (simp add: ApproveEvent_def review_def bindE_def find_event_def FindEventByID_def exec_def next_fault_def
        drop_fault_def readClock_def repo_UpdateEvent_def mapErr_def run_stmt_def stmt_update_event_ok retE_def
        ListTicketTypesByEvent_def eval_nat_numeral Let_def)
  have st: "event_status_of ?d = (event_status_of (db w))(i \<mapsto> EventStatusPublished)"
    using update_where_status [OF assms(3), of ?e] id by simp
  then obtain e1 where e1: "find (\<lambda>x. ev_ID x = i) (events ?d) = Some e1" "ev_Status e1 = EventStatusPublished"
    by (auto simp: event_status_of_def fun_eq_iff split: if_splits)
  have "ApproveEvent i admin ?w = (Inl ErrEventNotApprovable, ?w)"
    using e1 by (simp add: ApproveEvent_def review_def bindE_def find_event_calm failE_def)
  with run st show ?thesis by (intro exI [of _ ?w]) simp
qed

section \<open>What creation stores\<close>

lemma sum_quantities_wrap: "sum_quantities (wrap64 a) types = wrap64 (a + (\<Sum>t \<leftarrow> types. tt_Quantity t))"
proof (induction types arbitrary: a)
  case (Cons t types)
  have "sum_quantities (wrap64 a) (t # types) = sum_quantities (wrap64 (a + tt_Quantity t)) types"
    by (simp add: wrap64_wrap64_add)
  then show ?case by (simp only: Cons.IH) (simp add: add.assoc)
qed simp

lemma CreateTicketTypes_Inr:
  "CreateTicketTypes types w = (Inr u, w') \<Longrightarrow>
   db w' = (db w)\<lparr>ticket_types := ticket_types (db w) @ map (\<lambda>t. t\<lparr>tt_Available := 0\<rparr>) types\<rparr> \<and>
   (\<forall>t \<in> set types. 0 < tt_Quantity t \<and> int4_ok (tt_Quantity t))"
proof (induction types arbitrary: w)
  case (Cons t types)
  obtain v w1 where e: "exec (stmt_insert_ticket t) w = (Inr v, w1)" and r: "CreateTicketTypes types w1 = (Inr u, w')"
    using Cons.prems by (auto simp: run_inv)
  have q: "stmt_insert_ticket t d = Inr (v, d') \<Longrightarrow>
      d' = d\<lparr>ticket_types := ticket_types d @ [t\<lparr>tt_Available := 0\<rparr>]\<rparr> \<and> 0 < tt_Quantity t \<and> int4_ok (tt_Quantity t)" for d d'
    by (auto simp: stmt_insert_ticket_def Let_def ticket_check_def split: if_splits)
  from Cons.IH [OF r] q [OF exec_Inr(1) [OF e]] show ?case by simp
qed (simp add: run_inv)

lemma assign_ids_Inr:
  "assign_ids i types w = (Inr types', w') \<Longrightarrow>
   map (\<lambda>t. (tt_EventID t, tt_Name t, tt_PriceRupiah t, tt_Quantity t, tt_MaxPerOrder t)) types' =
   map (\<lambda>t. (i, tt_Name t, tt_PriceRupiah t, tt_Quantity t, tt_MaxPerOrder t)) types"
  by (induction types arbitrary: w types') (auto simp: run_inv)

lemma quantities_eq:
  "map (\<lambda>t. (tt_EventID t, tt_Name t, tt_PriceRupiah t, tt_Quantity t, tt_MaxPerOrder t)) ts' =
   map (\<lambda>t. (i, tt_Name t, tt_PriceRupiah t, tt_Quantity t, tt_MaxPerOrder t)) ts \<Longrightarrow>
   map tt_Quantity ts' = map tt_Quantity ts"
  by (induction ts' ts rule: list_induct2') auto

lemma sum_int4_bounds:
  fixes xs :: "int list"
  assumes "\<forall>x \<in> set xs. 0 < x \<and> int4_ok x" "length xs < 2 ^ 32"
  shows "int8_ok (sum_list xs)"
proof -
  have le: "0 \<le> sum_list xs \<and> sum_list xs \<le> 2 ^ 31 * int (length xs)"
    using assms(1) by (induction xs) (auto simp: int4_ok_def)
  have "int (length xs) < 2 ^ 32" using assms(2) by (metis of_nat_less_iff of_nat_numeral of_nat_power)
  with le show ?thesis by (auto simp: int8_ok_def)
qed

text \<open>
  An event whose creation succeeds is stored as pending under a new identifier, with
  one row per ticket type and no seat on sale yet, and its ticket types together never exceed the
  capacity of the venue.
\<close>

theorem CreateEvent_success:
  assumes "CreateEvent org t de vn va cap st en types w = (Inr e, w')" "length types < 2 ^ 32"
  shows "event_status_of (db w) (ev_ID e) = None \<and> event_status_of (db w') (ev_ID e) = Some EventStatusPending \<and>
    ev_OrganizerID e = org \<and>
    (\<exists>rows. ticket_types (db w') = ticket_types (db w) @ rows \<and> (\<forall>r \<in> set rows. tt_Available r = 0) \<and>
       map (\<lambda>t. (tt_EventID t, tt_Name t, tt_PriceRupiah t, tt_Quantity t, tt_MaxPerOrder t)) rows =
       map (\<lambda>t. (ev_ID e, tt_Name t, tt_PriceRupiah t, tt_Quantity t, tt_MaxPerOrder t)) types) \<and>
    (\<Sum>t \<leftarrow> types. tt_Quantity t) \<le> cap"
proof -
  define w0 where "w0 = w\<lparr>uuid_ctr := Suc (uuid_ctr w)\<rparr>"
  obtain w1 u types' w2 v where cap: "sum_quantities 0 types \<le> cap"
    and e: "ev_ID e = uuid_src w (uuid_ctr w)" "ev_OrganizerID e = org" "ev_Status e = EventStatusPending"
    and c: "repo_CreateEvent e w0 = (Inr u, w1)" and a: "assign_ids (ev_ID e) types w1 = (Inr types', w2)"
    and k: "CreateTicketTypes types' w2 = (Inr v, w')"
    using assms(1) unfolding CreateEvent_def by (auto simp: run_inv Let_def w0_def split: if_splits)
  obtain now where q: "stmt_insert_event e now (db w) = Inr ((), db w1)"
    using c by (auto simp: repo_CreateEvent_def run_inv w0_def dest!: exec_Inr(1))
  have ins: "stmt_insert_event e now d = Inr ((), d') \<Longrightarrow> ev_ID e \<notin> ev_ID ` set (events d) \<and>
      events d' = events d @ [e\<lparr>ev_ReviewedBy := None, ev_ReviewedAt := None, ev_CreatedAt := now, ev_UpdatedAt := now\<rparr>] \<and>
      ticket_types d' = ticket_types d" for d d'
    by (auto simp: stmt_insert_event_def Let_def split: if_splits)
  note ev = ins [OF q]
  have w2: "db w2 = db w1" by (rule read_onlyD [OF read_only_assign_ids a])
  note tt = CreateTicketTypes_Inr [OF k] and ids = assign_ids_Inr [OF a]
  have none: "find (\<lambda>x. ev_ID x = ev_ID e) (events (db w)) = None"
    unfolding find_None_iff using ev by (metis imageI)
  have qs: "map tt_Quantity types' = map tt_Quantity types" by (rule quantities_eq [OF ids])
  have "int8_ok (\<Sum>t \<leftarrow> types. tt_Quantity t)"
  proof (rule sum_int4_bounds)
    show "\<forall>x \<in> set (map tt_Quantity types). 0 < x \<and> int4_ok x" unfolding qs [symmetric] using tt by auto
  qed (use assms(2) in simp)
  moreover have "wrap64 0 = 0" by (simp add: wrap64_def)
  ultimately have "(\<Sum>t \<leftarrow> types. tt_Quantity t) \<le> cap" using cap sum_quantities_wrap [of 0 types] by simp
  moreover have "ticket_types (db w') = ticket_types (db w) @ map (\<lambda>t. t\<lparr>tt_Available := 0\<rparr>) types'"
    using tt w2 ev by simp
  moreover have "events (db w') = events (db w1)" using tt w2 by simp
  ultimately show ?thesis
    using none e ev ids
    by (auto simp: event_status_of_def find_append comp_def intro!: exI [of _ "map (\<lambda>t. t\<lparr>tt_Available := 0\<rparr>) types'"])
qed

section \<open>Queries\<close>

lemma live_seats_calm:
  "calm w \<Longrightarrow> tickets_ok (db w) \<Longrightarrow> set ts \<subseteq> set (ticket_types (db w)) \<Longrightarrow>
   live_seats i (map (\<lambda>t. t\<lparr>tt_Available := 0\<rparr>) ts) w = (Inr ts, w)"
proof (induction ts)
  case (Cons t ts)
  then have "find (\<lambda>x. tt_ID x = tt_ID t) (ticket_types (db w)) = Some t" using tickets_ok_find by simp
  with Cons show ?case
    by (simp add: bindE_def reader_Available_def select_ticket_def handleE_def run_stmt_def retE_def)
qed (simp add: retE_def)

text \<open>
  The public view of an event shows the ticket types of the event with the number of
  seats that are available at that moment.
\<close>

theorem GetEvent_live:
  assumes "calm w" "schema_ok (db w)" "find (\<lambda>e. ev_ID e = i) (events (db w)) = Some e"
  shows "GetEvent i w = (Inr (e, filter (\<lambda>t. tt_EventID t = i) (ticket_types (db w))), w)"
  using assms live_seats_calm [OF assms(1) schema_ok_tickets [OF assms(2)], of "filter (\<lambda>t. tt_EventID t = i) (ticket_types (db w))" i]
  by (simp add: GetEvent_def bindE_def handleE_def find_event_calm ListTicketTypesByEvent_def mapErr_def run_stmt_def retE_def)

section \<open>Two approvals at the same time\<close>

text \<open>
  The check that an event is pending and the statements that put its seats on sale are not one
  transaction. When an approval passed its check before another approval opened the sale, its
  second half puts every seat on sale again, sold ones included.
\<close>

lemma init_seats_bookings:
  "preserves (\<lambda>d. bookings d = bs \<and> booking_items d = its) (init_seats i types)"
  by (induction types)
    (auto intro!: preserve simp: seat_Init_def seat_SetPrice_def stmt_Init_def stmt_SetPrice_def dest: update_tickets_frame(2) update_tickets_frame(3) split: if_splits)

lemma capacity_init_seats: "preserves (\<lambda>d. capacity d = c) (init_seats i types)"
  by (induction types) (auto intro!: preserve simp: seat_Init_def seat_SetPrice_def stmt_Init_avail(2) stmt_SetPrice_avail(2))

lemma late_approval_oversells:
  assumes "schema_ok (db w)" "t \<in> set (ticket_types (db w))" "tt_EventID t = i" "0 < held (db w) (tt_ID t)"
    and "ListTicketTypesByEvent i w = (Inr types, w1)" "init_seats i types w1 = (Inr u, w')" "schema_ok (db w')"
  shows "\<not> no_oversell (db w')"
proof
  assume no: "no_oversell (db w')"
  have w1: "db w1 = db w" by (rule read_onlyD [OF read_only_event_queries(2) assms(5)])
  have cap: "capacity (db w') (tt_ID t) = Some (tt_Quantity t)"
    using preservesD [OF capacity_init_seats [of "capacity (db w)" i types], of w1] schema_capacity [OF assms(1,2)] w1 assms(6) by simp
  have "avail (db w') (tt_ID t) = Some (tt_Quantity t)"
    using open_sale [OF assms(5,6,1)] assms(2,3) by simp
  then obtain t' where t': "t' \<in> set (ticket_types (db w'))" "tt_ID t' = tt_ID t" "tt_Available t' = tt_Quantity t"
    by (auto simp: avail_def dest: find_SomeD)
  have "tt_Quantity t' = tt_Quantity t" using schema_capacity [OF assms(7) t'(1)] t'(2) cap by simp
  moreover have "held (db w') (tt_ID t) = held (db w) (tt_ID t)"
    using preservesD [OF init_seats_bookings [of "bookings (db w)" "booking_items (db w)" i types], of w1] w1 assms(6)
    by (simp add: held_def active_booking_def)
  ultimately show False using no t' assms(4) by (auto simp: no_oversell_def)
qed

text \<open>
  An edit that read the event while it was pending, and is written after the approval, makes
  the event pending again while its seats stay on sale: bookings of it are then paid and cancelled.
\<close>

lemma stale_edit_unpublishes:
  assumes "calm w" "schema_ok (db w)" "event_status_of (db w) (ev_ID e) = Some EventStatusPublished" "ev_Status e = EventStatusPending"
  shows "\<exists>w'. repo_UpdateEvent e w = (Inr (), w') \<and> event_status_of (db w') (ev_ID e) = Some EventStatusPending \<and>
    (\<forall>t. avail (db w') t = avail (db w) t)"
proof -
  let ?w = "w\<lparr>ticks := Suc (ticks w), db := (db w)\<lparr>events :=
      update_where (\<lambda>row. ev_ID row = ev_ID e) (write_event e (clock w (ticks w))) (events (db w))\<rparr>\<rparr>"
  have "repo_UpdateEvent e w = (Inr (), ?w)"
    using assms by (simp add: repo_UpdateEvent_def bindE_def readClock_def mapErr_def run_stmt_def stmt_update_event_ok)
  moreover obtain e0 where "find (\<lambda>x. ev_ID x = ev_ID e) (events (db w)) = Some e0"
    using assms(3) by (auto simp: event_status_of_def)
  from update_where_status [OF this refl] have "event_status_of (db ?w) (ev_ID e) = Some EventStatusPending"
    using assms(4) by simp
  ultimately show ?thesis by (intro exI [of _ ?w]) (simp add: avail_def)
qed

end
