(* ===== verification/Cancelled_Event.thy ===== *)
theory Cancelled_Event
  imports System Event_Service
begin

text \<open>
  A cancelled event from end to end: the organizer cancels it (\<^verbatim>\<open>application/event\<close>), the outbox worker
  brings \<^verbatim>\<open>event.cancelled\<close> to the broker, the ticketing service cancels the bookings of the event and
  frees their seats, and the payment service requests the refunds.
\<close>

section \<open>The message\<close>

lemma CancelEvent_outbox_wf: "preserves outbox_wf (CancelEvent i u)"
  unfolding CancelEvent_def emit_cancelled_def repo_UpdateEvent_def Let_def
  by (intro preserve read_only_preserves read_only_find_event outbox_wf_insert)
    (auto simp: outbox_wf_def stmt_update_event_def Let_def split: if_splits)

lemma CancelEvent_keeps_clear: "keeps_clear (CancelEvent i u)"
  unfolding CancelEvent_def emit_cancelled_def repo_UpdateEvent_def find_event_def FindEventByID_def Let_def
  by (auto intro!: clearing split: option.split)

section \<open>The bookings of the event\<close>

abbreviation cancelling :: "ticketing_db \<Rightarrow> ticketing_db \<Rightarrow> bool" where
  "cancelling \<equiv> settling {''pending'', ''confirmed''} ''cancelled''"

definition called_off :: "string \<Rightarrow> ticketing_db \<Rightarrow> bool" where
  "called_off ev d \<longleftrightarrow> (\<forall>i st. (i, ev) \<in> set (booked_for d) \<longrightarrow> booking_status d i = Some st \<longrightarrow> \<not> active_status st)"

lemma called_off_settling:
  assumes "called_off ev d" "cancelling d d'"
  shows "called_off ev d'"
proof -
  have "\<not> active_status st" if "booking_status d' j = Some st" "(j, ev) \<in> set (booked_for d)" for j st
  proof (cases "booking_status d' j = booking_status d j")
    case True
    with assms(1) that show ?thesis unfolding called_off_def by metis
  qed (use settling_status [OF assms(2), of j] that in \<open>auto simp: active_status_def\<close>)
  with settling_frame(1) [OF assms(2)] show ?thesis by (auto simp: called_off_def)
qed

lemma CancelBookings_cancelling:
  assumes "calm w" "inventory_ok (db w)" "items_known (db w)" "CancelBookings ev w = (r, w')"
  shows "calm w' \<and> cancelling (db w) (db w') \<and> called_off ev (db w')"
proof -
  note ok = inventory_okD(1) [OF assms(2)]
  let ?hit = "\<lambda>r. br_EventID r = ev \<and> active_status (br_Status r)"
  obtain rs where c: "calm w'" "booking_items (db w') = booking_items (db w)"
      "booking_status (db w') = (\<lambda>i. if \<exists>r \<in> set (bookings (db w)). br_ID r = i \<and> br_EventID r = ev \<and>
         br_Status r \<in> {''pending'', ''confirmed''} then Some ''cancelled'' else booking_status (db w) i)"
      "mset rs = mset (filter ?hit (bookings (db w)))"
      "\<forall>t. avail (db w') t = map_option (\<lambda>a. a + (\<Sum>r \<leftarrow> rs. booked_qty (db w) (br_ID r) t)) (avail (db w) t)"
    using CancelBookings_calm [OF assms(1,2), of ev] assms(3,4) by (auto simp: items_known_def booked_qty_def)
  have ids: "booked_for (db w') = booked_for (db w)"
    using preservesD [OF booked_events.CancelBookings_keeps, of w "booked_for (db w)" ev] assms(4) by simp
  have status: "booking_status (db w') j = (if \<exists>r \<in> set (bookings (db w)). br_ID r = j \<and> ?hit r then Some ''cancelled''
      else booking_status (db w) j)" for j
    unfolding c(3) by (auto simp: active_status_def)
  have row: "booking_status (db w') (br_ID r) = (if ?hit r then Some ''cancelled'' else Some (br_Status r))" if "r \<in> set (bookings (db w))" for r
  proof (cases "?hit r")
    case True
    then show ?thesis using status [of "br_ID r"] that by auto
  next
    case False
    have "r' = r" if "r' \<in> set (bookings (db w))" "br_ID r' = br_ID r" for r'
      using that \<open>r \<in> set (bookings (db w))\<close> ok by (auto simp: schema_ok_def distinct_map dest: inj_onD)
    with False status [of "br_ID r"] booking_status_row [OF ok that] show ?thesis by auto
  qed
  have "(\<Sum>r \<leftarrow> rs. booked_qty (db w) (br_ID r) t) = freed (db w) (db w') t" for t
  proof -
    have "(\<Sum>r \<leftarrow> rs. booked_qty (db w) (br_ID r) t) = (\<Sum>r \<leftarrow> filter ?hit (bookings (db w)). booked_qty (db w) (br_ID r) t)"
      unfolding sum_mset_sum_list [symmetric] mset_map c(4) ..
    also have "\<dots> = (\<Sum>r \<leftarrow> bookings (db w). if ?hit r then booked_qty (db w) (br_ID r) t else 0)" by (simp add: sum_list_map_filter')
    also have "\<dots> = freed (db w) (db w') t"
      unfolding freed_def booked_for_def map_map
      by (intro arg_cong [where f = sum_list] map_cong) (use row booking_status_row [OF ok] in \<open>auto simp: active_status_def\<close>)
    finally show ?thesis .
  qed
  then have "cancelling (db w) (db w')"
    unfolding settling_def using c(2,5) ids status booking_status_row [OF ok] by (auto simp: active_status_def)
  moreover have "called_off ev (db w')"
    unfolding called_off_def ids using row by (auto simp: booked_for_def active_status_def split: if_splits)
  ultimately show ?thesis using c(1) by blast
qed

text \<open>Which event a message on the topic names.\<close>

definition names_event :: "Message \<Rightarrow> string option" where
  "names_event m = map_option ec_EventID (Option.bind (ms_Value m) unmarshal_EventCancelled)"

lemma cancelled_messages:
  assumes "StartConsumers ''event.cancelled'' = Some h" "calm w" "inventory_ok (db w)" "items_known (db w)"
  shows "cancelling (db w) (db (work h ms w)) \<and>
    (Some ev \<in> names_event ` set ms \<longrightarrow> called_off ev (db (work h ms w)))"
  using assms(2-4)
proof (induction ms arbitrary: w)
  case Nil
  then show ?case by (simp add: settling_refl)
next
  case (Cons m ms)
  obtain r w1 where run: "h m w = (r, w1)" by fastforce
  have one: "calm w1 \<and> cancelling (db w) (db w1) \<and>
      (names_event m = Some ev \<longrightarrow> called_off ev (db w1))"
  proof (cases "Option.bind (ms_Value m) unmarshal_EventCancelled")
    case None
    then have "w1 = w" using run assms(1) by (auto simp: failE_def)
    then show ?thesis using Cons.prems(1) None by (simp add: settling_refl names_event_def)
  next
    case (Some e)
    then have "CancelBookings (ec_EventID e) w = (r, w1)" using run assms(1) by auto
    from CancelBookings_cancelling [OF Cons.prems this] Some show ?thesis by (auto simp: names_event_def)
  qed
  have inv: "inventory_ok (db w1)"
    using preservesD [OF StartConsumers_keeps [OF assms(1)] Cons.prems(2), of m] run by simp
  have known: "items_known (db w1)" using one settling_frame(3) Cons.prems(3) by blast
  have rest: "cancelling (db w1) (db (work h ms w1))"
      "Some ev \<in> names_event ` set ms \<longrightarrow> called_off ev (db (work h ms w1))"
    using Cons.IH [of w1] one inv known by auto
  have "cancelling (db w) (db (work h ms w1))"
    using settling_trans [OF _ rest(1)] one by simp
  moreover have "names_event m = Some ev \<Longrightarrow> called_off ev (db (work h ms w1))"
    using one called_off_settling [OF _ rest(1)] by blast
  ultimately show ?case using one run rest(2) by auto
qed

section \<open>The payments of the event\<close>

lemma cancelled_refunds:
  assumes "payment_StartConsumer ''event.cancelled'' = Some h" "calm w" "pay_schema (db w)" "fresh_refunds w"
    and "\<forall>t \<in> set (transactions (db w)). int8_ok (tx_AmountRupiah t)"
  shows "core_rows (db (work h ms w)) = core_rows (db w) \<and> refund_keys (db w) \<subseteq> refund_keys (db (work h ms w)) \<and>
    (\<forall>t \<in> set (transactions (db w)). tx_Status t = StatusCompleted \<and> Some (tx_EventID t) \<in> names_event ` set ms \<longrightarrow>
       cancel_key t \<in> refund_keys (db (work h ms w)))"
  using assms(2-5)
proof (induction ms arbitrary: w)
  case (Cons m ms)
  obtain r w1 where run: "h m w = (r, w1)" by fastforce
  have one: "calm w1 \<and> pay_schema (db w1) \<and> fresh_refunds w1 \<and> core_rows (db w1) = core_rows (db w) \<and>
      refund_keys (db w) \<subseteq> refund_keys (db w1) \<and>
      (\<forall>t \<in> set (transactions (db w)). tx_Status t = StatusCompleted \<and> names_event m = Some (tx_EventID t) \<longrightarrow> cancel_key t \<in> refund_keys (db w1))"
  proof (cases "Option.bind (ms_Value m) unmarshal_EventCancelled")
    case None
    then have "w1 = w" using run assms(1) by (auto simp: payment_StartConsumer_def on_event_cancelled_def failE_def)
    then show ?thesis using Cons.prems None by (simp add: names_event_def)
  next
    case (Some e)
    then have "HandleEventCancelled (ec_EventID e) w = (r, w1)"
      using run assms(1) by (auto simp: payment_StartConsumer_def on_event_cancelled_def)
    with HandleEventCancelled_calm [OF Cons.prems, of "ec_EventID e"] obtain rs where c: "calm w1" "pay_schema (db w1)" "fresh_refunds w1"
      "core_rows (db w1) = core_rows (db w)" "refund_requests (db w1) = refund_requests (db w) @ rs"
      "rf_IdempotencyKey ` set rs =
        cancel_key ` {t \<in> set (transactions (db w)). tx_EventID t = ec_EventID e \<and> tx_Status t = StatusCompleted} - refund_keys (db w)"
      by auto
    have "refund_keys (db w1) = refund_keys (db w) \<union> rf_IdempotencyKey ` set rs" using c(5) by (auto simp: refund_keys_def)
    with c Some show ?thesis by (auto simp: names_event_def)
  qed
  have "\<forall>t \<in> set (transactions (db w1)). int8_ok (tx_AmountRupiah t)"
    using one Cons.prems(4) core_rows_row [of "db w1" "db w"] by metis
  with Cons.IH [of w1] one have rest: "core_rows (db (work h ms w1)) = core_rows (db w1)" "refund_keys (db w1) \<subseteq> refund_keys (db (work h ms w1))"
      "\<forall>t \<in> set (transactions (db w1)). tx_Status t = StatusCompleted \<and> Some (tx_EventID t) \<in> names_event ` set ms \<longrightarrow>
         cancel_key t \<in> refund_keys (db (work h ms w1))" by auto
  have "cancel_key t \<in> refund_keys (db (work h ms w1))"
    if t: "t \<in> set (transactions (db w))" "tx_Status t = StatusCompleted" "Some (tx_EventID t) \<in> names_event ` set (m # ms)" for t
  proof (cases "names_event m = Some (tx_EventID t)")
    case True
    with one t rest(2) show ?thesis by blast
  next
    case False
    obtain t1 where "t1 \<in> set (transactions (db w1))" "tx_ID t1 = tx_ID t" "tx_EventID t1 = tx_EventID t" "tx_Status t1 = tx_Status t"
      using core_rows_row [of "db w" "db w1" t] one t(1) by metis
    with False t rest(3) show ?thesis by (auto simp: cancel_key_def)
  qed
  with one rest(1,2) run show ?case by auto
qed simp

lemma payment_consumer_inv:
  assumes "payment_StartConsumer topic = Some h"
  shows "preserves pay_inv (h m)"
proof -
  have "inv_read [] = pay_inv" by (simp add: inv_read_def fun_eq_iff)
  then show ?thesis
    using assms on_event_cancelled_inv [of "[]" "ms_Value m"] by (auto simp: payment_StartConsumer_def split: if_splits)
qed

section \<open>From the organizer to the customers\<close>

text \<open>The message of the cancellation is among the messages the broker hands over.\<close>

lemma cancellation_announced:
  assumes "calm tw" "schema_ok (db tw)" "outbox_wf (db tw)" "delivered_logged log (db tw)"
    and "find (\<lambda>e. ev_ID e = i) (events (db tw)) = Some e" "ev_Status e = EventStatusPublished" "CancelEvent i (ev_OrganizerID e) tw = (r, tw1)"
    and "\<And>b. set (sched b) = set b" "length (undelivered (db tw1)) \<le> 100 * n"
    and "worker_Run n sched (\<lambda>_. Written) (log, tw1) = (log', tw2)"
  shows "event_status_of (db tw1) i = Some EventStatusCancelled \<and>
    (\<exists>km \<in> set log'. km_Topic km = ''event.cancelled'' \<and> map_option ec_EventID (unmarshal_EventCancelled (km_Value km)) = Some i)"
proof -
  obtain row where c: "event_status_of (db tw1) = (event_status_of (db tw))(i \<mapsto> EventStatusCancelled)"
      "outbox (db tw1) = outbox (db tw) @ [row]" "ob_Topic row = ''event.cancelled''" "\<not> ob_Delivered row"
      "map_option ec_EventID (unmarshal_EventCancelled (ob_Payload row)) = Some i"
    using CancelEvent_outcome [OF assms(1,2,5), of "ev_OrganizerID e"] assms(6,7) by auto
  have "outbox_wf (db tw1)" using preservesD [OF CancelEvent_outbox_wf assms(3), of i "ev_OrganizerID e"] assms(7) by simp
  moreover have "delivered_logged log (db tw1)" using assms(4) c(2,4) by (auto simp: delivered_logged_def)
  moreover have "calm tw1" by (rule keeps_calm [OF CancelEvent_keeps_clear assms(1,7)])
  ultimately have "msg_of row \<in> set log'" using worker_delivers [OF _ _ _ _ assms(8,9,10), of row] c(2) by simp
  with c show ?thesis by (intro conjI bexI [of _ "msg_of row"]) (simp_all add: msg_of_def)
qed

text \<open>
  Property C10: a cancelled event is settled for everybody. When its organizer cancels a published event, the
  event is cancelled; after enough ticks of the outbox worker the message is at the broker; and
  whatever else is on the topic, repeated, malformed or for other events, once both consumers have
  handled what the broker hands over, every pending or confirmed booking of the event is cancelled
  and the seats of all of them are available again, nothing is oversold, and every completed payment of
  the event has a refund request of exactly its amount. Databases and broker are healthy here.
\<close>

theorem cancelled_event_settled:
  assumes "calm tw" "schema_ok (db tw)" "outbox_wf (db tw)" "delivered_logged log (db tw)"
    and "find (\<lambda>e. ev_ID e = i) (events (db tw)) = Some e" "ev_Status e = EventStatusPublished" "CancelEvent i (ev_OrganizerID e) tw = (r, tw1)"
    and "\<And>b. set (sched b) = set b" "length (undelivered (db tw1)) \<le> 100 * n"
    and "worker_Run n sched (\<lambda>_. Written) (log, tw1) = (log', tw2)"
    and "\<forall>km \<in> set log'. km_Topic km = ''event.cancelled'' \<longrightarrow> (\<exists>m \<in> set ms. ms_Value m = Some (km_Value km))"
    and "\<And>b. set (pick b) = set b"
    and "StartConsumers ''event.cancelled'' = Some h" "Consume pick h (map Got ms) w = (fin, w')"
    and "calm w" "inventory_ok (db w)" "items_known (db w)"
    and "payment_StartConsumer ''event.cancelled'' = Some h'" "Consume pick h' (map Got ms) pw = (fin', pw')"
    and "calm pw" "pay_inv (db pw)" "fresh_refunds pw" "\<forall>t \<in> set (transactions (db pw)). int8_ok (tx_AmountRupiah t)"
  shows "event_status_of (db tw1) i = Some EventStatusCancelled \<and>
    (\<forall>b \<in> set (bookings (db w)). br_EventID b = i \<and> br_Status b \<in> {''pending'', ''confirmed''} \<longrightarrow>
       booking_status (db w') (br_ID b) = Some ''cancelled'') \<and>
    (\<forall>tt a. avail (db w) tt = Some a \<longrightarrow> (\<exists>a'. avail (db w') tt = Some a' \<and>
       a + (\<Sum>b \<leftarrow> filter (\<lambda>b. br_EventID b = i \<and> br_Status b \<in> {''pending'', ''confirmed''}) (bookings (db w)). booked_qty (db w) (br_ID b) tt) \<le> a')) \<and>
    inventory_ok (db w') \<and>
    (\<forall>t \<in> set (transactions (db pw)). tx_EventID t = i \<and> tx_Status t = StatusCompleted \<longrightarrow>
       (\<exists>rf \<in> set (refund_requests (db pw')). rf_TransactionID rf = tx_ID t \<and> rf_AmountRupiah rf = tx_AmountRupiah t))"
proof -
  note sent = cancellation_announced [OF assms(1-10)]
  have named: "Some i \<in> names_event ` set (pick ms)"
    using sent assms(11,12) by (force simp: names_event_def image_iff)
  have w': "w' = work h (pick ms) w" and pw': "pw' = work h' (pick ms) pw"
    using assms(14,19) by (auto simp: Consume_def read_loop_Got)
  have c: "cancelling (db w) (db w')" "called_off i (db w')"
    using cancelled_messages [OF assms(13,15,16,17), of "pick ms" i] named w' by auto
  note ok = inventory_okD(1) [OF assms(16)]
  let ?hit = "\<lambda>b. br_EventID b = i \<and> br_Status b \<in> {''pending'', ''confirmed''}"
  have new: "booking_status (db w') (br_ID b) = Some ''cancelled''" if b: "b \<in> set (bookings (db w))" "?hit b" for b
  proof -
    have "(br_ID b, i) \<in> set (booked_for (db w'))" using b settling_frame(1) [OF c(1)] by (auto simp: booked_for_def)
    with c(2) b(2) have "booking_status (db w') (br_ID b) \<noteq> Some (br_Status b)" unfolding called_off_def active_status_def by blast
    with settling_status [OF c(1), of "br_ID b"] booking_status_row [OF ok b(1)] show ?thesis by auto
  qed
  moreover have "\<exists>a'. avail (db w') tt = Some a' \<and> a + (\<Sum>b \<leftarrow> filter ?hit (bookings (db w)). booked_qty (db w) (br_ID b) tt) \<le> a'"
    if "avail (db w) tt = Some a" for tt a
  proof -
    have "(\<Sum>b \<leftarrow> filter ?hit (bookings (db w)). booked_qty (db w) (br_ID b) tt) \<le> freed (db w) (db w') tt"
      by (rule freed_ge [OF ok]) (use new booking_status_row [OF ok] in auto)
    then show ?thesis using settling_avail [OF c(1) that] by simp
  qed
  moreover have "inventory_ok (db w')"
    unfolding w' by (rule work_preserves [OF StartConsumers_keeps [OF assms(13)] assms(16)])
  moreover have "\<exists>rf \<in> set (refund_requests (db pw')). rf_TransactionID rf = tx_ID t \<and> rf_AmountRupiah rf = tx_AmountRupiah t"
    if t: "t \<in> set (transactions (db pw))" "tx_EventID t = i" "tx_Status t = StatusCompleted" for t
  proof -
    have "pay_schema (db pw)" using assms(21) by (simp add: pay_inv_def)
    from cancelled_refunds [OF assms(18,20) this assms(22,23), of "pick ms"] t named
    have c: "core_rows (db pw') = core_rows (db pw)" "cancel_key t \<in> refund_keys (db pw')" unfolding pw' by auto
    have "pay_inv (db pw')" unfolding pw' by (rule work_preserves [OF payment_consumer_inv [OF assms(18)] assms(21)])
    then show ?thesis by (rule cancelled_refund_amount [OF assms(21) _ c(1) t(1) c(2)])
  qed
  ultimately show ?thesis using sent by blast
qed

end
