(* ===== verification/Paid_Booking.thy ===== *)
theory Paid_Booking
  imports System
begin

text \<open>
  The way of a completed payment to the tickets: the consumer of \<^verbatim>\<open>payment.completed\<close> touches
  the booking a message names and no other, and confirms it once, so that whatever else is on the
  topic the customer gets one ticket per item.
\<close>

section \<open>Messages for other bookings\<close>

definition ticket_for :: "string \<Rightarrow> json \<Rightarrow> bool" where
  "ticket_for i p = (case dec_top p of None \<Rightarrow> False | Some kvs \<Rightarrow> dec_str ''booking_id'' kvs = Some i)"

text \<open>The tickets of a booking that were put in the outbox, in their order.\<close>

definition tickets_of :: "string \<Rightarrow> 'z outbox_db_scheme \<Rightarrow> json list" where
  "tickets_of i d = filter (ticket_for i) (map ob_Payload (filter (\<lambda>m. ob_Topic m = ''ticket.issued'') (outbox d)))"

lemma ticket_for_marshal [simp]: "ticket_for i (marshal_TicketIssued m) \<longleftrightarrow> ti_BookingID m = i"
  by (simp add: ticket_for_def json_defs)

text \<open>All that the consumer reads and writes for the booking \<open>i\<close>.\<close>

definition part_of ::
    "string \<Rightarrow> ticketing_db \<Rightarrow> booking_row option \<times> booking_item_row list \<times> Event list \<times> json list" where
  "part_of i d =
     (find (\<lambda>x. br_ID x = i) (bookings d), filter (\<lambda>it. ir_BookingID it = i) (booking_items d), events d, tickets_of i d)"

lemma stmt_transition_part:
  assumes "stmt_transition j st st' d = Inr (n, d')" "j \<noteq> i"
  shows "part_of i d' = part_of i d"
proof -
  note f = stmt_transition_frame [OF assms(1)]
  have "find (\<lambda>x. br_ID x = i) (bookings d') = find (\<lambda>x. br_ID x = i) (bookings d)"
    unfolding f(6) by (subst find_update_where) (use assms(2) in \<open>auto simp: map_option_case dest!: find_SomeD split: option.split\<close>)
  then show ?thesis using f by (simp add: part_of_def tickets_of_def)
qed

lemma stmt_Release_part: "stmt_Release t q d = Inr (n, d') \<Longrightarrow> part_of i d' = part_of i d"
  by (drule stmt_Release_shifted) (simp_all add: part_of_def tickets_of_def shifted_def)

lemma release_items_part: "preserves (\<lambda>d. part_of i d = v) (release_items items)"
  by (induction items) (auto intro!: preserve simp: stmt_Release_part)

lemma release_part: "bk_ID b \<noteq> i \<Longrightarrow> preserves (\<lambda>d. part_of i d = v) (booking_TransitionAndReleaseSeats b st)"
  unfolding booking_TransitionAndReleaseSeats_def
proof (rule preserves_withTx)
  assume b: "bk_ID b \<noteq> i"
  have body: "preserves (\<lambda>d. part_of i d = v) (release_body b st)"
    using b by (auto intro!: preserve release_items_part simp: stmt_transition_part)
  fix w a w' assume "part_of i (db w) = v" "release_body b st w = (Inr (a, True), w')"
  with preservesD [OF body, of w] show "part_of i (db w') = v" by simp
qed

lemma issue_tickets_part: "j \<noteq> i \<Longrightarrow> preserves (\<lambda>d. part_of i d = v) (issue_tickets j b items)"
proof (induction items)
  case (Cons it items)
  have "preserves (\<lambda>d. part_of i d = v) (outbox_Insert ''ticket.issued'' key (marshal_TicketIssued m))"
    if "ti_BookingID m \<noteq> i" for key m
    unfolding outbox_Insert_def preserves_def using that
    by (auto simp: exec_def run_stmt_def part_of_def tickets_of_def split: fault.splits)
  with Cons show ?case by (simp add: preserves_ignoreE)
qed (auto intro: preserve)

lemma Confirm_other:
  assumes "j \<noteq> i"
  shows "preserves (\<lambda>d. part_of i d = v) (Confirm j p)"
  unfolding Confirm_def hoare_preserves [symmetric]
proof (rule hoare_bindE [OF loadPendingBooking_triple])
  fix bo
  let ?k = "\<lambda>b. bindE (IsPublished (bk_EventID b)) (\<lambda>published.
         if \<not> published then bindE (booking_TransitionAndReleaseSeats b ''cancelled'') (\<lambda>applied. retE ())
         else bindE (booking_UpdateStatusIfPending j ''confirmed'') (\<lambda>applied.
              if \<not> applied then retE () else issue_tickets j b (bk_Items b)))"
  have k: "hoare (\<lambda>d. part_of i d = v) (?k b) (\<lambda>_ d. part_of i d = v) (\<lambda>d. part_of i d = v)" if "bk_ID b = j" for b
    unfolding hoare_preserves using that assms
    by (auto intro!: preserve release_part issue_tickets_part read_only_preserves [OF read_only_event_queries(3)]
        simp: booking_UpdateStatusIfPending_def stmt_transition_part)
  show "hoare (\<lambda>d. part_of i d = v \<and> (\<forall>b. bo = Some b \<longrightarrow> snapshot d b \<and> bk_ID b = j \<and> bk_Status b = ''pending''))
      (case bo of None \<Rightarrow> retE () | Some b \<Rightarrow> ?k b) (\<lambda>_ d. part_of i d = v) (\<lambda>d. part_of i d = v)"
  proof (cases bo)
    case (Some b)
    show ?thesis
    proof (cases "bk_ID b = j")
      case True
      with k [of b] Some show ?thesis by (auto elim: hoare_pre)
    qed (use Some in \<open>auto simp: hoare_def\<close>)
  qed (auto intro: hoare_retE)
qed

section \<open>The message of the booking\<close>

lemma Confirm_keeps_clear: "keeps_clear (Confirm j p)"
proof -
  have "keeps_clear (release_items items)" for items by (induction items) (auto intro!: clearing)
  moreover have "keeps_clear (issue_tickets i b items)" for i b items by (induction items) (auto intro!: clearing)
  ultimately show ?thesis
    unfolding Confirm_def loadPendingBooking_def booking_FindByID_def loadItems_def IsPublished_def
      booking_TransitionAndReleaseSeats_def booking_UpdateStatusIfPending_def
    by (auto intro!: clearing split: option.split)
qed

text \<open>The ticket of one item, for the booking \<open>r\<close>.\<close>

definition ticket :: "booking_row \<Rightarrow> booking_item_row \<Rightarrow> json" where
  "ticket r it = marshal_TicketIssued
     \<lparr>ti_TicketID = ir_ID it, ti_BookingID = br_ID r, ti_UserID = br_UserID r, ti_EventID = br_EventID r,
      ti_TicketTypeID = ir_TicketTypeID it\<rparr>"

lemma tickets_of_view:
  "tickets_of i d = map (\<lambda>(tp, k, p, dl). p) (filter (\<lambda>(tp, k, p, dl). tp = ''ticket.issued'' \<and> ticket_for i p)
     (map (\<lambda>m. (ob_Topic m, ob_Key m, ob_Payload m, ob_Delivered m)) (outbox d)))"
  unfolding tickets_of_def by (induction "outbox d" arbitrary: d) (simp_all add: filter_map comp_def)

lemma Confirm_own:
  assumes "calm w" "schema_ok (db w)" "find (\<lambda>x. br_ID x = i) (bookings (db w)) = Some r" "br_Status r = ''pending''"
    and "find (\<lambda>e. ev_ID e = br_EventID r) (events (db w)) = Some e" "ev_Status e = ''published''"
  shows "booking_status (db (snd (Confirm i p w))) i = Some ''confirmed'' \<and>
    tickets_of i (db (snd (Confirm i p w))) =
      tickets_of i (db w) @ map (ticket r) (filter (\<lambda>it. ir_BookingID it = i) (booking_items (db w)))"
proof -
  let ?v = "\<lambda>m. (ob_Topic m, ob_Key m, ob_Payload m, ob_Delivered m)"
    and ?its = "filter (\<lambda>it. ir_BookingID it = i) (booking_items (db w))"
  have r: "br_ID r = i" using find_SomeD [OF assms(3)] by simp
  from Confirm_issues [OF assms, of p] obtain w' where w': "Confirm i p w = (Inr (), w')"
      "booking_status (db w') = (booking_status (db w))(i \<mapsto> ''confirmed'')"
      "map ?v (outbox (db w')) = map ?v (outbox (db w)) @ map (\<lambda>it. (''ticket.issued'', i @ ''-'' @ ir_ID it, ticket r it, False)) ?its"
    unfolding ticket_def r by blast
  have own: "ticket_for i (ticket r it)" for it by (simp add: ticket_def r)
  have "tickets_of i (db w') = tickets_of i (db w) @ map (ticket r) ?its"
    unfolding tickets_of_view w'(3) by (simp add: filter_map comp_def own)
  with w' show ?thesis by simp
qed

abbreviation paid_for :: "Message \<Rightarrow> string option" where
  "paid_for m \<equiv> map_option pc_BookingID (Option.bind (ms_Value m) unmarshal_PaymentCompleted)"

lemma completed_run:
  assumes "StartConsumers ''payment.completed'' = Some h"
  shows "db (snd (h m w)) = db w \<or> (\<exists>j p. paid_for m = Some j \<and> h m w = Confirm j p w)"
    and "paid_for m = Some i \<Longrightarrow> \<exists>p. h m w = Confirm i p w"
    and "keeps_clear (h m)"
proof -
  let ?dec = "Option.bind (ms_Value m) unmarshal_PaymentCompleted"
  have h: "h m = (case ?dec of None \<Rightarrow> failE ErrDecode | Some e \<Rightarrow> Confirm (pc_BookingID e) (pc_TransactionID e))"
    using assms by auto
  show "db (snd (h m w)) = db w \<or> (\<exists>j p. paid_for m = Some j \<and> h m w = Confirm j p w)"
    unfolding h by (cases ?dec) (auto simp: failE_def)
  show "\<exists>p. h m w = Confirm i p w" if "paid_for m = Some i" using that unfolding h by auto
  show "keeps_clear (h m)" unfolding h by (auto intro: clearing Confirm_keeps_clear split: option.split)
qed

lemma part_of_status: "part_of i d' = part_of i d \<Longrightarrow> booking_status d' i = booking_status d i \<and> tickets_of i d' = tickets_of i d"
  by (simp add: part_of_def booking_status_def)

lemma settled_messages:
  assumes "StartConsumers ''payment.completed'' = Some h" "booking_status (db w) i \<noteq> Some ''pending''"
  shows "booking_status (db (work h ms w)) i = booking_status (db w) i \<and> tickets_of i (db (work h ms w)) = tickets_of i (db w)"
  using assms(2)
proof (induction ms arbitrary: w)
  case (Cons m ms)
  have "booking_status (db (snd (h m w))) i = booking_status (db w) i \<and> tickets_of i (db (snd (h m w))) = tickets_of i (db w)"
    using completed_run(1) [OF assms(1), of m w]
  proof (elim disjE exE conjE)
    fix j p assume "h m w = Confirm j p w"
    then show ?thesis
      using settled_untouched [OF Cons.prems, of p] preservesD [OF Confirm_other [of j i "part_of i (db w)" p], of w]
      by (cases "j = i") (auto dest: part_of_status)
  qed simp
  with Cons.IH [of "snd (h m w)"] Cons.prems show ?case by simp
qed simp

lemma completed_messages:
  assumes "StartConsumers ''payment.completed'' = Some h" "calm w" "inventory_ok (db w)"
    and "find (\<lambda>x. br_ID x = i) (bookings (db w)) = Some r" "br_Status r = ''pending''"
    and "find (\<lambda>e. ev_ID e = br_EventID r) (events (db w)) = Some e" "ev_Status e = ''published''"
    and "\<exists>m \<in> set ms. paid_for m = Some i"
  shows "booking_status (db (work h ms w)) i = Some ''confirmed'' \<and>
    tickets_of i (db (work h ms w)) =
      tickets_of i (db w) @ map (ticket r) (filter (\<lambda>it. ir_BookingID it = i) (booking_items (db w)))"
  using assms(2-4,6,8)
proof (induction ms arbitrary: w)
  case (Cons m ms)
  have step: "inventory_ok (db (snd (h m w)))" "calm (snd (h m w))"
    using preservesD [OF StartConsumers_keeps [OF assms(1)] Cons.prems(2)]
      keeps_calm [OF completed_run(3) [OF assms(1)] Cons.prems(1) surjective_pairing] by auto
  show ?case
  proof (cases "paid_for m = Some i")
    case True
    then obtain p where "h m w = Confirm i p w" using completed_run(2) [OF assms(1)] by blast
    with Confirm_own [OF Cons.prems(1) inventory_okD(1) [OF Cons.prems(2)] Cons.prems(3) assms(5) Cons.prems(4) assms(7), of p]
    show ?thesis using settled_messages [OF assms(1), of "snd (h m w)" i ms] by simp
  next
    case False
    then have part: "part_of i (db (snd (h m w))) = part_of i (db w)"
      using completed_run(1) [OF assms(1), of m w] preservesD [OF Confirm_other [of _ i "part_of i (db w)"], of _ w]
      by (metis option.inject)
    with Cons.IH [OF step(2,1)] Cons.prems(3-5) False show ?thesis
      by (auto simp: part_of_def)
  qed
qed simp

section \<open>From the provider to the tickets\<close>

text \<open>
  Property C9: a completed payment becomes tickets, exactly one per item. When the provider reports that
  the session of an active transaction was paid, the transaction is completed; after enough ticks
  of the outbox worker the message is at the broker; and whatever else is on the topic, repeated,
  malformed or for other bookings, in whatever order the workers take it, once the consumer of the
  ticketing service has handled what the broker hands over, the pending booking of a published
  event is confirmed, one ticket per item was put in the outbox, and nothing is oversold.
  Databases and broker are healthy here.
\<close>

theorem completed_payment_issues_tickets:
  assumes "calm pw" "pay_schema (db pw)" "outbox_wf (db pw)" "delivered_logged log (db pw)"
    and "t \<in> set (transactions (db pw))" "tx_Status t \<in> set ActiveStatuses" "tx_BookingID t \<noteq> ''''"
    and "Option.bind payload unmarshal_webhook = Some ev" "wh_Event ev = ''payment_session.completed''"
    and "wh_ReferenceID ev = tx_BookingID t" "sessionID ev = '''' \<or> sessionID ev = tx_ProviderRef t"
    and "HandleSessionWebhook payload pw = (r, pw1)"
    and "\<And>b. set (sched b) = set b" "length (undelivered (db pw1)) \<le> 100 * n"
    and "worker_Run n sched (\<lambda>_. Written) (log, pw1) = (log', pw2)"
    and "\<forall>km \<in> set log'. km_Topic km = ''payment.completed'' \<longrightarrow> (\<exists>m \<in> set ms. ms_Value m = Some (km_Value km))"
    and "set (pick ms) = set ms" "StartConsumers ''payment.completed'' = Some h" "Consume pick h (map Got ms) w = (fin, w')"
    and "calm w" "inventory_ok (db w)"
    and "find (\<lambda>x. br_ID x = tx_BookingID t) (bookings (db w)) = Some row" "br_Status row = ''pending''"
    and "find (\<lambda>e. ev_ID e = br_EventID row) (events (db w)) = Some e" "ev_Status e = ''published''"
  shows "txn_status (db pw1) (tx_ID t) = Some StatusCompleted \<and>
    booking_status (db w') (tx_BookingID t) = Some ''confirmed'' \<and>
    tickets_of (tx_BookingID t) (db w') = tickets_of (tx_BookingID t) (db w) @
      map (ticket row) (filter (\<lambda>it. ir_BookingID it = tx_BookingID t) (booking_items (db w))) \<and>
    inventory_ok (db w')"
proof -
  let ?i = "tx_BookingID t"
  obtain m0 where pay: "txn_status (db pw1) (tx_ID t) = Some StatusCompleted"
      "outbox (db pw1) = outbox (db pw) @ [m0]" "ob_Topic m0 = ''payment.completed''" "\<not> ob_Delivered m0"
      "map_option pc_BookingID (unmarshal_PaymentCompleted (ob_Payload m0)) = Some ?i"
    using webhook_completed_run [OF assms(1,2,5,8,9,10,7,11)] assms(6,12) by auto
  obtain m where m: "m \<in> set ms" "ms_Value m = Some (ob_Payload m0)"
    using webhook_announced [OF assms(1,3,4,12) pay(2,4) assms(13-15), of ms] assms(16) pay(3) by auto
  have w': "w' = work h (pick ms) w" using assms(19) by (auto simp: Consume_def read_loop_Got)
  have "\<exists>m \<in> set (pick ms). paid_for m = Some ?i"
    by (rule bexI [of _ m]) (use m pay(5) assms(17) in \<open>simp_all del: map_option_eq_Some\<close>)
  from completed_messages [OF assms(18,20-25) this] pay(1)
    work_preserves [OF StartConsumers_keeps [OF assms(18)] assms(21)] w'
  show ?thesis by auto
qed

end
