(* ===== verification/Thread_Pool.thy ===== *)
theory Thread_Pool
  imports Go_Prelude
begin

text \<open>
  Requests and messages that are served at the same time: a pool of threads over one database,
  where at every moment one of them does its next atomic step (a statement or a transaction), or a
  new one begins. The locale \<open>interference_free\<close> is what a step relation owes for an invariant of
  the pool: its own step, the assertions of the other threads, and the resources a thread carries
  while it is under way.
\<close>

section \<open>Interleavings\<close>

inductive pool_step ::
    "('t \<Rightarrow> 'd \<Rightarrow> 't \<Rightarrow> 'd \<Rightarrow> bool) \<Rightarrow> ('t \<Rightarrow> bool) \<Rightarrow> 't list \<times> 'd \<Rightarrow> 't list \<times> 'd \<Rightarrow> bool"
  for step :: "'t \<Rightarrow> 'd \<Rightarrow> 't \<Rightarrow> 'd \<Rightarrow> bool" and begins :: "'t \<Rightarrow> bool" where
  begin_thread: "begins t \<Longrightarrow> pool_step step begins (ts, d) (ts @ [t], d)"
| run_thread: "k < length ts \<Longrightarrow> step (ts ! k) d t d' \<Longrightarrow> pool_step step begins (ts, d) (ts[k := t], d')"

abbreviation pool_runs ::
    "('t \<Rightarrow> 'd \<Rightarrow> 't \<Rightarrow> 'd \<Rightarrow> bool) \<Rightarrow> ('t \<Rightarrow> bool) \<Rightarrow> 't list \<times> 'd \<Rightarrow> 't list \<times> 'd \<Rightarrow> bool" where
  "pool_runs step begins \<equiv> (pool_step step begins)\<^sup>*\<^sup>*"

text \<open>A run of an operation on the shared database, whatever statements fail before or after they took effect.\<close>

definition some_run :: "('e, 'd, 'a) op \<Rightarrow> 'd \<Rightarrow> 'e + 'a \<Rightarrow> 'd \<Rightarrow> bool" where
  "some_run f d r d' \<longleftrightarrow> (\<exists>w w'. db w = d \<and> f w = (r, w') \<and> db w' = d')"

lemma some_runI: "f w = (r, w') \<Longrightarrow> some_run f (db w) r (db w')"
  by (auto simp: some_run_def)

lemma some_run_preserves: "some_run f d r d' \<Longrightarrow> preserves I f \<Longrightarrow> I d \<Longrightarrow> I d'"
  unfolding some_run_def preserves_def by (metis snd_conv)

lemma some_run_reads: "some_run f d r d' \<Longrightarrow> read_only f \<Longrightarrow> d' = d"
  unfolding some_run_def using read_onlyD by blast

lemma some_run_hoare: "some_run f d (Inr a) d' \<Longrightarrow> hoare P f Q E \<Longrightarrow> P d \<Longrightarrow> Q a d'"
  unfolding some_run_def hoare_def by fastforce

lemma some_run_same: "some_run f d r d' \<Longrightarrow> hoare P f (\<lambda>_. Q) Q \<Longrightarrow> P d \<Longrightarrow> Q d'"
  unfolding some_run_def using hoare_same [of P f Q] by blast

text \<open>The steps of one thread with the database to itself.\<close>

abbreviation alone :: "('t \<Rightarrow> 'd \<Rightarrow> 't \<Rightarrow> 'd \<Rightarrow> bool) \<Rightarrow> 't \<times> 'd \<Rightarrow> 't \<times> 'd \<Rightarrow> bool" where
  "alone step \<equiv> (\<lambda>(t, d) (t', d'). step t d t' d')\<^sup>*\<^sup>*"

lemma alone_step: "step t d t1 d1 \<Longrightarrow> alone step (t1, d1) (t2, d2) \<Longrightarrow> alone step (t, d) (t2, d2)"
  by (rule converse_rtranclp_into_rtranclp) auto

lemma alone_trans: "alone step (t, d) (t1, d1) \<Longrightarrow> alone step (t1, d1) (t2, d2) \<Longrightarrow> alone step (t, d) (t2, d2)"
  by (rule rtranclp_trans)

text \<open>A thread that runs alone is an interleaving in which the others wait.\<close>

lemma alone_in_pool:
  assumes "alone step (t, d) (t', d')" "k < length ts"
  shows "pool_runs step begins (ts[k := t], d) (ts[k := t'], d')"
  using assms(1)
proof (induction "(t', d')" arbitrary: t' d' rule: rtranclp_induct)
  case (step y)
  obtain t1 d1 where y: "y = (t1, d1)" by (cases y)
  have "pool_step step begins (ts[k := t1], d1) (ts[k := t1, k := t'], d')"
    by (rule run_thread) (use step.hyps(2) assms(2) y in auto)
  with step.hyps(3) [OF y] show ?case by (simp add: rtranclp.rtrancl_into_rtrancl)
qed simp

lemma alone_begins: "begins t \<Longrightarrow> alone step (t, d) (t', d') \<Longrightarrow> pool_runs step begins (ts, d) (ts @ [t'], d')"
  using alone_in_pool [of step t d t' d' "length ts" "ts @ [t]" begins] begin_thread [of begins t step ts d]
  by (simp add: converse_rtranclp_into_rtranclp)

section \<open>Operations as threads\<close>

text \<open>
  \<open>follows step t f fin\<close>: whatever \<open>f\<close> answers and leaves when it has the database to itself, with
  any statements failing, the thread at \<open>t\<close> reaches in its own steps, and stands at \<open>fin\<close> of the
  answer.
\<close>

definition follows :: "('t \<Rightarrow> 'd \<Rightarrow> 't \<Rightarrow> 'd \<Rightarrow> bool) \<Rightarrow> 't \<Rightarrow> ('e, 'd, 'a) op \<Rightarrow> ('e + 'a \<Rightarrow> 't) \<Rightarrow> bool" where
  "follows step t f fin \<longleftrightarrow> (\<forall>w r w'. f w = (r, w') \<longrightarrow> alone step (t, db w) (fin r, db w'))"

named_theorems follow \<open>rules for operations as threads\<close>

lemma followsI: "(\<And>w r w'. f w = (r, w') \<Longrightarrow> alone step (t, db w) (fin r, db w')) \<Longrightarrow> follows step t f fin"
  by (simp add: follows_def)

lemma followsD: "follows step t f fin \<Longrightarrow> f w = (r, w') \<Longrightarrow> alone step (t, db w) (fin r, db w')"
  by (simp add: follows_def)

lemma follows_done [follow]: "follows step (fin (Inr a)) (retE a) fin" "follows step (fin (Inl e)) (failE e) fin"
  by (auto simp: follows_def run_inv)

lemma follows_local [follow]:
  "(\<And>i. follows step t (k1 i) fin) \<Longrightarrow> follows step t (bindE newUUID k1) fin"
  "(\<And>now. follows step t (k2 now) fin) \<Longrightarrow> follows step t (bindE readClock k2) fin"
proof -
  assume k: "\<And>i. follows step t (k1 i) fin"
  show "follows step t (bindE newUUID k1) fin"
  proof (rule followsI)
    fix w r w' assume "bindE newUUID k1 w = (r, w')"
    then have "k1 (uuid_src w (uuid_ctr w)) (w\<lparr>uuid_ctr := Suc (uuid_ctr w)\<rparr>) = (r, w')" by (simp add: bindE_def newUUID_def)
    from followsD [OF k this] show "alone step (t, db w) (fin r, db w')" by simp
  qed
next
  assume k: "\<And>now. follows step t (k2 now) fin"
  show "follows step t (bindE readClock k2) fin"
  proof (rule followsI)
    fix w r w' assume "bindE readClock k2 w = (r, w')"
    then have "k2 (clock w (ticks w)) (w\<lparr>ticks := Suc (ticks w)\<rparr>) = (r, w')" by (simp add: bindE_def readClock_def)
    from followsD [OF k this] show "alone step (t, db w) (fin r, db w')" by simp
  qed
qed

lemma follows_if [follow]:
  "(b \<Longrightarrow> follows step t f fin) \<Longrightarrow> (\<not> b \<Longrightarrow> follows step t g fin) \<Longrightarrow> follows step t (if b then f else g) fin"
  by simp

lemma follows_step: "(\<And>d. step t d t1 d) \<Longrightarrow> follows step t1 f fin \<Longrightarrow> follows step t f fin"
  unfolding follows_def using alone_step by metis

lemma follows_handleE [follow]:
  assumes "\<And>e. \<exists>t1. (\<forall>d d'. some_run f d (Inl e) d' \<longrightarrow> step t d t1 d') \<and> follows step t1 (h e) fin"
    and "\<And>a. \<exists>t1. (\<forall>d d'. some_run f d (Inr a) d' \<longrightarrow> step t d t1 d') \<and> follows step t1 (k a) fin"
  shows "follows step t (handleE f h k) fin"
proof (rule followsI)
  fix w r w' assume "handleE f h k w = (r, w')"
  then consider e w1 where "f w = (Inl e, w1)" "h e w1 = (r, w')" | a w1 where "f w = (Inr a, w1)" "k a w1 = (r, w')"
    by (auto simp: run_inv)
  then show "alone step (t, db w) (fin r, db w')"
  proof cases
    case 1
    from assms(1) obtain t1 where t1: "\<forall>d d'. some_run f d (Inl e) d' \<longrightarrow> step t d t1 d'" "follows step t1 (h e) fin" by blast
    with 1(1) have "step t (db w) t1 (db w1)" using some_runI by blast
    then show ?thesis using followsD [OF t1(2) 1(2)] by (rule alone_step)
  next
    case 2
    from assms(2) obtain t1 where t1: "\<forall>d d'. some_run f d (Inr a) d' \<longrightarrow> step t d t1 d'" "follows step t1 (k a) fin" by blast
    with 2(1) have "step t (db w) t1 (db w1)" using some_runI by blast
    then show ?thesis using followsD [OF t1(2) 2(2)] by (rule alone_step)
  qed
qed

lemma bindE_handleE: "bindE f k = handleE f failE k"
  by (auto simp: fun_eq_iff bindE_def handleE_def failE_def split: prod.splits sum.splits)

lemma follows_bindE [follow]:
  assumes "\<And>e d d'. some_run f d (Inl e) d' \<Longrightarrow> step t d (fin (Inl e)) d'"
    and "\<And>a. \<exists>t1. (\<forall>d d'. some_run f d (Inr a) d' \<longrightarrow> step t d t1 d') \<and> follows step t1 (k a) fin"
  shows "follows step t (bindE f k) fin"
  unfolding bindE_handleE
proof (rule follows_handleE [OF _ assms(2)])
  show "\<exists>t1. (\<forall>d d'. some_run f d (Inl e) d' \<longrightarrow> step t d t1 d') \<and> follows step t1 (failE e) fin" for e
    using assms(1) follows_done(2) by (intro exI [of _ "fin (Inl e)"]) auto
qed

lemma follows_ignoreE [follow]:
  assumes "\<And>r d d'. some_run f d r d' \<Longrightarrow> step t d t1 d'" "follows step t1 k fin"
  shows "follows step t (ignoreE f k) fin"
proof (rule followsI)
  fix w r w' assume "ignoreE f k w = (r, w')"
  then obtain r1 w1 where "f w = (r1, w1)" "k w1 = (r, w')" by (auto simp: run_inv)
  then show "alone step (t, db w) (fin r, db w')"
    using alone_step [OF assms(1) followsD [OF assms(2)]] some_runI by blast
qed

lemma follows_last:
  assumes "\<And>r d d'. some_run f d r d' \<Longrightarrow> step t d (fin r) d'"
  shows "follows step t f fin"
proof (rule followsI)
  fix w r w' assume "f w = (r, w')"
  then have "some_run f (db w) r (db w')" by (rule some_runI)
  from assms [OF this] show "alone step (t, db w) (fin r, db w')" by auto
qed

lemma follows_sure:
  assumes "\<And>r d d'. some_run f d r d' \<Longrightarrow> step t d t1 d'" "\<And>w. fst (f w) = Inr a" "follows step t1 (retE a) fin"
  shows "follows step t f fin"
proof (rule followsI)
  fix w r w' assume run: "f w = (r, w')"
  then have "some_run f (db w) r (db w')" by (rule some_runI)
  note s = assms(1) [OF this]
  have "r = Inr a" using run assms(2) [of w] by simp
  with followsD [OF assms(3), of w'] have "alone step (t1, db w') (fin r, db w')" by (simp add: retE_def)
  with s show "alone step (t, db w) (fin r, db w')" by (rule alone_step)
qed

text \<open>A loop or a part of an operation that hands over to the rest.\<close>

lemma follows_then:
  assumes "follows step t f mid" "\<And>e. mid (Inl e) = fin (Inl e)" "\<And>a. follows step (mid (Inr a)) (k a) fin"
  shows "follows step t (bindE f k) fin"
proof (rule followsI)
  fix w r w' assume run: "bindE f k w = (r, w')"
  obtain a w1 where a: "f w = (a, w1)" by fastforce
  have part: "alone step (t, db w) (mid a, db w1)" by (rule followsD [OF assms(1) a])
  show "alone step (t, db w) (fin r, db w')"
  proof (cases a)
    case (Inl e)
    with run a have "r = Inl e" "w' = w1" by (auto simp: bindE_def)
    with part Inl assms(2) show ?thesis by simp
  next
    case (Inr x)
    with run a have "k x w1 = (r, w')" by (auto simp: bindE_def)
    from part followsD [OF assms(3) this] show ?thesis unfolding Inr by (rule alone_trans)
  qed
qed

section \<open>Invariants of the pool\<close>

text \<open>What the threads carry, together.\<close>

definition carried_by :: "('t \<Rightarrow> 'k \<Rightarrow> int) \<Rightarrow> 't list \<Rightarrow> 'k \<Rightarrow> int" where
  "carried_by carried ts k = (\<Sum>t \<leftarrow> ts. carried t k)"

lemma carried_by_at:
  "j < length ts \<Longrightarrow> carried_by carried (ts[j := t]) k = carried t k + (carried_by carried ts k - carried (ts ! j) k)"
proof (induction ts arbitrary: j)
  case (Cons a ts)
  then show ?case by (cases j) (auto simp: carried_by_def)
qed simp

locale interference_free =
  fixes step :: "'t \<Rightarrow> 'd \<Rightarrow> 't \<Rightarrow> 'd \<Rightarrow> bool" and begins :: "'t \<Rightarrow> bool"
    and ok :: "'d \<Rightarrow> 't \<Rightarrow> bool" and carried :: "'t \<Rightarrow> 'k \<Rightarrow> int" and inv :: "('k \<Rightarrow> int) \<Rightarrow> 'd \<Rightarrow> bool"
  assumes own: "step t d t' d' \<Longrightarrow> ok d t \<Longrightarrow> (\<And>k. 0 \<le> r k) \<Longrightarrow> inv (\<lambda>k. carried t k + r k) d \<Longrightarrow>
      inv (\<lambda>k. carried t' k + r k) d' \<and> ok d' t'"
    and others: "step t d t' d' \<Longrightarrow> ok d t \<Longrightarrow> (\<And>k. 0 \<le> r k) \<Longrightarrow> inv (\<lambda>k. carried t k + r k) d \<Longrightarrow> ok d s \<Longrightarrow> ok d' s"
    and fresh: "begins t \<Longrightarrow> ok d t" "begins t \<Longrightarrow> carried t k = 0"
    and owned: "ok d t \<Longrightarrow> 0 \<le> carried t k"
    and weaken: "inv g d \<Longrightarrow> (\<And>k. h k \<le> g k) \<Longrightarrow> inv h d"
begin

definition pool_inv :: "'t list \<times> 'd \<Rightarrow> bool" where
  "pool_inv s \<longleftrightarrow> inv (carried_by carried (fst s)) (snd s) \<and> (\<forall>t \<in> set (fst s). ok (snd s) t)"

text \<open>The invariant as one of the threads sees it: what it carries itself, and the rest.\<close>

lemma pool_inv_at:
  assumes "pool_inv (ts, d)" "k < length ts"
  defines "rest \<equiv> \<lambda>x. carried_by carried ts x - carried (ts ! k) x"
  shows "ok d (ts ! k)" "0 \<le> rest x" "inv (\<lambda>x. carried (ts ! k) x + rest x) d"
proof -
  have ok: "\<forall>s \<in> set ts. ok d s" using assms(1) by (simp add: pool_inv_def)
  with assms(2) show "ok d (ts ! k)" by simp
  show "inv (\<lambda>x. carried (ts ! k) x + rest x) d" using assms(1) by (simp add: rest_def pool_inv_def)
  have "carried (ts ! k) x \<le> carried_by carried ts x"
    unfolding carried_by_def using ok owned assms(2) by (intro member_le_sum_list) auto
  then show "0 \<le> rest x" by (simp add: rest_def)
qed

lemma pool_step_inv:
  assumes "pool_step step begins s s'" "pool_inv s"
  shows "pool_inv s'"
  using assms
proof (cases rule: pool_step.cases)
  case (begin_thread t ts d)
  have "carried_by carried (ts @ [t]) = carried_by carried ts"
    using fresh(2) [OF begin_thread(3)] by (simp add: carried_by_def fun_eq_iff)
  with assms(2) begin_thread fresh(1) [OF begin_thread(3)] show ?thesis by (auto simp: pool_inv_def)
next
  case (run_thread k ts d t d')
  let ?r = "\<lambda>x. carried_by carried ts x - carried (ts ! k) x"
  have ok: "\<forall>s \<in> set ts. ok d s" and p: "pool_inv (ts, d)" using assms(2) run_thread(1) by (auto simp: pool_inv_def)
  note at = pool_inv_at [OF p run_thread(3)]
  have new: "inv (\<lambda>x. carried t x + ?r x) d'" "ok d' t"
    using own [OF run_thread(4) at] by auto
  have "carried_by carried (ts[k := t]) = (\<lambda>x. carried t x + ?r x)"
    by (rule ext) (rule carried_by_at [OF run_thread(3)])
  moreover have "ok d' s" if "s \<in> set (ts[k := t])" for s
    using set_update_subset_insert [of ts k t] that new(2) others [OF run_thread(4) at] ok by blast
  ultimately show ?thesis using new(1) run_thread(2) by (simp add: pool_inv_def)
qed

theorem pool_runs_inv: "pool_runs step begins s s' \<Longrightarrow> pool_inv s \<Longrightarrow> pool_inv s'"
  by (induction rule: rtranclp_induct) (auto intro: pool_step_inv)

text \<open>What every single step does to the database, an interleaving of steps does.\<close>

lemma pool_runs_moves:
  assumes "pool_runs step begins s s'" "pool_inv s" and "reflp R" "transp R"
    and each: "\<And>t d t' d' r. step t d t' d' \<Longrightarrow> ok d t \<Longrightarrow> (\<And>k. 0 \<le> r k) \<Longrightarrow> inv (\<lambda>k. carried t k + r k) d \<Longrightarrow> R d d'"
  shows "R (snd s) (snd s')"
  using assms(1)
proof (induction rule: rtranclp_induct)
  case (step s1 s2)
  have p: "pool_inv s1" using pool_runs_inv [OF step.hyps(1) assms(2)] .
  have "R (snd s1) (snd s2)"
    using step.hyps(2)
  proof (cases rule: pool_step.cases)
    case (begin_thread t ts d)
    with assms(3) show ?thesis by (simp add: reflpD)
  next
    case (run_thread k ts d t d')
    have "R d d'" by (rule each [OF run_thread(4) pool_inv_at]) (use p run_thread in simp_all)
    with run_thread show ?thesis by simp
  qed
  with step.IH assms(4) show ?case by (blast dest: transpD)
qed (use assms(3) in \<open>simp add: reflpD\<close>)

text \<open>At every moment of every interleaving the invariant holds, with nothing carried.\<close>

lemma always:
  assumes "pool_runs step begins ([], d) (ts, d')" "inv (\<lambda>_. 0) d"
  shows "inv (\<lambda>_. 0) d'"
proof -
  have "pool_inv ([], d)" using assms(2) by (simp add: pool_inv_def carried_by_def [abs_def])
  from pool_runs_inv [OF assms(1) this] have p: "inv (carried_by carried ts) d'" "\<forall>t \<in> set ts. ok d' t"
    by (auto simp: pool_inv_def)
  have "0 \<le> carried_by carried ts k" for k
    using p(2) owned unfolding carried_by_def by (induction ts) (auto intro: add_nonneg_nonneg)
  with weaken [OF p(1)] show ?thesis .
qed

end

end
