(* ===== verification/Interleaving.thy ===== *)
theory Interleaving
  imports Booking_Refinement Thread_Pool
begin

text \<open>
  Reservations, confirmations, expiries and cancellations that run at the same time. Every request
  of \<^verbatim>\<open>POST /api/bookings/reserve\<close> and every message is a thread, whose atomic steps are the calls
  of the repositories in the order of the code: one SQL statement, or one transaction. Between
  two steps of a thread the others may do any number of theirs, so what a thread has read may be
  stale when it writes. Reading a booking with its items is one step: the items of a booking are
  written with it and never change.
\<close>

section \<open>The threads\<close>

text \<open>A run of an operation on the shared database, with some schedule of refused statements.\<close>

definition runs_to :: "('e, 'd, 'a) op \<Rightarrow> 'd \<Rightarrow> 'e + 'a \<Rightarrow> 'd \<Rightarrow> bool" where
  "runs_to f d r d' \<longleftrightarrow> (\<exists>w w'. clear w \<and> db w = d \<and> f w = (r, w') \<and> db w' = d')"

text \<open>
  Where a thread of the booking service stands. \<open>Taking\<close> and \<open>Priced\<close> hold the caller, the event,
  all items, those whose seats were taken and those that are left.
\<close>

datatype thread =
    Taking string string string "BookingItem list" "BookingItem list" "BookingItem list"
  | Priced string string string "BookingItem list" "BookingItem list" "BookingItem list"
  | Returning string "BookingItem list" ticketing_error
  | Storing string Reservation
  | Stored string Reservation
  | Replied "ticketing_error + Reservation"
  | PaidFor string
  | ExpiredFor string
  | CancelledFor string
  | Deciding string Booking
  | Confirming string Booking
  | Issuing string Booking "BookingItem list"
  | Releasing string "Booking list"
  | Acked "ticketing_error + unit"

text \<open>The steps of \<^verbatim>\<open>Reserve\<close>.\<close>

inductive reserve_step :: "int \<Rightarrow> initiate_call \<Rightarrow> thread \<Rightarrow> ticketing_db \<Rightarrow> thread \<Rightarrow> ticketing_db \<Rightarrow> bool"
  for ttl :: int and pay :: initiate_call where
  \<comment> \<open>the loop over the items\<close>
  price_error: "runs_to (seat_GetPrice ev (bi_TicketTypeID it)) d (Inl e) d' \<Longrightarrow>
    reserve_step ttl pay (Taking u em ev items taken (it # rest)) d (Replied (Inl e)) d'"
| price_mismatch: "runs_to (seat_GetPrice ev (bi_TicketTypeID it)) d (Inr p) d' \<Longrightarrow> bi_UnitPriceRupiah it \<noteq> p \<Longrightarrow>
    reserve_step ttl pay (Taking u em ev items taken (it # rest)) d (Replied (Inl (ErrPriceMismatch p (bi_UnitPriceRupiah it)))) d'"
| price_right: "runs_to (seat_GetPrice ev (bi_TicketTypeID it)) d (Inr (bi_UnitPriceRupiah it)) d' \<Longrightarrow>
    reserve_step ttl pay (Taking u em ev items taken (it # rest)) d (Priced u em ev items taken (it # rest)) d'"
| take_seats: "runs_to (seat_Reserve ev (bi_TicketTypeID it) (bi_Quantity it)) d (Inr ()) d' \<Longrightarrow>
    reserve_step ttl pay (Priced u em ev items taken (it # rest)) d (Taking u em ev items (taken @ [it]) rest) d'"
| no_seats: "runs_to (seat_Reserve ev (bi_TicketTypeID it) (bi_Quantity it)) d (Inl e) d' \<Longrightarrow>
    reserve_step ttl pay (Priced u em ev items taken (it # rest)) d
      (Returning ev (takeWhile (\<lambda>rb. bi_TicketTypeID rb \<noteq> bi_TicketTypeID it) items) ErrNoSeatsAvailable) d'"
  \<comment> \<open>the booking\<close>
| build: "reserve_step ttl pay (Taking u em ev items taken []) d
      (Storing em (new_reservation i u ev (stamped i src n items) (calculateTotal items) (t1 + wrap64 (ttl * Second)) now)) d"
| store: "runs_to (booking_Create (booking_of res)) d (Inr ()) d' \<Longrightarrow> reserve_step ttl pay (Storing em res) d (Stored em res) d'"
| store_error: "runs_to (booking_Create (booking_of res)) d (Inl e) d' \<Longrightarrow>
    reserve_step ttl pay (Storing em res) d (Returning (rs_EventID res) (rs_Items res) e) d'"
| accepted: "pay (rs_BookingID res) (rs_EventID res) (rs_UserID res) em (rs_TotalRupiah res) (rs_ExpiresAt res) = None \<Longrightarrow>
    reserve_step ttl pay (Stored em res) d (Replied (Inr res)) d"
| refused: "pay (rs_BookingID res) (rs_EventID res) (rs_UserID res) em (rs_TotalRupiah res) (rs_ExpiresAt res) = Some e \<Longrightarrow>
    runs_to (booking_Delete (rs_BookingID res)) d r d' \<Longrightarrow>
    reserve_step ttl pay (Stored em res) d (Returning (rs_EventID res) (rs_Items res) e) d'"
  \<comment> \<open>both loops that give seats back\<close>
| return_seats: "runs_to (seat_Release ev (bi_TicketTypeID it) (bi_Quantity it)) d r d' \<Longrightarrow>
    reserve_step ttl pay (Returning ev (it # rest) e) d (Returning ev rest e) d'"
| returned: "reserve_step ttl pay (Returning ev [] e) d (Replied (Inl e)) d"

text \<open>The steps of \<^verbatim>\<open>Confirm\<close>, \<^verbatim>\<open>ExpireOnPaymentExpired\<close> and \<^verbatim>\<open>CancelBookings\<close>.\<close>

inductive transition_step :: "thread \<Rightarrow> ticketing_db \<Rightarrow> thread \<Rightarrow> ticketing_db \<Rightarrow> bool" where
  \<comment> \<open>a paid booking\<close>
  paid_gone: "runs_to (loadPendingBooking i) d (Inr None) d' \<Longrightarrow> transition_step (PaidFor i) d (Acked (Inr ())) d'"
| paid_pending: "runs_to (loadPendingBooking i) d (Inr (Some b)) d' \<Longrightarrow> transition_step (PaidFor i) d (Deciding i b) d'"
| decide_error: "runs_to (IsPublished (bk_EventID b)) d (Inl e) d' \<Longrightarrow> transition_step (Deciding i b) d (Acked (Inl e)) d'"
| decide_cancel: "runs_to (IsPublished (bk_EventID b)) d (Inr False) d' \<Longrightarrow>
    transition_step (Deciding i b) d (Releasing ''cancelled'' [b]) d'"
| decide_confirm: "runs_to (IsPublished (bk_EventID b)) d (Inr True) d' \<Longrightarrow> transition_step (Deciding i b) d (Confirming i b) d'"
| confirm_error: "runs_to (booking_UpdateStatusIfPending i ''confirmed'') d (Inl e) d' \<Longrightarrow>
    transition_step (Confirming i b) d (Acked (Inl e)) d'"
| confirm_late: "runs_to (booking_UpdateStatusIfPending i ''confirmed'') d (Inr False) d' \<Longrightarrow>
    transition_step (Confirming i b) d (Acked (Inr ())) d'"
| confirm: "runs_to (booking_UpdateStatusIfPending i ''confirmed'') d (Inr True) d' \<Longrightarrow>
    transition_step (Confirming i b) d (Issuing i b (bk_Items b)) d'"
| issue: "runs_to (outbox_Insert ''ticket.issued'' (i @ ''-'' @ bi_ID it) (marshal_TicketIssued
      \<lparr>ti_TicketID = bi_ID it, ti_BookingID = i, ti_UserID = bk_UserID b, ti_EventID = bk_EventID b,
       ti_TicketTypeID = bi_TicketTypeID it\<rparr>)) d r d' \<Longrightarrow>
    transition_step (Issuing i b (it # items)) d (Issuing i b items) d'"
| issued: "transition_step (Issuing i b []) d (Acked (Inr ())) d"
  \<comment> \<open>expiry and cancellation\<close>
| expired_gone: "runs_to (loadPendingBooking i) d (Inr None) d' \<Longrightarrow> transition_step (ExpiredFor i) d (Acked (Inr ())) d'"
| expired_pending: "runs_to (loadPendingBooking i) d (Inr (Some b)) d' \<Longrightarrow>
    transition_step (ExpiredFor i) d (Releasing ''expired'' [b]) d'"
| list_error: "runs_to (booking_ListByEventID ev) d (Inl e) d' \<Longrightarrow> transition_step (CancelledFor ev) d (Acked (Inl e)) d'"
| list_bookings: "runs_to (booking_ListByEventID ev) d (Inr bs) d' \<Longrightarrow>
    transition_step (CancelledFor ev) d (Releasing ''cancelled'' bs) d'"
| skip_settled: "bk_Status b \<noteq> ''confirmed'' \<Longrightarrow> bk_Status b \<noteq> ''pending'' \<Longrightarrow>
    transition_step (Releasing st (b # bs)) d (Releasing st bs) d"
| release: "bk_Status b = ''confirmed'' \<or> bk_Status b = ''pending'' \<Longrightarrow>
    runs_to (booking_TransitionAndReleaseSeats b st) d (Inr applied) d' \<Longrightarrow>
    transition_step (Releasing st (b # bs)) d (Releasing st bs) d'"
| release_error: "bk_Status b = ''confirmed'' \<or> bk_Status b = ''pending'' \<Longrightarrow>
    runs_to (booking_TransitionAndReleaseSeats b st) d (Inl e) d' \<Longrightarrow>
    transition_step (Releasing st (b # bs)) d (Acked (Inl e)) d'"
| released: "transition_step (Releasing st []) d (Acked (Inr ())) d"

inductive thread_step :: "int \<Rightarrow> initiate_call \<Rightarrow> thread \<Rightarrow> ticketing_db \<Rightarrow> thread \<Rightarrow> ticketing_db \<Rightarrow> bool"
  for ttl :: int and pay :: initiate_call where
  reserving: "reserve_step ttl pay t d t' d' \<Longrightarrow> thread_step ttl pay t d t' d'"
| settling: "transition_step t d t' d' \<Longrightarrow> thread_step ttl pay t d t' d'"

text \<open>
  How a thread begins: a request with items, whose quantities the validation of the handler keeps
  positive, or a message.
\<close>

fun begins :: "thread \<Rightarrow> bool" where
  "begins (Taking u em ev items taken rest) \<longleftrightarrow>
     items \<noteq> [] \<and> taken = [] \<and> rest = items \<and> (\<forall>it \<in> set items. 0 < bi_Quantity it)"
| "begins (PaidFor i) \<longleftrightarrow> True"
| "begins (ExpiredFor i) \<longleftrightarrow> True"
| "begins (CancelledFor ev) \<longleftrightarrow> True"
| "begins _ \<longleftrightarrow> False"

section \<open>The threads are the code\<close>

text \<open>
  An operation of the service that has the database to itself is one run of its thread, whatever
  statements are refused: no branch of the code is missing in the rules.
\<close>

lemma runs_toI: "f w = (r, w') \<Longrightarrow> clear w \<Longrightarrow> runs_to f (db w) r (db w')"
  by (auto simp: runs_to_def)

lemma thread_go:
  "thread_step ttl pay t d t1 d1 \<Longrightarrow> alone (thread_step ttl pay) (t1, d1) (t2, d2) \<Longrightarrow> alone (thread_step ttl pay) (t, d) (t2, d2)"
  by (rule alone_step)

lemma thread_end: "thread_step ttl pay t d t1 d1 \<Longrightarrow> alone (thread_step ttl pay) (t, d) (t1, d1)"
  by auto

lemma rollback_thread:
  "rollbackSeats ev its w = (r, w') \<Longrightarrow> clear w \<Longrightarrow>
   alone (thread_step ttl pay) (Returning ev its e, db w) (Replied (Inl e), db w')"
proof (induction its arbitrary: w)
  case Nil
  then show ?case by (auto simp: run_inv intro!: reserve_step.returned [THEN thread_step.reserving])
next
  case (Cons it its)
  then obtain r1 w1 where s: "seat_Release ev (bi_TicketTypeID it) (bi_Quantity it) w = (r1, w1)"
    and k: "rollbackSeats ev its w1 = (r, w')" by (auto simp: run_inv)
  have "runs_to (seat_Release ev (bi_TicketTypeID it) (bi_Quantity it)) (db w) r1 (db w1)"
    using s Cons.prems(2) by (rule runs_toI)
  from reserve_step.return_seats [THEN thread_step.reserving, OF this] Cons.IH [OF k keeps_clearD [OF keeps_clear_reserve(3) Cons.prems(2) s]]
  show ?case by (rule thread_go)
qed

lemma loop_thread:
  "reserve_loop ev items rest w = (r, w') \<Longrightarrow> clear w \<Longrightarrow>
   alone (thread_step ttl pay) (Taking u em ev items taken rest, db w)
     (case r of Inl e \<Rightarrow> Replied (Inl e) | Inr _ \<Rightarrow> Taking u em ev items (taken @ rest) [], db w')"
proof (induction rest arbitrary: w taken)
  case Nil
  then show ?case by (auto simp: run_inv)
next
  case (Cons it rest)
  let ?price = "seat_GetPrice ev (bi_TicketTypeID it)" and ?take = "seat_Reserve ev (bi_TicketTypeID it) (bi_Quantity it)"
  note c = Cons.prems(2)
  obtain p w1 where g: "?price w = (p, w1)" by fastforce
  have g': "runs_to ?price (db w) p (db w1)" and c1: "clear w1"
    using g c keeps_clearD [OF keeps_clear_reserve(1) c g] by (auto intro: runs_toI)
  obtain s w2 where s: "?take w1 = (s, w2)" by fastforce
  have s': "runs_to ?take (db w1) s (db w2)" and c2: "clear w2"
    using s c1 keeps_clearD [OF keeps_clear_reserve(2) c1 s] by (auto intro: runs_toI)
  consider (error) e where "p = Inl e" | (mismatch) x where "p = Inr x" "bi_UnitPriceRupiah it \<noteq> x"
    | (short) e where "p = Inr (bi_UnitPriceRupiah it)" "s = Inl e" | (taken) "p = Inr (bi_UnitPriceRupiah it)" "s = Inr ()"
    by (cases p; cases s) auto
  then show ?case
  proof cases
    case error
    with Cons.prems(1) g have "r = Inl e" "w' = w1" by (auto simp: bindE_def)
    then show ?thesis using thread_end [OF reserve_step.price_error [THEN thread_step.reserving, OF g' [unfolded error]]] by simp
  next
    case mismatch
    with Cons.prems(1) g have "r = Inl (ErrPriceMismatch x (bi_UnitPriceRupiah it))" "w' = w1" by (auto simp: bindE_def failE_def)
    then show ?thesis using thread_end [OF reserve_step.price_mismatch [THEN thread_step.reserving, OF g' [unfolded mismatch(1)] mismatch(2)]] by simp
  next
    case short
    let ?undo = "takeWhile (\<lambda>rb. bi_TicketTypeID rb \<noteq> bi_TicketTypeID it) items"
    obtain v w3 where b: "rollbackSeats ev ?undo w2 = (v, w3)" by fastforce
    with rollbackSeats_never_fails [of ev ?undo w2] have "v = Inr ()" by (cases v) auto
    with b Cons.prems(1) g s short have "r = Inl ErrNoSeatsAvailable" "w' = w3"
      by (auto simp: bindE_def handleE_def failE_def rollback_until_eq)
    with thread_go [OF reserve_step.price_right [THEN thread_step.reserving, OF g' [unfolded short(1)]] thread_go [OF reserve_step.no_seats [THEN thread_step.reserving, OF s' [unfolded short(2)]] rollback_thread [OF b c2]]]
    show ?thesis by simp
  next
    case taken
    with Cons.prems(1) g s have "reserve_loop ev items rest w2 = (r, w')" by (auto simp: bindE_def handleE_def)
    note IH = Cons.IH [OF this c2, of "taken @ [it]", unfolded append_assoc append_Cons append_Nil]
    show ?thesis
      by (rule thread_go [OF reserve_step.price_right [THEN thread_step.reserving, OF g' [unfolded taken(1)]] thread_go [OF reserve_step.take_seats [THEN thread_step.reserving, OF s' [unfolded taken(2)]] IH]])
  qed
qed

lemma keeps_clear_booking [clearing]: "keeps_clear (booking_Create b)" "keeps_clear (booking_Delete i)"
  unfolding booking_Create_def booking_Delete_def by (auto intro!: clearing)

lemma back_thread:
  assumes "bindE (rollbackSeats ev its) (\<lambda>_. failE e) w = (r, w')" "clear w"
  shows "alone (thread_step ttl pay) (Returning ev its e, db w) (Replied r, db w')"
proof -
  obtain y z where b: "rollbackSeats ev its w = (y, z)" by fastforce
  with rollbackSeats_never_fails [of ev its w] have "y = Inr ()" by (cases y) auto
  with assms(1) b have "r = Inl e" "w' = z" by (auto simp: bindE_def failE_def)
  with rollback_thread [OF b assms(2)] show ?thesis by simp
qed

text \<open>What \<^verbatim>\<open>Reserve\<close> does once all seats are taken, for the reservation it has built.\<close>

definition store_and_pay :: "initiate_call \<Rightarrow> string \<Rightarrow> Reservation \<Rightarrow> Reservation ticketing_op" where
  "store_and_pay pay em res =
     handleE (booking_Create (booking_of res))
       (\<lambda>e. bindE (rollbackSeats (rs_EventID res) (rs_Items res)) (\<lambda>_. failE e))
       (\<lambda>_. case pay (rs_BookingID res) (rs_EventID res) (rs_UserID res) em (rs_TotalRupiah res) (rs_ExpiresAt res) of
               Some e \<Rightarrow> ignoreE (booking_Delete (rs_BookingID res))
                          (bindE (rollbackSeats (rs_EventID res) (rs_Items res)) (\<lambda>_. failE e))
             | None \<Rightarrow> retE res)"

lemma Reserve_after_loop:
  assumes "reserve_loop ev items items w = (Inr v, w1)" "items \<noteq> []"
  shows "\<exists>i src n t1 now w2. db w2 = db w1 \<and> faults w2 = faults w1 \<and>
    Reserve ttl pay u em ev items w = store_and_pay pay em
      (new_reservation i u ev (stamped i src n items) (calculateTotal items) (t1 + wrap64 (ttl * Second)) now) w2"
proof (intro exI conjI)
  let ?i = "uuid_src w1 (uuid_ctr w1)"
  let ?w2 = "w1\<lparr>ticks := Suc (Suc (ticks w1)), uuid_ctr := Suc (uuid_ctr w1) + length items\<rparr>"
  show "db ?w2 = db w1" "faults ?w2 = faults w1" by simp_all
  show "Reserve ttl pay u em ev items w = store_and_pay pay em
      (new_reservation ?i u ev (stamped ?i (uuid_src w1) (Suc (uuid_ctr w1)) items) (calculateTotal items)
        (clock w1 (ticks w1) + wrap64 (ttl * Second)) (clock w1 (Suc (ticks w1)))) ?w2"
    using assms
    by (simp add: Reserve_def bindE_def stamp_items_run readClock_def newUUID_def Let_def store_and_pay_def new_reservation_def
        cong: option.case_cong)
qed

lemma store_thread:
  assumes "store_and_pay pay em res w = (r, w')" "clear w"
  shows "alone (thread_step ttl pay) (Storing em res, db w) (Replied r, db w')"
proof -
  let ?create = "booking_Create (booking_of res)" and ?del = "booking_Delete (rs_BookingID res)"
  obtain s w3 where s: "?create w = (s, w3)" by fastforce
  note c3 = keeps_clearD [OF keeps_clear_booking(1) assms(2) s]
  have s': "runs_to ?create (db w) s (db w3)" using s assms(2) by (rule runs_toI)
  show ?thesis
  proof (cases s)
    case (Inl e)
    then have "bindE (rollbackSeats (rs_EventID res) (rs_Items res)) (\<lambda>_. failE e) w3 = (r, w')"
      using assms(1) s by (simp add: store_and_pay_def handleE_def)
    from reserve_step.store_error [THEN thread_step.reserving, OF s' [unfolded Inl]] back_thread [OF this c3] show ?thesis by (rule thread_go)
  next
    case (Inr v)
    then have stored: "thread_step ttl pay (Storing em res) (db w) (Stored em res) (db w3)" using reserve_step.store [THEN thread_step.reserving] s' by simp
    show ?thesis
    proof (cases "pay (rs_BookingID res) (rs_EventID res) (rs_UserID res) em (rs_TotalRupiah res) (rs_ExpiresAt res)")
      case None
      then have "r = Inr res" "w' = w3" using assms(1) s Inr by (simp_all add: store_and_pay_def handleE_def retE_def)
      with thread_go [OF stored thread_end [OF reserve_step.accepted [where pay = pay, OF None, THEN thread_step.reserving]]] show ?thesis by simp
    next
      case (Some e)
      obtain x w4 where d: "?del w3 = (x, w4)" by fastforce
      have d': "runs_to ?del (db w3) x (db w4)" using d c3 by (rule runs_toI)
      have "bindE (rollbackSeats (rs_EventID res) (rs_Items res)) (\<lambda>_. failE e) w4 = (r, w')"
        using assms(1) s Inr Some d by (simp add: store_and_pay_def handleE_def ignoreE_def)
      from back_thread [OF this keeps_clearD [OF keeps_clear_booking(2) c3 d]]
      show ?thesis by (rule thread_go [OF stored thread_go [OF reserve_step.refused [where pay = pay, OF Some d', THEN thread_step.reserving]]])
    qed
  qed
qed

lemma Reserve_thread:
  assumes "Reserve ttl pay u em ev items w = (r, w')" "clear w" "items \<noteq> []"
  shows "alone (thread_step ttl pay) (Taking u em ev items [] items, db w) (Replied r, db w')"
proof -
  obtain l w1 where l: "reserve_loop ev items items w = (l, w1)" by fastforce
  have loop: "alone (thread_step ttl pay) (Taking u em ev items [] items, db w)
      (case l of Inl e \<Rightarrow> Replied (Inl e) | Inr _ \<Rightarrow> Taking u em ev items items [], db w1)"
    by (rule loop_thread [OF l assms(2), where taken = "[]", unfolded append_Nil])
  show ?thesis
  proof (cases l)
    case (Inl e)
    with assms(1,3) l have "r = Inl e" "w' = w1" by (auto simp: Reserve_def bindE_def)
    with loop Inl show ?thesis by simp
  next
    case (Inr v)
    obtain i src n t1 now w2 where w2: "db w2 = db w1" "faults w2 = faults w1"
        "store_and_pay pay em (new_reservation i u ev (stamped i src n items) (calculateTotal items)
           (t1 + wrap64 (ttl * Second)) now) w2 = (r, w')"
      using Reserve_after_loop [OF l [unfolded Inr] assms(3), of ttl pay u em] assms(1) by auto
    have "clear w2" using keeps_clearD [OF keeps_clear_reserve_loop assms(2) l] w2(2) by simp
    from store_thread [OF w2(3) this, of ttl] have
      "alone (thread_step ttl pay) (Taking u em ev items items [], db w1) (Replied r, db w')"
      unfolding w2(1) by (rule thread_go [OF reserve_step.build [THEN thread_step.reserving]])
    with loop Inr show ?thesis by (auto intro: alone_trans)
  qed
qed

lemma keeps_clear_transitions [clearing]:
  "keeps_clear (loadPendingBooking i)" "keeps_clear (IsPublished ev)" "keeps_clear (booking_UpdateStatusIfPending i st)"
  "keeps_clear (booking_TransitionAndReleaseSeats b st)" "keeps_clear (booking_ListByEventID ev)"
proof -
  have "keeps_clear (release_items items)" for items by (induction items) (auto intro!: clearing)
  then show "keeps_clear (booking_TransitionAndReleaseSeats b st)"
    unfolding booking_TransitionAndReleaseSeats_def by (auto intro!: clearing)
  have load: "keeps_clear (loadItems b)" for b unfolding loadItems_def by (auto intro!: clearing)
  then show "keeps_clear (loadPendingBooking i)"
    unfolding loadPendingBooking_def booking_FindByID_def by (auto intro!: clearing)
  have "keeps_clear (load_each bs)" for bs by (induction bs) (auto intro!: clearing load)
  then show "keeps_clear (booking_ListByEventID ev)"
    unfolding booking_ListByEventID_def list_bookings_def by (auto intro!: clearing)
  show "keeps_clear (IsPublished ev)" "keeps_clear (booking_UpdateStatusIfPending i st)"
    unfolding IsPublished_def booking_UpdateStatusIfPending_def by (auto intro!: clearing)
qed

lemma cancel_thread:
  "cancel_each bs w = (r, w') \<Longrightarrow> clear w \<Longrightarrow>
   alone (thread_step ttl pay) (Releasing ''cancelled'' bs, db w) (Acked r, db w')"
proof (induction bs arbitrary: w)
  case Nil
  then show ?case by (auto simp: run_inv intro!: transition_step.released [THEN thread_step.settling])
next
  case (Cons b bs)
  show ?case
  proof (cases "bk_Status b \<noteq> ''confirmed'' \<and> bk_Status b \<noteq> ''pending''")
    case True
    with Cons.prems have "cancel_each bs w = (r, w')" by simp
    from transition_step.skip_settled [THEN thread_step.settling, OF conjunct1 [OF True] conjunct2 [OF True]] Cons.IH [OF this Cons.prems(2)]
    show ?thesis by (rule thread_go)
  next
    case False
    let ?f = "booking_TransitionAndReleaseSeats b ''cancelled''"
    from False have act: "bk_Status b = ''confirmed'' \<or> bk_Status b = ''pending''" by blast
    obtain s w1 where s: "?f w = (s, w1)" by fastforce
    have s': "runs_to ?f (db w) s (db w1)" using s Cons.prems(2) by (rule runs_toI)
    show ?thesis
    proof (cases s)
      case (Inl e)
      with Cons.prems(1) False s have "r = Inl e" "w' = w1" by (auto simp: bindE_def)
      with thread_end [OF transition_step.release_error [THEN thread_step.settling, OF act s' [unfolded Inl]]] show ?thesis by simp
    next
      case (Inr a)
      with Cons.prems(1) act s have "cancel_each bs w1 = (r, w')" by (auto simp: bindE_def)
      from transition_step.release [THEN thread_step.settling, OF act s' [unfolded Inr]] Cons.IH [OF this keeps_clearD [OF keeps_clear_transitions(4) Cons.prems(2) s]]
      show ?thesis by (rule thread_go)
    qed
  qed
qed

lemma CancelBookings_thread:
  assumes "CancelBookings ev w = (r, w')" "clear w"
  shows "alone (thread_step ttl pay) (CancelledFor ev, db w) (Acked r, db w')"
proof -
  obtain s w1 where s: "booking_ListByEventID ev w = (s, w1)" by fastforce
  have s': "runs_to (booking_ListByEventID ev) (db w) s (db w1)" using s assms(2) by (rule runs_toI)
  show ?thesis
  proof (cases s)
    case (Inl e)
    with assms(1) s have "r = Inl e" "w' = w1" by (auto simp: CancelBookings_def bindE_def)
    with thread_end [OF transition_step.list_error [THEN thread_step.settling, OF s' [unfolded Inl]]] show ?thesis by simp
  next
    case (Inr bs)
    with assms(1) s have "cancel_each bs w1 = (r, w')" by (auto simp: CancelBookings_def bindE_def)
    from transition_step.list_bookings [THEN thread_step.settling, OF s' [unfolded Inr]] cancel_thread [OF this keeps_clearD [OF keeps_clear_transitions(5) assms(2) s]]
    show ?thesis by (rule thread_go)
  qed
qed

lemma release_thread:
  assumes "bindE (booking_TransitionAndReleaseSeats b st) (\<lambda>_. retE ()) w = (r, w')" "clear w" "bk_Status b = ''pending''"
  shows "alone (thread_step ttl pay) (Releasing st [b], db w) (Acked r, db w')"
proof -
  let ?f = "booking_TransitionAndReleaseSeats b st"
  have act: "bk_Status b = ''confirmed'' \<or> bk_Status b = ''pending''" using assms(3) by simp
  obtain s w1 where s: "?f w = (s, w1)" by fastforce
  have s': "runs_to ?f (db w) s (db w1)" using s assms(2) by (rule runs_toI)
  show ?thesis
  proof (cases s)
    case (Inl e)
    with assms(1) s have "r = Inl e" "w' = w1" by (auto simp: bindE_def)
    with thread_end [OF transition_step.release_error [THEN thread_step.settling, OF act s' [unfolded Inl]]] show ?thesis by simp
  next
    case (Inr a)
    with assms(1) s have "r = Inr ()" "w' = w1" by (auto simp: bindE_def retE_def)
    with thread_go [OF transition_step.release [THEN thread_step.settling, OF act s' [unfolded Inr]] thread_end [OF transition_step.released [THEN thread_step.settling]]] show ?thesis by simp
  qed
qed

lemma load_cases:
  assumes "clear w"
  obtains (gone) w1 where "loadPendingBooking i w = (Inr None, w1)" "db w1 = db w" "clear w1"
      "runs_to (loadPendingBooking i) (db w) (Inr None) (db w1)"
  | (pending) b w1 where "loadPendingBooking i w = (Inr (Some b), w1)" "db w1 = db w" "clear w1" "bk_Status b = ''pending''"
      "runs_to (loadPendingBooking i) (db w) (Inr (Some b)) (db w1)"
proof -
  obtain l w1 where l: "loadPendingBooking i w = (l, w1)" by fastforce
  have "runs_to (loadPendingBooking i) (db w) l (db w1)" using l assms by (rule runs_toI)
  moreover have "db w1 = db w"
    by (rule read_onlyD [OF read_only_loadPendingBooking l])
  moreover have "(\<exists>b. l = Inr (Some b) \<and> bk_Status b = ''pending'') \<or> l = Inr None"
    using l by (auto simp: loadPendingBooking_def op_defs split: prod.splits sum.splits if_splits)
  ultimately show thesis using that l keeps_clearD [OF keeps_clear_transitions(1) assms l] by blast
qed

lemma Expire_thread:
  assumes "ExpireOnPaymentExpired i w = (r, w')" "clear w"
  shows "alone (thread_step ttl pay) (ExpiredFor i, db w) (Acked r, db w')"
proof (rule load_cases [OF assms(2), of i])
  fix w1 assume l: "loadPendingBooking i w = (Inr None, w1)" "runs_to (loadPendingBooking i) (db w) (Inr None) (db w1)"
  with assms(1) have "r = Inr ()" "w' = w1" by (auto simp: ExpireOnPaymentExpired_def releaseReservation_def bindE_def retE_def)
  with thread_end [OF transition_step.expired_gone [THEN thread_step.settling, OF l(2)]] show ?thesis by simp
next
  fix b w1
  assume l: "loadPendingBooking i w = (Inr (Some b), w1)" "clear w1" "bk_Status b = ''pending''"
    "runs_to (loadPendingBooking i) (db w) (Inr (Some b)) (db w1)"
  with assms(1) have "bindE (booking_TransitionAndReleaseSeats b ''expired'') (\<lambda>_. retE ()) w1 = (r, w')"
    by (auto simp: ExpireOnPaymentExpired_def releaseReservation_def bindE_def)
  from transition_step.expired_pending [THEN thread_step.settling, OF l(4)] release_thread [OF this l(2,3)] show ?thesis by (rule thread_go)
qed

lemma issue_thread:
  "issue_tickets i b items w = (r, w') \<Longrightarrow> clear w \<Longrightarrow>
   alone (thread_step ttl pay) (Issuing i b items, db w) (Acked r, db w')"
proof (induction items arbitrary: w)
  case Nil
  then show ?case by (auto simp: run_inv intro!: transition_step.issued [THEN thread_step.settling])
next
  case (Cons it items)
  let ?f = "outbox_Insert ''ticket.issued'' (i @ ''-'' @ bi_ID it) (marshal_TicketIssued
      \<lparr>ti_TicketID = bi_ID it, ti_BookingID = i, ti_UserID = bk_UserID b, ti_EventID = bk_EventID b, ti_TicketTypeID = bi_TicketTypeID it\<rparr>)"
  obtain s w1 where s: "?f w = (s, w1)" by fastforce
  have s': "runs_to ?f (db w) s (db w1)" using s Cons.prems(2) by (rule runs_toI)
  have "issue_tickets i b items w1 = (r, w')" using Cons.prems(1) s by (simp add: ignoreE_def)
  from transition_step.issue [THEN thread_step.settling, OF s'] Cons.IH [OF this keeps_clearD [OF keeps_clear_outbox_Insert Cons.prems(2) s]]
  show ?case by (rule thread_go)
qed

lemma confirming_thread:
  assumes "bindE (booking_UpdateStatusIfPending i ''confirmed'') (\<lambda>applied. if \<not> applied then retE () else issue_tickets i b (bk_Items b)) w = (r, w')"
    and "clear w"
  shows "alone (thread_step ttl pay) (Confirming i b, db w) (Acked r, db w')"
proof -
  let ?f = "booking_UpdateStatusIfPending i ''confirmed''"
  obtain s w1 where s: "?f w = (s, w1)" by fastforce
  have s': "runs_to ?f (db w) s (db w1)" using s assms(2) by (rule runs_toI)
  consider (err) e where "s = Inl e" | (late) "s = Inr False" | (won) "s = Inr True" by (cases s) auto
  then show ?thesis
  proof cases
    case err
    with assms(1) s have "r = Inl e" "w' = w1" by (auto simp: bindE_def)
    with thread_end [OF transition_step.confirm_error [THEN thread_step.settling, OF s' [unfolded err]]] show ?thesis by simp
  next
    case late
    with assms(1) s have "r = Inr ()" "w' = w1" by (auto simp: bindE_def retE_def)
    with thread_end [OF transition_step.confirm_late [THEN thread_step.settling, OF s' [unfolded late]]] show ?thesis by simp
  next
    case won
    with assms(1) s have "issue_tickets i b (bk_Items b) w1 = (r, w')" by (auto simp: bindE_def)
    from transition_step.confirm [THEN thread_step.settling, OF s' [unfolded won]] issue_thread [OF this keeps_clearD [OF keeps_clear_transitions(3) assms(2) s]]
    show ?thesis by (rule thread_go)
  qed
qed

lemma Confirm_thread:
  assumes "Confirm i p w = (r, w')" "clear w"
  shows "alone (thread_step ttl pay) (PaidFor i, db w) (Acked r, db w')"
proof (rule load_cases [OF assms(2), of i])
  fix w1 assume l: "loadPendingBooking i w = (Inr None, w1)" "runs_to (loadPendingBooking i) (db w) (Inr None) (db w1)"
  with assms(1) have "r = Inr ()" "w' = w1" by (auto simp: Confirm_def bindE_def retE_def)
  with thread_end [OF transition_step.paid_gone [THEN thread_step.settling, OF l(2)]] show ?thesis by simp
next
  fix b w1
  assume l: "loadPendingBooking i w = (Inr (Some b), w1)" "clear w1" "bk_Status b = ''pending''"
    "runs_to (loadPendingBooking i) (db w) (Inr (Some b)) (db w1)"
  let ?f = "IsPublished (bk_EventID b)"
  obtain s w2 where s: "?f w1 = (s, w2)" by fastforce
  have s': "runs_to ?f (db w1) s (db w2)" using s l(2) by (rule runs_toI)
  note c2 = keeps_clearD [OF keeps_clear_transitions(2) l(2) s]
  have "alone (thread_step ttl pay) (Deciding i b, db w1) (Acked r, db w')"
  proof -
    consider (err) e where "s = Inl e" | (no) "s = Inr False" | (yes) "s = Inr True" by (cases s) auto
    then show ?thesis
    proof cases
      case err
      with assms(1) l(1) s have "r = Inl e" "w' = w2" by (auto simp: Confirm_def bindE_def)
      with thread_end [OF transition_step.decide_error [THEN thread_step.settling, OF s' [unfolded err]]] show ?thesis by simp
    next
      case no
      with assms(1) l(1) s have "bindE (booking_TransitionAndReleaseSeats b ''cancelled'') (\<lambda>_. retE ()) w2 = (r, w')"
        by (auto simp: Confirm_def bindE_def)
      from transition_step.decide_cancel [THEN thread_step.settling, OF s' [unfolded no]] release_thread [OF this c2 l(3)] show ?thesis by (rule thread_go)
    next
      case yes
      with assms(1) l(1) s have "bindE (booking_UpdateStatusIfPending i ''confirmed'') (\<lambda>applied.
          if \<not> applied then retE () else issue_tickets i b (bk_Items b)) w2 = (r, w')"
        by (auto simp: Confirm_def bindE_def)
      from transition_step.decide_confirm [THEN thread_step.settling, OF s' [unfolded yes]] confirming_thread [OF this c2] show ?thesis by (rule thread_go)
    qed
  qed
  with transition_step.paid_pending [THEN thread_step.settling, OF l(4)] show ?thesis by (rule thread_go)
qed

section \<open>What a thread may rely on\<close>

text \<open>The copy of a booking that a thread has read: its items stay true, its status may be stale.\<close>

definition copy_of :: "ticketing_db \<Rightarrow> Booking \<Rightarrow> bool" where
  "copy_of d b \<longleftrightarrow> snapshot d b \<and> bk_ID b \<in> br_ID ` set (bookings d)"

fun thread_ok :: "ticketing_db \<Rightarrow> thread \<Rightarrow> bool" where
  "thread_ok d (Taking u em ev items taken rest) \<longleftrightarrow> items = taken @ rest \<and> (\<forall>it \<in> set items. 0 < bi_Quantity it)"
| "thread_ok d (Priced u em ev items taken rest) \<longleftrightarrow> items = taken @ rest \<and> (\<forall>it \<in> set items. 0 < bi_Quantity it)"
| "thread_ok d (Returning ev its e) \<longleftrightarrow> (\<forall>it \<in> set its. 0 < bi_Quantity it)"
| "thread_ok d (Storing em res) \<longleftrightarrow> (\<forall>it \<in> set (rs_Items res). 0 < bi_Quantity it \<and> bi_BookingID it = rs_BookingID res)"
| "thread_ok d (Deciding i b) \<longleftrightarrow> copy_of d b"
| "thread_ok d (Releasing st bs) \<longleftrightarrow> st \<in> {''expired'', ''cancelled''} \<and> (\<forall>b \<in> set bs. copy_of d b)"
| "thread_ok d _ \<longleftrightarrow> True"

text \<open>The seats in the hands of a thread: taken, and not yet held by a booking or given back.\<close>

fun in_hand :: "thread \<Rightarrow> string \<Rightarrow> int" where
  "in_hand (Taking u em ev items taken rest) t = items_qty t taken"
| "in_hand (Priced u em ev items taken rest) t = items_qty t taken"
| "in_hand (Returning ev its e) t = items_qty t its"
| "in_hand (Storing em res) t = items_qty t (rs_Items res)"
| "in_hand _ t = 0"

lemma in_hand_nonneg: "thread_ok d th \<Longrightarrow> 0 \<le> in_hand th t"
  by (cases th) (auto intro!: items_qty_nonneg intro: less_imp_le)

text \<open>Bookings and their items are only ever added.\<close>

definition grown :: "ticketing_db \<Rightarrow> ticketing_db \<Rightarrow> bool" where
  "grown d d' \<longleftrightarrow> br_ID ` set (bookings d) \<subseteq> br_ID ` set (bookings d') \<and>
     (\<forall>i \<in> br_ID ` set (bookings d). filter (\<lambda>r. ir_BookingID r = i) (booking_items d') = filter (\<lambda>r. ir_BookingID r = i) (booking_items d))"

lemma grown_refl [simp]: "grown d d"
  by (simp add: grown_def)

lemma grown_copy: "grown d d' \<Longrightarrow> copy_of d b \<Longrightarrow> copy_of d' b"
  by (auto simp: grown_def copy_of_def snapshot_def)

lemma grown_ok: "grown d d' \<Longrightarrow> thread_ok d th \<Longrightarrow> thread_ok d' th"
  by (cases th) (auto intro: grown_copy)

lemma grown_frame: "br_ID ` set (bookings d') = br_ID ` set (bookings d) \<Longrightarrow> booking_items d' = booking_items d \<Longrightarrow> grown d d'"
  by (simp add: grown_def)

section \<open>What the steps do\<close>

text \<open>A step with \<open>g\<close> seats in hand before, \<open>g'\<close> after.\<close>

definition fair_move :: "(string \<Rightarrow> int) \<Rightarrow> ticketing_db \<Rightarrow> (string \<Rightarrow> int) \<Rightarrow> ticketing_db \<Rightarrow> bool" where
  "fair_move g d g' d' \<longleftrightarrow> (\<forall>r. covered (\<lambda>t. g t + r t) d \<longrightarrow> covered (\<lambda>t. g' t + r t) d' \<and> grown d d')"

lemma covered_mono: "covered g d \<Longrightarrow> (\<And>t. h t \<le> g t) \<Longrightarrow> covered h d"
  unfolding covered_def by (meson add_left_mono order_trans)

lemma fair_moveD: "fair_move g d g' d' \<Longrightarrow> covered (\<lambda>t. g t + r t) d \<Longrightarrow> covered (\<lambda>t. g' t + r t) d' \<and> grown d d'"
  by (simp add: fair_move_def)

lemma fair_move_same: "(\<And>t. g' t \<le> g t) \<Longrightarrow> fair_move g d g' d"
  unfolding fair_move_def by (auto intro: covered_mono add_right_mono)

lemma fair_move_gain:
  assumes "schema_ok d \<Longrightarrow> no_gain s d d'" "\<And>t. g' t + s t \<le> g t"
  shows "fair_move g d g' d'"
  unfolding fair_move_def
proof (intro allI impI)
  fix r assume c: "covered (\<lambda>t. g t + r t) d"
  then have n: "schema_ok d'" "shifted s d d'" using assms(1) by (auto simp: covered_def no_gain_def)
  have h: "held d' t = held d t" for t using n(2) by (intro held_same) (auto simp: shifted_def active_booking_def)
  have "covered (\<lambda>t. g' t + r t) d'"
    by (rule covered_shifted [OF n(2) refl n(1) c]) (use assms(2) h in \<open>simp add: algebra_simps\<close>)
  with n(2) show "covered (\<lambda>t. g' t + r t) d' \<and> grown d d'" by (auto simp: shifted_def intro: grown_frame)
qed

lemma runs_read: "runs_to f d r d' \<Longrightarrow> read_only f \<Longrightarrow> d' = d"
  by (auto simp: runs_to_def dest: read_onlyD)

lemma runs_preserves: "runs_to f d r d' \<Longrightarrow> preserves I f \<Longrightarrow> I d \<Longrightarrow> I d'"
  by (auto simp: runs_to_def dest: preservesD)

lemma move_take:
  assumes "runs_to (seat_Reserve ev i q) d (Inr ()) d'"
  shows "fair_move g d (\<lambda>t. g t + (if i = t then q else 0)) d'"
proof (rule fair_move_gain)
  obtain n where n: "stmt_Reserve i q d = Inr (n, d')" "n \<noteq> 0"
    using assms by (auto simp: runs_to_def elim: seat_Reserve_Inr)
  show "no_gain (\<lambda>t. if i = t then - q else 0) d d'" if "schema_ok d"
    using stmt_Reserve_shifted [OF schema_ok_tickets [OF that] n] stmt_Reserve_schema [OF n(1) that] by (simp add: no_gain_def)
qed auto

lemma move_short:
  assumes "runs_to (seat_Reserve ev i q) d (Inl e) d'" "0 < q" "\<And>t. g' t \<le> g t"
  shows "fair_move g d g' d'"
  by (rule fair_move_gain [where s = "\<lambda>_. 0"]) (use assms seat_Reserve_Inl in \<open>auto simp: runs_to_def\<close>)

lemma move_return:
  assumes "runs_to (seat_Release ev i q) d r d'" "0 < q"
  shows "fair_move (\<lambda>t. (if i = t then q else 0) + g t) d g d'"
proof (rule fair_move_gain)
  show "no_gain (\<lambda>t. if i = t then q else 0) d d'" if "schema_ok d"
    using assms seat_Release_gain that by (auto simp: runs_to_def)
qed simp

lemma move_store:
  assumes "runs_to (booking_Create b) d (Inr ()) d'" "bk_Status b = ''pending''" "\<forall>it \<in> set (bk_Items b). bi_BookingID it = bk_ID b"
  shows "fair_move (\<lambda>t. items_qty t (bk_Items b)) d (\<lambda>_. 0) d'"
  unfolding fair_move_def
proof (intro allI impI)
  fix r assume c: "covered (\<lambda>t. items_qty t (bk_Items b) + r t) d"
  then have ok: "schema_ok d" by (simp add: covered_def)
  obtain now where d': "d' = d\<lparr>bookings := bookings d @ [head_row b now], booking_items := booking_items d @ map item_row (bk_Items b)\<rparr>"
      "schema_ok d'" "bk_ID b \<notin> br_ID ` set (bookings d)"
    using assms(1) ok by (auto simp: runs_to_def dest: booking_Create_Inr)
  have "held d' t = held d t + items_qty t (bk_Items b)" for t
    unfolding d'(1) by (rule held_new_booking [OF ok]) (use d'(3) assms(2,3) in \<open>simp_all add: head_row_def active_status_def\<close>)
  with c d' have "covered (\<lambda>t. 0 + r t) d'" by (simp add: covered_def algebra_simps)
  moreover have "grown d d'"
  proof -
    have "\<forall>i \<in> br_ID ` set (bookings d). filter (\<lambda>x. ir_BookingID x = i) (map item_row (bk_Items b)) = []"
      using assms(3) d'(3) by (auto simp: filter_empty_conv item_row_def)
    with d'(1) show ?thesis by (auto simp: grown_def)
  qed
  ultimately show "covered (\<lambda>t. 0 + r t) d' \<and> grown d d'" ..
qed

text \<open>Steps that keep what is held or free the seats of a booking.\<close>

lemma ids_transition:
  assumes "stmt_transition i st st' d = Inr (n, d')"
  shows "br_ID ` set (bookings d') = br_ID ` set (bookings d)" "booking_items d' = booking_items d"
proof -
  show "br_ID ` set (bookings d') = br_ID ` set (bookings d)"
    using arg_cong [OF stmt_transition_frame(6) [OF assms], of "\<lambda>bs. set (map br_ID bs)"] by (simp add: map_update_where)
  show "booking_items d' = booking_items d" by (rule stmt_transition_frame(3) [OF assms])
qed

lemma move_confirm:
  assumes "runs_to (booking_UpdateStatusIfPending i ''confirmed'') d r d'"
  shows "fair_move g d g d'"
  unfolding fair_move_def
proof (intro allI impI)
  fix x assume c: "covered (\<lambda>t. g t + x t) d"
  let ?I = "\<lambda>d1. covered (\<lambda>t. g t + x t) d1 \<and> br_ID ` set (bookings d1) = br_ID ` set (bookings d) \<and> booking_items d1 = booking_items d"
  have "?I d2" if "?I d1" "stmt_transition i ''pending'' ''confirmed'' d1 = Inr (n, d2)" for d1 d2 n
    using transition_active_covered [OF that(2)] ids_transition [OF that(2)] that(1) by (simp add: active_status_def)
  then have "preserves ?I (booking_UpdateStatusIfPending i ''confirmed'')"
    unfolding booking_UpdateStatusIfPending_def by (intro preserve)
  from runs_preserves [OF assms this] c show "covered (\<lambda>t. g t + x t) d' \<and> grown d d'" by (simp add: grown_frame)
qed

lemma move_issue:
  assumes "runs_to (outbox_Insert tp k p) d r d'"
  shows "fair_move g d g d'"
  unfolding fair_move_def
proof (intro allI impI)
  fix x assume c: "covered (\<lambda>t. g t + x t) d"
  have "preserves (\<lambda>d1. covered (\<lambda>t. g t + x t) d1 \<and> bookings d1 = bookings d \<and> booking_items d1 = booking_items d) (outbox_Insert tp k p)"
    by (rule preserves_outbox_Insert_frame) (simp add: covered_def held_def active_booking_def)
  from runs_preserves [OF assms this] c show "covered (\<lambda>t. g t + x t) d' \<and> grown d d'" by (auto intro: grown_frame)
qed

lemma move_release:
  assumes "runs_to (booking_TransitionAndReleaseSeats b st) d r d'" "copy_of d b"
    and "bk_Status b = ''confirmed'' \<or> bk_Status b = ''pending''" "st \<in> {''expired'', ''cancelled''}"
  shows "fair_move g d g d'"
  unfolding fair_move_def
proof (intro allI impI)
  fix x assume c: "covered (\<lambda>t. g t + x t) d"
  obtain w w' where w: "db w = d" "booking_TransitionAndReleaseSeats b st w = (r, w')" "db w' = d'"
    using assms(1) by (auto simp: runs_to_def)
  have "covered (\<lambda>t. g t + x t) d' \<and> booking_items d' = booking_items d"
    using hoare_same [OF TransitionAndReleaseSeats_covered [of b st "\<lambda>t. g t + x t" "booking_items d"] _ w(2)] assms(2-4) c w(1,3)
    by (auto simp: active_status_def copy_of_def)
  moreover have "br_ID ` set (bookings d') = br_ID ` set (bookings d)"
  proof -
    define I where "I d1 \<longleftrightarrow> br_ID ` set (bookings d1) = br_ID ` set (bookings d)" for d1 :: ticketing_db
    have rel: "I d2" if "I d1" "stmt_Release t q d1 = Inr (n, d2)" for t q d1 n d2
      using tickets_only_frame [OF stmt_Release_only [OF that(2)]] that(1) by (simp add: I_def)
    have tr: "I d2" if "I d1" "stmt_transition i s s' d1 = Inr (n, d2)" for i s s' d1 n d2
      using ids_transition [OF that(2)] that(1) by (simp add: I_def)
    have "preserves I (release_items items)" for items by (induction items) (auto intro!: preserve elim: rel)
    then have body: "preserves I (release_body b st)" by (auto intro!: preserve elim: tr)
    have "preserves I (booking_TransitionAndReleaseSeats b st)"
      unfolding booking_TransitionAndReleaseSeats_def by (rule preserves_withTx) (metis preservesD [OF body] snd_conv)
    from runs_preserves [OF assms(1) this] show ?thesis by (simp add: I_def)
  qed
  ultimately show "covered (\<lambda>t. g t + x t) d' \<and> grown d d'" by (auto intro: grown_frame)
qed

section \<open>No interleaving oversells\<close>

abbreviation always_accepts :: initiate_call where
  "always_accepts \<equiv> \<lambda>i ev u em tot ex. None"

lemmas thread_reads =
  runs_read [OF _ read_only_seat_GetPrice] runs_read [OF _ read_only_loadPendingBooking]
  runs_read [OF _ read_only_event_queries(3)]

lemma load_copy:
  assumes "runs_to (loadPendingBooking i) d (Inr (Some b)) d'"
  shows "copy_of d b" "bk_Status b = ''pending''" "d' = d"
  using assms thread_reads(2) [OF assms] by (auto simp: runs_to_def copy_of_def dest!: loadPendingBooking_Inr)

lemma list_copies:
  assumes "runs_to (booking_ListByEventID ev) d (Inr bs) d'"
  shows "d' = d" "\<forall>b \<in> set bs. copy_of d b"
proof -
  obtain w w' where w: "db w = d" "list_bookings (\<lambda>b. br_EventID b = ev) w = (Inr bs, w')" "db w' = d'"
    using assms by (auto simp: runs_to_def booking_ListByEventID_def)
  show "d' = d" using read_onlyD [OF read_only_list_bookings w(2)] w by simp
  show "\<forall>b \<in> set bs. copy_of d b" using list_bookings_snapshot [OF w(2)] w(1) by (force simp: copy_of_def image_iff)
qed

lemma create_refused: "runs_to (booking_Create b) d (Inl e) d' \<Longrightarrow> d' = d"
  by (auto simp: runs_to_def dest: booking_Create_clear)

lemma list_refused: "runs_to (booking_ListByEventID ev) d (Inl e) d' \<Longrightarrow> d' = d"
  by (auto simp: runs_to_def booking_ListByEventID_def dest: read_onlyD [OF read_only_list_bookings])

lemma in_hand_eqs:
  "in_hand (Taking u em ev items taken rest) = (\<lambda>t. items_qty t taken)" "in_hand (Priced u em ev items taken rest) = (\<lambda>t. items_qty t taken)"
  "in_hand (Returning ev its e) = (\<lambda>t. items_qty t its)" "in_hand (Storing em res) = (\<lambda>t. items_qty t (rs_Items res))"
  "in_hand (Stored em res) = (\<lambda>_. 0)" "in_hand (Replied r) = (\<lambda>_. 0)" "in_hand (PaidFor i) = (\<lambda>_. 0)" "in_hand (ExpiredFor i) = (\<lambda>_. 0)"
  "in_hand (CancelledFor ev) = (\<lambda>_. 0)" "in_hand (Deciding i b) = (\<lambda>_. 0)" "in_hand (Confirming i b) = (\<lambda>_. 0)"
  "in_hand (Issuing i b its) = (\<lambda>_. 0)" "in_hand (Releasing st bs) = (\<lambda>_. 0)" "in_hand (Acked a) = (\<lambda>_. 0)"
  by (simp_all add: fun_eq_iff)

lemma move_give_up: "\<forall>it \<in> set its. 0 < bi_Quantity it \<Longrightarrow> fair_move (\<lambda>t. items_qty t its) d (\<lambda>_. 0) d"
  by (rule fair_move_same) (auto intro!: items_qty_nonneg intro: less_imp_le)

lemma reserve_fair:
  assumes "reserve_step ttl always_accepts th d th' d'" "thread_ok d th"
  shows "fair_move (in_hand th) d (in_hand th') d'"
  using assms
proof (induction rule: reserve_step.induct)
  case (take_seats ev it d d' u em items taken rest)
  from move_take [OF this(1), of "\<lambda>t. items_qty t taken"] show ?case by (simp add: in_hand_eqs)
next
  case (no_seats ev it d e d' u em items taken rest)
  let ?P = "\<lambda>rb. bi_TicketTypeID rb \<noteq> bi_TicketTypeID it"
  obtain ys where ys: "taken = takeWhile ?P (taken @ it # rest) @ ys" using takeWhile_before [of ?P it] by fastforce
  have pos: "\<forall>x \<in> set (taken @ it # rest). 0 < bi_Quantity x" using no_seats.prems by simp
  have nonneg: "\<forall>x \<in> set ys. 0 \<le> bi_Quantity x"
    using pos ys by (metis UnCI less_imp_le set_append)
  have "items_qty t (takeWhile ?P (taken @ it # rest)) \<le> items_qty t taken" for t
    by (subst (2) ys) (use items_qty_nonneg [OF nonneg] in simp)
  with no_seats show ?case unfolding in_hand_eqs by (intro move_short) auto
next
  case (store res d d' em)
  from move_store [OF this(1)] store.prems show ?case by (simp add: in_hand_eqs booking_of_def)
next
  case (return_seats ev it d r d' rest e)
  from move_return [OF this(1), of "\<lambda>t. items_qty t rest"] return_seats.prems show ?case by (simp add: in_hand_eqs)
qed (auto simp: in_hand_eqs new_reservation_def fair_move_same intro: move_give_up dest: thread_reads create_refused)

lemma transition_fair:
  assumes "transition_step th d th' d'" "thread_ok d th"
  shows "fair_move (in_hand th) d (in_hand th') d'"
  using assms
proof (induction rule: transition_step.induct)
  case (release b st d applied d' bs)
  with move_release [OF release(2), of "\<lambda>_. 0"] show ?case by (simp add: in_hand_eqs)
next
  case (release_error b st d e d' bs)
  with move_release [OF release_error(2), of "\<lambda>_. 0"] show ?case by (simp add: in_hand_eqs)
qed (auto simp: in_hand_eqs fair_move_same
    dest: move_confirm [where g = "\<lambda>_. 0"] move_issue [where g = "\<lambda>_. 0"] thread_reads list_refused list_copies(1))

lemma reserve_ok:
  assumes "reserve_step ttl always_accepts th d th' d'" "thread_ok d th"
  shows "thread_ok d' th'"
  using assms
proof (induction rule: reserve_step.induct)
  case (build u em ev items taken d i src n t1 now)
  then have "\<forall>it \<in> set (stamped i src n items). 0 < bi_Quantity it" by simp
  with stamped_booking [of i src n items] show ?case by (simp add: new_reservation_def)
next
  case (no_seats ev it d e d' u em items taken rest)
  then show ?case by (auto dest!: set_takeWhileD)
qed auto

lemma transition_ok: "transition_step th d th' d' \<Longrightarrow> thread_ok d th \<Longrightarrow> grown d d' \<Longrightarrow> thread_ok d' th'"
proof (induction rule: transition_step.induct)
  case (list_bookings ev d bs d')
  then show ?case using list_copies [OF list_bookings(1)] by simp
qed (auto dest: grown_copy load_copy(1))

lemma step_fair: "thread_step ttl always_accepts th d th' d' \<Longrightarrow> thread_ok d th \<Longrightarrow> fair_move (in_hand th) d (in_hand th') d'"
  by (cases rule: thread_step.cases) (auto intro: reserve_fair transition_fair)

lemma step_ok: "thread_step ttl always_accepts th d th' d' \<Longrightarrow> thread_ok d th \<Longrightarrow> grown d d' \<Longrightarrow> thread_ok d' th'"
  by (cases rule: thread_step.cases) (auto intro: reserve_ok transition_ok)

interpretation booking_pool: interference_free "thread_step ttl always_accepts" begins thread_ok in_hand covered for ttl
proof unfold_locales
  fix t d t' d' and r :: "string \<Rightarrow> int"
  assume "thread_step ttl always_accepts t d t' d'" "thread_ok d t" "covered (\<lambda>k. in_hand t k + r k) d"
  with fair_moveD [OF step_fair] step_ok show "covered (\<lambda>k. in_hand t' k + r k) d' \<and> thread_ok d' t'" by blast
next
  fix t d t' d' s and r :: "string \<Rightarrow> int"
  assume a: "thread_step ttl always_accepts t d t' d'" "thread_ok d t" "covered (\<lambda>k. in_hand t k + r k) d" "thread_ok d s"
  have "grown d d'" using fair_moveD [OF step_fair [OF a(1,2)] a(3)] by simp
  then show "thread_ok d' s" using a(4) by (rule grown_ok)
next
  fix t d k assume "begins t"
  then show "thread_ok d t" "in_hand t k = 0" by (cases t; simp)+
qed (auto intro: in_hand_nonneg covered_mono)

text \<open>
  Property C1: seats are never oversold, however the requests and messages are interleaved. Any
  number of reservations, confirmations, expiries and cancellations run at the same time, each of
  their statements and transactions in any order and any of them refused by the database; at every
  moment the schema holds, the seats that are free and those that bookings hold fit the ticket
  type, and so no more seats are held than there are. The payment service accepts the bookings
  and no statement is applied while its reply is lost.
\<close>

theorem interleaving_never_oversells:
  assumes "pool_runs (thread_step ttl always_accepts) begins ([], d) (ts, d')" "inventory_ok d"
  shows "inventory_ok d' \<and> (\<forall>t \<in> set (ticket_types d'). held d' (tt_ID t) \<le> tt_Quantity t)"
proof -
  have ok: "inventory_ok d'"
    using booking_pool.always [OF assms(1)] assms(2) by (simp add: inventory_covered)
  have "held d' (tt_ID t) \<le> tt_Quantity t" if "t \<in> set (ticket_types d')" for t
  proof -
    have "0 \<le> tt_Available t" using inventory_okD(1) [OF ok] that by (simp add: schema_ok_def ticket_check_def)
    moreover have "tt_Available t + held d' (tt_ID t) \<le> tt_Quantity t"
      using inventory_okD(2) [OF ok] that by (simp add: no_oversell_def)
    ultimately show ?thesis by simp
  qed
  with ok show ?thesis by blast
qed

text \<open>
  Property C2: the threads are the code. Whatever \<^verbatim>\<open>Reserve\<close>, \<^verbatim>\<open>Confirm\<close>,
  \<^verbatim>\<open>ExpireOnPaymentExpired\<close> or \<^verbatim>\<open>CancelBookings\<close> answer and leave when they have the database to
  themselves, with any statements refused and any answer of the payment service, their thread
  reaches the same answer and the same database in its own steps.
\<close>

theorem operations_are_threads:
  assumes "clear w"
  shows "(items \<noteq> [] \<and> Reserve ttl pay u em ev items w = (r, w') \<longrightarrow>
      alone (thread_step ttl pay) (Taking u em ev items [] items, db w) (Replied r, db w')) \<and>
    (Confirm i p w = (a, w') \<longrightarrow> alone (thread_step ttl pay) (PaidFor i, db w) (Acked a, db w')) \<and>
    (ExpireOnPaymentExpired i w = (a, w') \<longrightarrow> alone (thread_step ttl pay) (ExpiredFor i, db w) (Acked a, db w')) \<and>
    (CancelBookings ev w = (a, w') \<longrightarrow> alone (thread_step ttl pay) (CancelledFor ev, db w) (Acked a, db w'))"
  using assms by (blast intro: Reserve_thread Confirm_thread Expire_thread CancelBookings_thread)

end
