(* ===== verification/Kafka_Topics.thy ===== *)
theory Kafka_Topics
  imports Consumers
begin

text \<open>
  The topics of the services: \<^verbatim>\<open>EnsureTopics\<close> of \<^verbatim>\<open>pkg/kafka/kafka.go\<close> and its calls at the start of
  the ticketing and the payment service. The Kafka library is an argument; \<open>admin_law\<close> states what
  its documentation says about the creation of topics.
\<close>

section \<open>Creating topics\<close>

datatype create_answer = CreateNil | TopicAlreadyExists | CreateError string

text \<open>
  The calls of the library: dialling an address, the number of live brokers, the address of the
  controller, and the creation of a topic with partitions and replication factor on a cluster.
\<close>

record 's kafka_admin =
  ka_Dial :: "string \<Rightarrow> string option"
  ka_Brokers :: "string + nat"
  ka_Controller :: "string + string"
  ka_CreateTopics :: "string \<Rightarrow> int \<Rightarrow> int \<Rightarrow> 's \<Rightarrow> create_answer \<times> 's"

datatype topics_error =
    NoAddress
  | DialFailed string
  | ListBrokersFailed string
  | NoLiveBrokers
  | ControllerFailed string
  | DialControllerFailed string
  | CreateFailed string string

fun create_topics :: "'s kafka_admin \<Rightarrow> string list \<Rightarrow> int \<Rightarrow> int \<Rightarrow> 's \<Rightarrow> (topics_error + unit) \<times> 's" where
  "create_topics k [] partitions replicas s = (Inr (), s)"
| "create_topics k (topic # topics) partitions replicas s =
     (case ka_CreateTopics k topic partitions replicas s of
        (CreateNil, s') \<Rightarrow> create_topics k topics partitions replicas s'
      | (TopicAlreadyExists, s') \<Rightarrow> create_topics k topics partitions replicas s'
      | (CreateError e, s') \<Rightarrow> (Inl (CreateFailed topic e), s'))"

text \<open>\<^verbatim>\<open>brokers[0]\<close> panics on an empty list (\<open>NoAddress\<close>).\<close>

definition EnsureTopics ::
    "'s kafka_admin \<Rightarrow> string list \<Rightarrow> string list \<Rightarrow> int \<Rightarrow> int \<Rightarrow> 's \<Rightarrow> (topics_error + unit) \<times> 's" where
  "EnsureTopics k brokers topics partitions replicas s =
     (case brokers of
        [] \<Rightarrow> (Inl NoAddress, s)
      | addr # _ \<Rightarrow>
          (case ka_Dial k addr of
             Some e \<Rightarrow> (Inl (DialFailed e), s)
           | None \<Rightarrow>
               (case ka_Brokers k of
                  Inl e \<Rightarrow> (Inl (ListBrokersFailed e), s)
                | Inr n \<Rightarrow>
                    if n = 0 then (Inl NoLiveBrokers, s)
                    else
                      (let replicas' = (if int n < replicas then int n else replicas)
                       in case ka_Controller k of
                            Inl e \<Rightarrow> (Inl (ControllerFailed e), s)
                          | Inr c \<Rightarrow>
                              (case ka_Dial k c of
                                 Some e \<Rightarrow> (Inl (DialControllerFailed e), s)
                               | None \<Rightarrow> create_topics k topics partitions replicas' s)))))"

section \<open>The topics of the services\<close>

definition ticketing_EnsureTopics :: "'s kafka_admin \<Rightarrow> string list \<Rightarrow> 's \<Rightarrow> (topics_error + unit) \<times> 's" where
  "ticketing_EnsureTopics k kafkaBrokers =
     EnsureTopics k kafkaBrokers [''event.cancelled'', ''ticket.issued'', ''payment.completed'', ''payment.expired''] 4 3"

definition payment_EnsureTopics :: "'s kafka_admin \<Rightarrow> string list \<Rightarrow> 's \<Rightarrow> (topics_error + unit) \<times> 's" where
  "payment_EnsureTopics k kafkaBrokers =
     EnsureTopics k kafkaBrokers [''event.cancelled'', ''payment.completed'', ''payment.expired''] 4 3"

section \<open>What is there afterwards\<close>

text \<open>
  \<open>repl s t\<close> is the replication factor of a topic that exists on the cluster. A call creates the topic with
  the factor asked for if it does not exist, and never changes one that exists. If it returns nil
  (\<open>CreateNil\<close>), the topic exists afterwards, whether this call created it or not; the error
  \<^verbatim>\<open>TopicAlreadyExists\<close> is only given for a topic that exists; any other error may come before or after
  the topic was created.
\<close>

definition admin_law :: "('s \<Rightarrow> string \<rightharpoonup> int) \<Rightarrow> 's kafka_admin \<Rightarrow> bool" where
  "admin_law repl k \<longleftrightarrow> (\<forall>t p r s.
     case ka_CreateTopics k t p r s of
       (CreateNil, s') \<Rightarrow> repl s' = (if repl s t = None then (repl s)(t \<mapsto> r) else repl s)
     | (TopicAlreadyExists, s') \<Rightarrow> repl s t \<noteq> None \<and> repl s' = repl s
     | (CreateError e, s') \<Rightarrow> repl s' = repl s \<or> repl s t = None \<and> repl s' = (repl s)(t \<mapsto> r))"

lemma admin_lawE:
  assumes "admin_law repl k" "ka_CreateTopics k t p r s = (a, s')"
  obtains "a = CreateNil" "repl s' = (if repl s t = None then (repl s)(t \<mapsto> r) else repl s)"
    | "a = TopicAlreadyExists" "repl s t \<noteq> None" "repl s' = repl s"
    | e where "a = CreateError e" "repl s' = repl s \<or> repl s t = None \<and> repl s' = (repl s)(t \<mapsto> r)"
proof -
  have "case (a, s') of
       (CreateNil, s') \<Rightarrow> repl s' = (if repl s t = None then (repl s)(t \<mapsto> r) else repl s)
     | (TopicAlreadyExists, s') \<Rightarrow> repl s t \<noteq> None \<and> repl s' = repl s
     | (CreateError e, s') \<Rightarrow> repl s' = repl s \<or> repl s t = None \<and> repl s' = (repl s)(t \<mapsto> r)"
    using assms(1) [unfolded admin_law_def, THEN spec [of _ t], THEN spec [of _ p], THEN spec [of _ r], THEN spec [of _ s]]
    unfolding assms(2) .
  then show thesis using that by (cases a) auto
qed

definition with_topics :: "string list \<Rightarrow> int \<Rightarrow> (string \<rightharpoonup> int) \<Rightarrow> (string \<rightharpoonup> int)" where
  "with_topics ts r m = (\<lambda>t. if t \<in> set ts \<and> m t = None then Some r else m t)"

lemma create_topics_Inr:
  "admin_law repl k \<Longrightarrow> create_topics k ts p r s = (Inr u, s') \<Longrightarrow> repl s' = with_topics ts r (repl s)"
proof (induction ts arbitrary: s)
  case (Cons t ts)
  obtain a s1 where c: "ka_CreateTopics k t p r s = (a, s1)" by fastforce
  show ?case
  proof (rule admin_lawE [OF Cons.prems(1) c])
    assume a: "a = CreateNil" "repl s1 = (if repl s t = None then (repl s)(t \<mapsto> r) else repl s)"
    with Cons.IH [OF Cons.prems(1), of s1] Cons.prems(2) c show ?case by (auto simp: with_topics_def fun_eq_iff)
  next
    assume a: "a = TopicAlreadyExists" "repl s t \<noteq> None" "repl s1 = repl s"
    with Cons.IH [OF Cons.prems(1), of s1] Cons.prems(2) c show ?case by (auto simp: with_topics_def fun_eq_iff)
  qed (use Cons.prems(2) c in auto)
qed (simp add: with_topics_def)

lemma create_topics_keeps: "admin_law repl k \<Longrightarrow> create_topics k ts p r s = (res, s') \<Longrightarrow> repl s \<subseteq>\<^sub>m repl s'"
proof (induction ts arbitrary: s)
  case (Cons t ts)
  obtain a s1 where c: "ka_CreateTopics k t p r s = (a, s1)" by fastforce
  have "repl s \<subseteq>\<^sub>m repl s1" by (rule admin_lawE [OF Cons.prems(1) c]) (auto simp: map_le_def split: if_splits)
  moreover have "repl s1 \<subseteq>\<^sub>m repl s'"
    using Cons.IH [OF Cons.prems(1), of s1] Cons.prems(2) c by (auto split: create_answer.splits)
  ultimately show ?case by (rule map_le_trans)
qed simp

lemma EnsureTopics_Inr:
  assumes "admin_law repl k" "EnsureTopics k brokers ts p r s = (Inr u, s')"
  shows "\<exists>n. ka_Brokers k = Inr n \<and> 0 < n \<and> repl s' = with_topics ts (min r (int n)) (repl s)"
proof -
  obtain n where n: "ka_Brokers k = Inr n" "0 < n" "create_topics k ts p (if int n < r then int n else r) s = (Inr u, s')"
    using assms(2) by (auto simp: EnsureTopics_def Let_def split: list.splits option.splits sum.splits if_splits)
  moreover have "(if int n < r then int n else r) = min r (int n)" by auto
  ultimately show ?thesis using create_topics_Inr [OF assms(1) n(3)] by auto
qed

lemma EnsureTopics_keeps: "admin_law repl k \<Longrightarrow> EnsureTopics k brokers ts p r s = (res, s') \<Longrightarrow> repl s \<subseteq>\<^sub>m repl s'"
  by (auto simp: EnsureTopics_def Let_def split: list.splits option.splits sum.splits if_splits dest: create_topics_keeps)

text \<open>
  No consumer is starved. When the ticketing and the payment service have made sure of their topics, in
  whatever state the cluster was, every topic they consume and every topic they publish exists;
  a topic that they created is replicated on at least one and on no more brokers than there are,
  a topic that existed was left alone.
\<close>

lemma services_have_topics:
  assumes "admin_law repl k" "ticketing_EnsureTopics k bs s = (Inr (), s1)" "payment_EnsureTopics k bs' s1 = (Inr (), s2)"
    and "StartConsumers topic \<noteq> None \<or> payment_StartConsumer topic \<noteq> None \<or>
      topic \<in> {''event.cancelled'', ''ticket.issued'', ''payment.completed'', ''payment.expired''}"
  shows "\<exists>r n. repl s2 topic = Some r \<and> ka_Brokers k = Inr n \<and> (repl s topic = None \<longrightarrow> 1 \<le> r \<and> r \<le> int n) \<and> repl s \<subseteq>\<^sub>m repl s2"
proof -
  let ?ts = "[''event.cancelled'', ''ticket.issued'', ''payment.completed'', ''payment.expired'']"
  obtain n where n: "ka_Brokers k = Inr n" "0 < n" "repl s1 = with_topics ?ts (min 3 (int n)) (repl s)"
    using EnsureTopics_Inr [OF assms(1) assms(2) [unfolded ticketing_EnsureTopics_def]] by auto
  have keep: "repl s \<subseteq>\<^sub>m repl s1" "repl s1 \<subseteq>\<^sub>m repl s2"
    using EnsureTopics_keeps [OF assms(1)] assms(2,3) unfolding ticketing_EnsureTopics_def payment_EnsureTopics_def by blast+
  have "topic \<in> set ?ts"
    using assms(4) StartConsumers_topics [of topic] by (auto simp: payment_StartConsumer_def split: if_splits)
  then obtain r where r: "repl s1 topic = Some r" "repl s topic = None \<longrightarrow> 1 \<le> r \<and> r \<le> int n"
    using n(2,3) by (cases "repl s topic") (auto simp: with_topics_def)
  moreover have "repl s2 topic = Some r" using keep(2) r(1) by (auto simp: map_le_def dest: bspec [of _ _ topic])
  ultimately show ?thesis using n(1) map_le_trans [OF keep] by (intro exI [of _ r] exI [of _ n]) simp
qed

section \<open>A cluster of two brokers\<close>

definition sample_admin :: "(string \<rightharpoonup> int) kafka_admin" where
  "sample_admin = \<lparr>ka_Dial = (\<lambda>_. None), ka_Brokers = Inr 2, ka_Controller = Inr ''b:9092'',
     ka_CreateTopics = (\<lambda>t p r m. if m t = None then (CreateNil, m(t \<mapsto> r)) else if p < 4 then (TopicAlreadyExists, m) else (CreateNil, m))\<rparr>"

lemma sample_admin_law: "admin_law id sample_admin"
  by (simp add: admin_law_def sample_admin_def)

lemma sample_creates: "fst (create_topics sample_admin ts p r s) = Inr ()"
  by (induction ts arbitrary: s) (simp_all add: sample_admin_def)

lemma sample_ensures: "fst (EnsureTopics sample_admin [addr] ts p r s) = Inr ()"
  using sample_creates [of ts p _ s] by (simp add: EnsureTopics_def) (simp add: sample_admin_def)

end
