(* ===== verification/Telemetry.thy ===== *)
theory Telemetry
  imports Http
begin

text \<open>
  What the services record about themselves: \<^verbatim>\<open>pkg/telemetry\<close>, the access log and the counters of
  \<^verbatim>\<open>pkg/http/requestlog.go\<close> and the logger of \<^verbatim>\<open>pkg/log\<close>. The OpenTelemetry SDK is an argument: whether
  its exporters can be built, and what shutting a provider down returns.
\<close>

section \<open>Instruments\<close>

record HTTPMetrics =
  haveInFl :: bool
  haveMetric :: bool

text \<open>The readings of the instruments, and the lines of the access log.\<close>

record access_line =
  al_method :: string
  al_path :: string
  al_status :: int

record meter =
  inFlight :: int
  requests :: "(string \<times> string \<times> int) list"
  access_log :: "access_line list"

text \<open>\<open>counterErr\<close> and \<open>gaugeErr\<close> are what the SDK answers when the two instruments are created.\<close>

definition NewHTTPMetrics :: "string option \<Rightarrow> string option \<Rightarrow> HTTPMetrics" where
  "NewHTTPMetrics counterErr gaugeErr = \<lparr>haveInFl = (gaugeErr = None), haveMetric = (counterErr = None)\<rparr>"

text \<open>A nil \<^verbatim>\<open>*HTTPMetrics\<close> is \<open>None\<close>.\<close>

definition Started :: "HTTPMetrics option \<Rightarrow> meter \<Rightarrow> meter" where
  "Started h m = (case h of None \<Rightarrow> m | Some x \<Rightarrow> if \<not> haveInFl x then m else m\<lparr>inFlight := inFlight m + 1\<rparr>)"

definition Unstarted :: "HTTPMetrics option \<Rightarrow> meter \<Rightarrow> meter" where
  "Unstarted h m = (case h of None \<Rightarrow> m | Some x \<Rightarrow> if \<not> haveInFl x then m else m\<lparr>inFlight := inFlight m + (- 1)\<rparr>)"

definition Observed :: "HTTPMetrics option \<Rightarrow> string \<Rightarrow> string \<Rightarrow> int \<Rightarrow> meter \<Rightarrow> meter" where
  "Observed h method route status m =
     (case h of None \<Rightarrow> m | Some x \<Rightarrow> if \<not> haveMetric x then m else m\<lparr>requests := requests m @ [(method, route, status)]\<rparr>)"

section \<open>The access log\<close>

text \<open>
  A handler answers or panics. \<open>method\<close>, \<open>pattern\<close> and \<open>urlPath\<close> are what the request and the router
  know about it once the handler has returned; the pattern is empty when no route matched.
\<close>

datatype 'a served = Handled 'a | Panicked

definition has_suffix :: "string \<Rightarrow> string \<Rightarrow> bool" where
  "has_suffix s suffix \<longleftrightarrow> cut_prefix (rev suffix) (rev s) \<noteq> None"

definition RequestLogger ::
    "HTTPMetrics option \<Rightarrow> (request \<Rightarrow> string) \<Rightarrow> (request \<Rightarrow> string) \<Rightarrow> (request \<Rightarrow> string) \<Rightarrow>
     (request \<Rightarrow> 'd world \<Rightarrow> 'e http_response served \<times> 'd world) \<Rightarrow>
     request \<Rightarrow> meter \<times> 'd world \<Rightarrow> 'e http_response served \<times> meter \<times> 'd world" where
  "RequestLogger m method pattern urlPath nxt r s =
     (let (mt, w) = s;
          mt = Started m mt;
          (res, w') = nxt r w
      in case res of
           Panicked \<Rightarrow> (Panicked, Unstarted m mt, w')
         | Handled resp \<Rightarrow>
             (let path = (if pattern r = '''' then urlPath r else pattern r)
              in if has_suffix path ''/health'' then (Handled resp, Unstarted m mt, w')
                 else
                   (let mt = Observed m (method r) path (hr_status resp) mt;
                        mt = mt\<lparr>access_log := access_log mt @ [\<lparr>al_method = method r, al_path = path, al_status = hr_status resp\<rparr>]\<rparr>
                    in (Handled resp, Unstarted m mt, w'))))"

lemma has_suffix_iff: "has_suffix s t \<longleftrightarrow> (\<exists>r. s = r @ t)"
proof -
  have "rev s = rev t @ x \<longleftrightarrow> s = rev x @ t" for x by (metis rev_append rev_rev_ident)
  then show ?thesis unfolding has_suffix_def by (auto simp: cut_prefix_iff not_None_eq) (metis rev_rev_ident)
qed

definition is_health :: "string \<Rightarrow> bool" where
  "is_health path \<longleftrightarrow> (\<exists>r. path = r @ ''/health'')"

lemma instruments_sel [simp]:
  "access_log (Started h m) = access_log m" "access_log (Unstarted h m) = access_log m" "access_log (Observed h a b c m) = access_log m"
  "requests (Started h m) = requests m" "requests (Unstarted h m) = requests m"
  "inFlight (Observed h a b c m) = inFlight m" "inFlight (Unstarted h (Started h m)) = inFlight m"
  "inFlight (Unstarted h (m\<lparr>access_log := l\<rparr>)) = inFlight (Unstarted h m)"
  "inFlight (Unstarted h (Observed g a b c m)) = inFlight (Unstarted h m)"
  by (auto simp: Started_def Unstarted_def Observed_def split: option.split)

text \<open>
  The middleware is transparent: the answer and the database are those of the handler, whether it
  answers or panics; the number of requests in flight is what it was; and exactly the requests
  that were answered and are not health checks leave one line with their status.
\<close>

definition new_lines :: "(request \<Rightarrow> string) \<Rightarrow> string \<Rightarrow> request \<Rightarrow> 'e http_response served \<Rightarrow> access_line list" where
  "new_lines method path r res =
     (case res of
        Handled resp \<Rightarrow> if is_health path then [] else [\<lparr>al_method = method r, al_path = path, al_status = hr_status resp\<rparr>]
      | Panicked \<Rightarrow> [])"

definition counted :: "HTTPMetrics option \<Rightarrow> access_line list \<Rightarrow> (string \<times> string \<times> int) list" where
  "counted m ls = (case m of Some h \<Rightarrow> if haveMetric h then map (\<lambda>l. (al_method l, al_path l, al_status l)) ls else [] | None \<Rightarrow> [])"

lemma requests_Observed: "requests (Observed m a b c mt) = requests mt @ counted m [\<lparr>al_method = a, al_path = b, al_status = c\<rparr>]"
  by (simp add: Observed_def counted_def split: option.split)

lemma counted_Nil [simp]: "counted m [] = []"
  by (simp add: counted_def split: option.split)

theorem RequestLogger_transparent:
  assumes "RequestLogger m method pattern urlPath nxt r (mt, w) = (res, mt', w')"
    and "path = (if pattern r = [] then urlPath r else pattern r)"
  shows "(res, w') = nxt r w \<and> inFlight mt' = inFlight mt \<and>
    access_log mt' = access_log mt @ new_lines method path r res \<and>
    requests mt' = requests mt @ counted m (new_lines method path r res)"
proof -
  obtain res1 w1 where n: "nxt r w = (res1, w1)" by fastforce
  show ?thesis
  proof (cases res1)
    case Panicked
    with assms(1) n show ?thesis by (auto simp: RequestLogger_def new_lines_def)
  next
    case (Handled resp)
    show ?thesis
    proof (cases "is_health path")
      case True
      then have "has_suffix path ''/health''" by (simp add: has_suffix_iff is_health_def)
      with assms n Handled True show ?thesis by (auto simp: RequestLogger_def new_lines_def Let_def)
    next
      case False
      then have "\<not> has_suffix path ''/health''" by (simp add: has_suffix_iff is_health_def)
      with assms n Handled False show ?thesis by (auto simp: RequestLogger_def new_lines_def Let_def requests_Observed)
    qed
  qed
qed

section \<open>Starting and stopping the providers\<close>

text \<open>What \<^verbatim>\<open>Init\<close> installs globally, and what its exporters and shutdowns answer.\<close>

record providers =
  pv_propagator :: bool
  pv_tracer :: bool
  pv_meter :: bool

record otel_sdk =
  sdk_endpoint :: string
  sdk_traceExporter :: "string option"
  sdk_metricExporter :: "string option"
  sdk_counter :: "string option"
  sdk_gauge :: "string option"

definition tracesEnabled :: "otel_sdk \<Rightarrow> bool" where
  "tracesEnabled sdk \<longleftrightarrow> sdk_endpoint sdk \<noteq> []"

definition newMeterProvider :: "otel_sdk \<Rightarrow> string + bool" where
  "newMeterProvider sdk =
     (if \<not> tracesEnabled sdk then Inr False
      else case sdk_metricExporter sdk of Some err \<Rightarrow> Inl err | None \<Rightarrow> Inr True)"

text \<open>Which providers the function for the shutdown flushes, the metrics of the middleware, the error.\<close>

datatype flush = FlushNothing | FlushTraces | FlushBoth

definition telemetry_Init :: "otel_sdk \<Rightarrow> providers \<Rightarrow> (flush \<times> HTTPMetrics option \<times> string option) \<times> providers" where
  "telemetry_Init sdk p =
     (let p = p\<lparr>pv_propagator := True\<rparr>
      in if \<not> tracesEnabled sdk then ((FlushNothing, None, None), p)
         else case sdk_traceExporter sdk of
             Some err \<Rightarrow> ((FlushNothing, None, Some err), p)
           | None \<Rightarrow>
               (let p = p\<lparr>pv_tracer := True\<rparr>
                in case newMeterProvider sdk of
                     Inl err \<Rightarrow> ((FlushTraces, None, None), p)
                   | Inr installed \<Rightarrow>
                       (let p = (if installed then p\<lparr>pv_meter := True\<rparr> else p)
                        in ((if installed then FlushBoth else FlushTraces,
                             Some (NewHTTPMetrics (sdk_counter sdk) (sdk_gauge sdk)), None), p))))"

text \<open>\<^verbatim>\<open>errors.Join\<close> of both errors; both providers are shut down whatever the other answers.\<close>

definition telemetry_shutdown :: "flush \<Rightarrow> string option \<Rightarrow> string option \<Rightarrow> string list \<times> string list" where
  "telemetry_shutdown f tracerErr meterErr =
     (case f of
        FlushNothing \<Rightarrow> ([], [])
      | FlushTraces \<Rightarrow> ([''tracer''], (case tracerErr of None \<Rightarrow> [] | Some e \<Rightarrow> [e]))
      | FlushBoth \<Rightarrow> ([''meter'', ''tracer''],
          (case tracerErr of None \<Rightarrow> [] | Some e \<Rightarrow> [e]) @ (case meterErr of None \<Rightarrow> [] | Some e \<Rightarrow> [e])))"

text \<open>
  Only a trace exporter that cannot be built keeps a service from starting, and only when an endpoint
  is configured; the propagator is installed on every path, and what is installed is flushed at the end.
\<close>

theorem telemetry_Init_outcome:
  assumes "telemetry_Init sdk \<lparr>pv_propagator = b, pv_tracer = False, pv_meter = False\<rparr> = ((f, m, err), p)"
  shows "(err \<noteq> None \<longleftrightarrow> tracesEnabled sdk \<and> sdk_traceExporter sdk \<noteq> None) \<and> pv_propagator p \<and>
    (m \<noteq> None \<longrightarrow> pv_tracer p \<and> pv_meter p) \<and>
    (pv_tracer p \<longleftrightarrow> ''tracer'' \<in> set (fst (telemetry_shutdown f te me))) \<and>
    (pv_meter p \<longleftrightarrow> ''meter'' \<in> set (fst (telemetry_shutdown f te me)))"
  using assms
  by (auto simp: telemetry_Init_def newMeterProvider_def telemetry_shutdown_def tracesEnabled_def Let_def
      split: option.splits if_splits sum.splits dest: sym [where t = "sdk_traceExporter sdk"])

text \<open>How often metrics are pushed, from \<^verbatim>\<open>OTEL_METRIC_EXPORT_INTERVAL\<close>; \<^verbatim>\<open>strconv.Atoi\<close> with its error.\<close>

definition Atoi_err :: "string \<Rightarrow> int option" where
  "Atoi_err s =
     (let (neg, ds) = (case s of [] \<Rightarrow> (False, [])
                       | c # cs \<Rightarrow> if c = CHR ''-'' then (True, cs) else if c = CHR ''+'' then (False, cs) else (False, s))
      in if ds = [] then None
         else (case digits_from 0 ds of
                 None \<Rightarrow> None
               | Some n \<Rightarrow> let v = (if neg then - n else n) in if int8_ok v then Some v else None))"

definition defaultExportInterval :: int where
  "defaultExportInterval = 60 * Second"

definition exportInterval :: "string \<Rightarrow> int" where
  "exportInterval raw =
     (if raw = [] then defaultExportInterval
      else case Atoi_err raw of
          None \<Rightarrow> defaultExportInterval
        | Some ms \<Rightarrow> if ms \<le> 0 then defaultExportInterval else wrap64 (ms * 1000000))"

lemma exportInterval_typo: "Atoi_err raw = None \<or> (\<exists>ms \<le> 0. Atoi_err raw = Some ms) \<Longrightarrow> exportInterval raw = 60 * Second"
  by (auto simp: exportInterval_def defaultExportInterval_def)

lemma exportInterval_positive:
  assumes "\<And>ms. Atoi_err raw = Some ms \<Longrightarrow> ms \<le> 9223372036854"
  shows "0 < exportInterval raw"
proof (cases "Atoi_err raw")
  case (Some ms)
  show ?thesis
  proof (cases "0 < ms")
    case True
    with assms [OF Some] have "int8_ok (ms * 1000000)" by (simp add: int8_ok_def)
    with Some True show ?thesis by (simp add: exportInterval_def defaultExportInterval_def)
  qed (use Some in \<open>simp add: exportInterval_def defaultExportInterval_def\<close>)
qed (simp add: exportInterval_def defaultExportInterval_def)

section \<open>The logger\<close>

datatype log_level = LevelDebug | LevelInfo | LevelWarn | LevelError

record logger =
  lg_service :: string
  lg_level :: log_level

definition log_New :: "string \<Rightarrow> string \<Rightarrow> logger" where
  "log_New serviceName level =
     \<lparr>lg_service = serviceName,
      lg_level = (if level = ''debug'' then LevelDebug else if level = ''warn'' then LevelWarn
                  else if level = ''error'' then LevelError else LevelInfo)\<rparr>"

end
