(* ===== verification/Payment_Processors.thy ===== *)
theory Payment_Processors
  imports Payment_Paths Payment_Handlers
begin

text \<open>
  The two implementations of the payment gateway: \<^verbatim>\<open>processor/mock_processor.go\<close> and
  \<^verbatim>\<open>processor/xendit_processor.go\<close>. Each gives a \<open>gateway\<close>, the record the payment service was
  verified against. The HTTP exchange with Xendit is outside the repository: \<open>net\<close> says what is
  answered to a call, given the number of calls made before.
\<close>

section \<open>The simulated gateway\<close>

type_synonym sessions = "string \<Rightarrow> SessionResult option"

definition mock_CreateSession :: "sessions \<Rightarrow> string \<Rightarrow> time \<Rightarrow> SessionResult \<times> sessions" where
  "mock_CreateSession sessions refID expiresAt =
     (let providerRef = ''ps-mock-'' @ refID;
          result = \<lparr>sr_ProviderRef = providerRef, sr_PaymentLinkURL = ''https://mock.checkout/'' @ refID, sr_ExpiresAt = expiresAt\<rparr>
      in (result, sessions(providerRef \<mapsto> result)))"

definition mock_CancelSession :: "string \<Rightarrow> string option" where
  "mock_CancelSession providerRef = None"

definition mock_GetSession :: "sessions \<Rightarrow> string \<Rightarrow> string + SessionResult" where
  "mock_GetSession sessions providerRef =
     (case sessions providerRef of
        None \<Rightarrow> Inl (''mock session '' @ providerRef @ '' not found'')
      | Some result \<Rightarrow> Inr result)"

text \<open>What the service sees of it: the answers do not depend on the stored sessions.\<close>

definition mock_gateway :: gateway where
  "mock_gateway =
     \<lparr>gw_create = (\<lambda>n refID amount cur expiresAt chans email. Inr (fst (mock_CreateSession Map.empty refID expiresAt))),
      gw_cancel = (\<lambda>n ref. mock_CancelSession ref)\<rparr>"

section \<open>Xendit\<close>

record xendit_call =
  xc_Method :: string
  xc_URL :: string
  xc_Headers :: "(string \<times> string) list"
  xc_Body :: "json option"

text \<open>
  An exchange fails, or gives a status code and a body, which is \<open>None\<close> when it is not JSON;
  reading the body may fail as well.
\<close>

datatype exchange = NoAnswer string | BrokenBody string | Answer int "json option"

record XenditProcessor =
  xp_baseURL :: string
  xp_apiKey :: string
  xp_net :: "nat \<Rightarrow> xendit_call \<Rightarrow> exchange"

definition NewXenditProcessor :: "(nat \<Rightarrow> xendit_call \<Rightarrow> exchange) \<Rightarrow> string \<Rightarrow> string \<Rightarrow> XenditProcessor" where
  "NewXenditProcessor net baseURL apiKey =
     \<lparr>xp_baseURL = TrimSuffix baseURL ''/'', xp_apiKey = apiKey, xp_net = net\<rparr>"

text \<open>\<^verbatim>\<open>strings.SplitN(email, "@", 2)[0]\<close> with a default.\<close>

definition given_names :: "string \<Rightarrow> string" where
  "given_names email = (let g = takeWhile (\<lambda>ch. ch \<noteq> CHR ''@'') email in if g = '''' then ''Customer'' else g)"

definition xenditSessionRequest :: "string \<Rightarrow> int \<Rightarrow> string \<Rightarrow> time \<Rightarrow> string \<Rightarrow> json" where
  "xenditSessionRequest refID amount cur expiresAt email = JObj
     [(''reference_id'', JStr refID), (''session_type'', JStr ''PAY''), (''mode'', JStr ''PAYMENT_LINK''), (''amount'', JNum amount),
      (''currency'', JStr cur), (''country'', JStr ''ID''),
      (''customer'', JObj ([(''reference_id'', JStr refID), (''type'', JStr ''INDIVIDUAL'')] @ omit_str ''email'' email @
         [(''individual_detail'', JObj [(''given_names'', JStr (given_names email)), (''surname'', JStr ''-'')])])),
      (''expires_at'', fmt_seconds expiresAt), (''merchant_metadata'', JObj [(''booking_id'', JStr refID)])]"

text \<open>The field \<^verbatim>\<open>expires_at\<close> of the answer is a string that need not be a time.\<close>

datatype stamp = NoStamp | BadStamp | Stamp time

fun get_stamp :: "stamp \<Rightarrow> json \<Rightarrow> stamp option" where
  "get_stamp old (JStr s) = Some (if s = '''' then NoStamp else BadStamp)"
| "get_stamp old (JTime t) = Some (Stamp t)"
| "get_stamp old _ = None"

record xenditSessionResponse =
  xr_PaymentSessionID :: string
  xr_ReferenceID :: string
  xr_Status :: string
  xr_CheckoutURL :: string
  xr_PaymentLinkURL :: string
  xr_ExpiresAt :: stamp

definition unmarshal_xenditSessionResponse :: "json \<Rightarrow> xenditSessionResponse option" where
  "unmarshal_xenditSessionResponse j =
     (case dec_top j of None \<Rightarrow> None | Some kvs \<Rightarrow>
       (case (dec_str ''payment_session_id'' kvs, dec_str ''reference_id'' kvs, dec_str ''status'' kvs, dec_str ''checkout_url'' kvs,
              dec_str ''payment_link_url'' kvs, dec_field get_stamp NoStamp ''expires_at'' kvs) of
          (Some p, Some r, Some st, Some c, Some l, Some x) \<Rightarrow>
            Some \<lparr>xr_PaymentSessionID = p, xr_ReferenceID = r, xr_Status = st, xr_CheckoutURL = c, xr_PaymentLinkURL = l, xr_ExpiresAt = x\<rparr>
        | _ \<Rightarrow> None))"

fun firstNonEmpty :: "string list \<Rightarrow> string" where
  "firstNonEmpty [] = ''''"
| "firstNonEmpty (v # vs) = (if v \<noteq> '''' then v else firstNonEmpty vs)"

definition toResult :: "xenditSessionResponse \<Rightarrow> time \<Rightarrow> SessionResult" where
  "toResult out fallbackExpiry =
     \<lparr>sr_ProviderRef = xr_PaymentSessionID out,
      sr_PaymentLinkURL = firstNonEmpty [xr_CheckoutURL out, xr_PaymentLinkURL out],
      sr_ExpiresAt = (case xr_ExpiresAt out of Stamp t \<Rightarrow> t | _ \<Rightarrow> fallbackExpiry)\<rparr>"

definition xendit_request :: "XenditProcessor \<Rightarrow> string \<Rightarrow> string \<Rightarrow> string \<Rightarrow> json option \<Rightarrow> xendit_call" where
  "xendit_request p meth path idempotencyKey body =
     \<lparr>xc_Method = meth, xc_URL = xp_baseURL p @ path,
      xc_Headers = [(''Content-Type'', ''application/json''), (''Accept'', ''application/json''),
                    (''Authorization'', ''Basic '' @ base64 StdEncoding (xp_apiKey p @ '':''))] @
                   (if idempotencyKey \<noteq> '''' then [(''Idempotency-Key'', idempotencyKey)] else []),
      xc_Body = body\<rparr>"

text \<open>The text of an error names the call; the code and the body it also prints are left out.\<close>

definition doRaw :: "XenditProcessor \<Rightarrow> nat \<Rightarrow> string \<Rightarrow> string \<Rightarrow> string \<Rightarrow> json option \<Rightarrow> string + json option" where
  "doRaw p n meth path idempotencyKey body =
     (case xp_net p n (xendit_request p meth path idempotencyKey body) of
        NoAnswer e \<Rightarrow> Inl (''xendit: request failed: '' @ e)
      | BrokenBody e \<Rightarrow> Inl (''xendit: read response: '' @ e)
      | Answer code dat \<Rightarrow> if code \<ge> 300 then Inl (''xendit: '' @ meth @ '' '' @ path) else Inr dat)"

definition do_session :: "XenditProcessor \<Rightarrow> nat \<Rightarrow> string \<Rightarrow> string \<Rightarrow> string \<Rightarrow> json option \<Rightarrow> string + xenditSessionResponse" where
  "do_session p n meth path idempotencyKey body =
     (case doRaw p n meth path idempotencyKey body of
        Inl e \<Rightarrow> Inl e
      | Inr dat \<Rightarrow> (case Option.bind dat unmarshal_xenditSessionResponse of
                     None \<Rightarrow> Inl ''xendit: failed to decode response''
                   | Some out \<Rightarrow> Inr out))"

definition xendit_CreateSession ::
    "XenditProcessor \<Rightarrow> nat \<Rightarrow> string \<Rightarrow> int \<Rightarrow> string \<Rightarrow> time \<Rightarrow> string list \<Rightarrow> string \<Rightarrow> string + SessionResult" where
  "xendit_CreateSession p n refID amountRupiah cur expiresAt chans email =
     (case do_session p n ''POST'' ''/sessions'' refID (Some (xenditSessionRequest refID amountRupiah cur expiresAt email)) of
        Inl e \<Rightarrow> Inl e
      | Inr out \<Rightarrow> Inr (toResult out expiresAt))"

definition xendit_CancelSession :: "XenditProcessor \<Rightarrow> nat \<Rightarrow> string \<Rightarrow> string option" where
  "xendit_CancelSession p n providerRef =
     (case doRaw p n ''POST'' (''/sessions/'' @ providerRef @ ''/cancel'') '''' None of Inl e \<Rightarrow> Some e | Inr _ \<Rightarrow> None)"

definition xendit_GetSession :: "XenditProcessor \<Rightarrow> nat \<Rightarrow> string \<Rightarrow> string + SessionResult" where
  "xendit_GetSession p n providerRef =
     (case do_session p n ''GET'' (''/sessions/'' @ providerRef) '''' None of
        Inl e \<Rightarrow> Inl e
      | Inr out \<Rightarrow> Inr (toResult out (case xr_ExpiresAt out of Stamp t \<Rightarrow> t | _ \<Rightarrow> 0)))"

definition xendit_gateway :: "XenditProcessor \<Rightarrow> gateway" where
  "xendit_gateway p = \<lparr>gw_create = xendit_CreateSession p, gw_cancel = xendit_CancelSession p\<rparr>"

section \<open>The service as it is put together\<close>

text \<open>What \<^verbatim>\<open>main\<close> makes of the configuration: the gateway it chooses and the service it builds.\<close>

definition payProcessor :: "(nat \<Rightarrow> xendit_call \<Rightarrow> exchange) \<Rightarrow> payment_config \<Rightarrow> gateway" where
  "payProcessor net cfg =
     (if cfg_Provider cfg = ''xendit'' then xendit_gateway (NewXenditProcessor net (cfg_XenditBaseURL cfg) (cfg_XenditAPIKey cfg))
      else mock_gateway)"

definition NewPaymentService :: "(nat \<Rightarrow> xendit_call \<Rightarrow> exchange) \<Rightarrow> payment_config \<Rightarrow> PaymentService" where
  "NewPaymentService net cfg =
     \<lparr>processor = payProcessor net cfg, provider = cfg_Provider cfg, gatewayExpiryBufferMin = cfg_GatewayExpiryBufferMin cfg,
      allowedChannels = EnabledMethods cfg\<rparr>"

section \<open>Properties\<close>

lemma mock_session_round_trip:
  "mock_CreateSession ss refID x = (res, ss') \<Longrightarrow> mock_GetSession ss' (sr_ProviderRef res) = Inr res"
  by (auto simp: mock_CreateSession_def mock_GetSession_def Let_def)

lemma firstNonEmpty_find: "firstNonEmpty vs = (case find (\<lambda>v. v \<noteq> '''') vs of None \<Rightarrow> '''' | Some v \<Rightarrow> v)"
  by (induction vs) auto

lemma xendit_CreateSession_call:
  assumes "xendit_CreateSession p n refID a cur x chans em = Inr res"
  shows "\<exists>code dat out. xp_net p n (xendit_request p ''POST'' ''/sessions'' refID (Some (xenditSessionRequest refID a cur x em))) = Answer code (Some dat) \<and>
    code < 300 \<and> unmarshal_xenditSessionResponse dat = Some out \<and> res = toResult out x"
  using assms by (auto simp: xendit_CreateSession_def do_session_def doRaw_def bind_eq_Some_conv split: sum.splits exchange.splits if_splits option.splits)

end
