(* ===== verification/Ticketing_Handlers.thy ===== *)
theory Ticketing_Handlers
  imports Event_Service Booking_Service Http
begin

text \<open>
  The HTTP layer of the ticketing service: \<^verbatim>\<open>handler/dto.go\<close>, \<^verbatim>\<open>handler/booking_dto.go\<close>, the two
  handler files and the two route files. The validator library is outside the repository:
  \<open>ticketing_validator\<close> says which requests it accepts.
\<close>

section \<open>Requests\<close>

record TicketTypeRequest =
  tq_Name :: string
  tq_PriceRupiah :: int
  tq_Quantity :: int
  tq_MaxPerOrder :: int

record CreateEventRequest =
  ce_Title :: string
  ce_Description :: string
  ce_VenueName :: string
  ce_VenueAddress :: string
  ce_VenueCapacity :: int
  ce_StartAt :: time
  ce_EndAt :: time
  ce_TicketTypes :: "TicketTypeRequest list"

record UpdateEventRequest =
  ue_Title :: string
  ue_Description :: string
  ue_StartAt :: time
  ue_EndAt :: time

record RejectRequest =
  rj_Reason :: string

record ReserveItemRequest =
  ri_TicketTypeID :: string
  ri_Quantity :: int
  ri_UnitPriceRupiah :: int

record ReserveRequest =
  rv_EventID :: string
  rv_Items :: "ReserveItemRequest list"

definition unmarshal_TicketTypeRequest :: "json \<Rightarrow> TicketTypeRequest option" where
  "unmarshal_TicketTypeRequest j =
     (case dec_top j of None \<Rightarrow> None | Some kvs \<Rightarrow>
       (case (dec_str ''name'' kvs, dec_int ''price_rupiah'' kvs, dec_int ''quantity'' kvs, dec_int ''max_per_order'' kvs) of
          (Some n, Some p, Some q, Some m) \<Rightarrow> Some \<lparr>tq_Name = n, tq_PriceRupiah = p, tq_Quantity = q, tq_MaxPerOrder = m\<rparr>
        | _ \<Rightarrow> None))"

definition unmarshal_CreateEventRequest :: "json \<Rightarrow> CreateEventRequest option" where
  "unmarshal_CreateEventRequest j =
     (case dec_top j of None \<Rightarrow> None | Some kvs \<Rightarrow>
       (case (dec_str ''title'' kvs, dec_str ''description'' kvs, dec_str ''venue_name'' kvs, dec_str ''venue_address'' kvs,
              dec_int ''venue_capacity'' kvs, dec_time ''start_at'' kvs, dec_time ''end_at'' kvs,
              dec_list unmarshal_TicketTypeRequest ''ticket_types'' kvs) of
          (Some t, Some d, Some vn, Some va, Some c, Some st, Some en, Some tts) \<Rightarrow>
            Some \<lparr>ce_Title = t, ce_Description = d, ce_VenueName = vn, ce_VenueAddress = va, ce_VenueCapacity = c,
                  ce_StartAt = st, ce_EndAt = en, ce_TicketTypes = tts\<rparr>
        | _ \<Rightarrow> None))"

definition unmarshal_UpdateEventRequest :: "json \<Rightarrow> UpdateEventRequest option" where
  "unmarshal_UpdateEventRequest j =
     (case dec_top j of None \<Rightarrow> None | Some kvs \<Rightarrow>
       (case (dec_str ''title'' kvs, dec_str ''description'' kvs, dec_time ''start_at'' kvs, dec_time ''end_at'' kvs) of
          (Some t, Some d, Some st, Some en) \<Rightarrow> Some \<lparr>ue_Title = t, ue_Description = d, ue_StartAt = st, ue_EndAt = en\<rparr>
        | _ \<Rightarrow> None))"

definition unmarshal_RejectRequest :: "json \<Rightarrow> RejectRequest option" where
  "unmarshal_RejectRequest j =
     (case dec_top j of None \<Rightarrow> None | Some kvs \<Rightarrow> map_option (\<lambda>r. \<lparr>rj_Reason = r\<rparr>) (dec_str ''reason'' kvs))"

definition unmarshal_ReserveItemRequest :: "json \<Rightarrow> ReserveItemRequest option" where
  "unmarshal_ReserveItemRequest j =
     (case dec_top j of None \<Rightarrow> None | Some kvs \<Rightarrow>
       (case (dec_str ''ticket_type_id'' kvs, dec_int ''quantity'' kvs, dec_int ''unit_price_rupiah'' kvs) of
          (Some t, Some q, Some p) \<Rightarrow> Some \<lparr>ri_TicketTypeID = t, ri_Quantity = q, ri_UnitPriceRupiah = p\<rparr>
        | _ \<Rightarrow> None))"

definition unmarshal_ReserveRequest :: "json \<Rightarrow> ReserveRequest option" where
  "unmarshal_ReserveRequest j =
     (case dec_top j of None \<Rightarrow> None | Some kvs \<Rightarrow>
       (case (dec_str ''event_id'' kvs, dec_list unmarshal_ReserveItemRequest ''items'' kvs) of
          (Some e, Some items) \<Rightarrow> Some \<lparr>rv_EventID = e, rv_Items = items\<rparr>
        | _ \<Rightarrow> None))"

record ticketing_validator =
  vt_create :: "CreateEventRequest \<Rightarrow> bool"
  vt_update :: "UpdateEventRequest \<Rightarrow> bool"
  vt_reject :: "RejectRequest \<Rightarrow> bool"
  vt_reserve :: "ReserveRequest \<Rightarrow> bool"

text \<open>The documented meaning of \<^verbatim>\<open>required,min=1,dive\<close> on the items and of the tags inside.\<close>

definition ticketing_validator_law :: "ticketing_validator \<Rightarrow> bool" where
  "ticketing_validator_law v \<longleftrightarrow>
     (\<forall>r. vt_reserve v r \<longrightarrow> rv_Items r \<noteq> [] \<and> (\<forall>i \<in> set (rv_Items r). 1 \<le> ri_Quantity i \<and> 0 < ri_UnitPriceRupiah i))"

section \<open>Responses\<close>

definition EventResponse :: "Event \<Rightarrow> json" where
  "EventResponse e = JObj
     [(''id'', JStr (ev_ID e)), (''organizer_id'', JStr (ev_OrganizerID e)), (''title'', JStr (ev_Title e)),
      (''description'', JStr (ev_Description e)), (''venue_name'', JStr (ev_VenueName e)),
      (''venue_address'', JStr (ev_VenueAddress e)), (''venue_capacity'', JNum (ev_VenueCapacity e)),
      (''start_at'', JTime (ev_StartAt e)), (''end_at'', JTime (ev_EndAt e)), (''status'', JStr (ev_Status e)),
      (''created_at'', JTime (ev_CreatedAt e)), (''updated_at'', JTime (ev_UpdatedAt e))]"

definition TicketTypeResponse :: "TicketType \<Rightarrow> json" where
  "TicketTypeResponse tt = JObj
     [(''id'', JStr (tt_ID tt)), (''name'', JStr (tt_Name tt)), (''price_rupiah'', JNum (tt_PriceRupiah tt)),
      (''quantity'', JNum (tt_Quantity tt)), (''available'', JNum (tt_Available tt)), (''max_per_order'', JNum (tt_MaxPerOrder tt))]"

definition EventDetailResponse :: "Event \<Rightarrow> TicketType list \<Rightarrow> json" where
  "EventDetailResponse e types = JObj [(''event'', EventResponse e), (''ticket_types'', JArr (map TicketTypeResponse types))]"

definition EventListResponse :: "Event list \<times> int \<Rightarrow> json" where
  "EventListResponse p = JObj [(''events'', JArr (map EventResponse (fst p))), (''total'', JNum (snd p))]"

definition ReservationResponse :: "Reservation \<Rightarrow> json" where
  "ReservationResponse res = JObj
     [(''booking_id'', JStr (rs_BookingID res)), (''event_id'', JStr (rs_EventID res)), (''total_rupiah'', JNum (rs_TotalRupiah res)),
      (''status'', JStr (rs_Status res)), (''expires_at'', fmt_seconds (rs_ExpiresAt res))]"

definition BookingItemResp :: "BookingItem \<Rightarrow> json" where
  "BookingItemResp i = JObj
     [(''id'', JStr (bi_ID i)), (''ticket_type_id'', JStr (bi_TicketTypeID i)), (''quantity'', JNum (bi_Quantity i)),
      (''unit_price_rupiah'', JNum (bi_UnitPriceRupiah i)), (''total_price_rupiah'', JNum (bi_TotalPriceRupiah i))]"

definition bookingToResponse :: "Booking \<Rightarrow> json" where
  "bookingToResponse b = JObj
     ([(''id'', JStr (bk_ID b)), (''user_id'', JStr (bk_UserID b)), (''event_id'', JStr (bk_EventID b)), (''status'', JStr (bk_Status b))] @
      (case bk_ExpiresAt b of None \<Rightarrow> [] | Some t \<Rightarrow> [(''expires_at'', fmt_seconds t)]) @
      [(''total_rupiah'', JNum (bk_TotalRupiah b)), (''payment_id'', JStr (bk_PaymentID b))] @
      omit_str ''refund_status'' (bk_RefundStatus b) @
      [(''items'', JArr (map BookingItemResp (bk_Items b))), (''created_at'', fmt_seconds (bk_CreatedAt b))])"

section \<open>Event handlers\<close>

type_synonym ticketing_handler = "(ticketing_error, ticketing_db) handler"

definition ticket_type_of :: "TicketTypeRequest \<Rightarrow> TicketType" where
  "ticket_type_of tt =
     \<lparr>tt_ID = '''', tt_EventID = '''', tt_Name = tq_Name tt, tt_PriceRupiah = tq_PriceRupiah tt, tt_Quantity = tq_Quantity tt,
      tt_Available = 0, tt_MaxPerOrder = (if tq_MaxPerOrder tt = 0 then 5 else tq_MaxPerOrder tt)\<rparr>"

definition EventHandler_CreateEvent :: "ticketing_validator \<Rightarrow> ticketing_handler" where
  "EventHandler_CreateEvent v r ctx =
     (case Option.bind (rq_body r) unmarshal_CreateEventRequest of
        None \<Rightarrow> reply (BadRequest (Err ''invalid request body''))
      | Some req \<Rightarrow>
          if \<not> vt_create v req then reply (BadRequest ErrValidation)
          else respond (CreateEvent (UserIDFromContext ctx) (ce_Title req) (ce_Description req) (ce_VenueName req)
                          (ce_VenueAddress req) (ce_VenueCapacity req) (ce_StartAt req) (ce_EndAt req)
                          (map ticket_type_of (ce_TicketTypes req)))
                 (\<lambda>err. if err = ErrCapacityExceeded \<or> err = ErrTicketTypesEmpty then BadRequest (ErrVal err)
                        else InternalServerError (Err ''failed to create event''))
                 (\<lambda>event. Created (EventResponse event)))"

definition EventHandler_UpdateEvent :: "ticketing_validator \<Rightarrow> ticketing_handler" where
  "EventHandler_UpdateEvent v r ctx =
     (case Option.bind (rq_body r) unmarshal_UpdateEventRequest of
        None \<Rightarrow> reply (BadRequest (Err ''invalid request body''))
      | Some req \<Rightarrow>
          if \<not> vt_update v req then reply (BadRequest ErrValidation)
          else respond (UpdateEvent (rq_param r ''id'') (UserIDFromContext ctx) (ue_Title req) (ue_Description req)
                          (ue_StartAt req) (ue_EndAt req))
                 (\<lambda>err. if err = ErrEventNotFound then NotFound (ErrVal err)
                        else if err = ErrNotEventOwner \<or> err = ErrEventNotEditable then Forbidden (ErrVal err)
                        else InternalServerError (Err ''failed to update event''))
                 (\<lambda>event. OK (EventResponse event)))"

definition not_found_or_bad :: "ticketing_error \<Rightarrow> ticketing_error http_response" where
  "not_found_or_bad err = (if err = ErrEventNotFound then NotFound (ErrVal err) else BadRequest (ErrVal err))"

definition EventHandler_ApproveEvent :: ticketing_handler where
  "EventHandler_ApproveEvent r ctx =
     respond (ApproveEvent (rq_param r ''id'') (UserIDFromContext ctx)) not_found_or_bad (\<lambda>event. OK (EventResponse event))"

definition EventHandler_RejectEvent :: "ticketing_validator \<Rightarrow> ticketing_handler" where
  "EventHandler_RejectEvent v r ctx =
     (case Option.bind (rq_body r) unmarshal_RejectRequest of
        None \<Rightarrow> reply (BadRequest (Err ''invalid request body''))
      | Some req \<Rightarrow>
          if \<not> vt_reject v req then reply (BadRequest ErrValidation)
          else respond (RejectEvent (rq_param r ''id'') (UserIDFromContext ctx) (rj_Reason req)) not_found_or_bad
                 (\<lambda>event. OK (EventResponse event)))"

definition EventHandler_CancelEvent :: ticketing_handler where
  "EventHandler_CancelEvent r ctx =
     respond (CancelEvent (rq_param r ''id'') (UserIDFromContext ctx)) not_found_or_bad (\<lambda>event. OK (EventResponse event))"

definition EventHandler_ReprocessCancellation :: ticketing_handler where
  "EventHandler_ReprocessCancellation r ctx =
     (let eventID = rq_param r ''id''
      in respond (if UserRoleFromContext ctx = RoleAdmin then ReprocessCancellationAsAdmin eventID
                  else ReprocessCancellation eventID (UserIDFromContext ctx)) not_found_or_bad
           (\<lambda>event. OK (JObj [(''event_id'', JStr (ev_ID event)), (''status'', JStr (ev_Status event)), (''reprocess'', JStr ''queued'')])))"

definition EventHandler_GetEvent :: ticketing_handler where
  "EventHandler_GetEvent r ctx =
     respond (GetEvent (rq_param r ''id'')) (\<lambda>err. NotFound (ErrVal err)) (\<lambda>(event, types). OK (EventDetailResponse event types))"

text \<open>The page of a list: a limit that is not positive becomes 20, the offset is taken as it is.\<close>

definition page_limit :: "request \<Rightarrow> int" where
  "page_limit r = (let lim = Atoi (rq_query r ''limit'') in if lim \<le> 0 then 20 else lim)"

definition page_offset :: "request \<Rightarrow> int" where
  "page_offset r = Atoi (rq_query r ''offset'')"

definition EventHandler_ListPublished :: ticketing_handler where
  "EventHandler_ListPublished r ctx =
     respond (ListPublished (page_limit r) (page_offset r)) (\<lambda>_. InternalServerError (Err ''failed to list events''))
       (\<lambda>p. OK (EventListResponse p))"

definition EventHandler_ListMyEvents :: ticketing_handler where
  "EventHandler_ListMyEvents r ctx =
     respond (ListByOrganizer (UserIDFromContext ctx)) (\<lambda>_. InternalServerError (Err ''failed to list events''))
       (\<lambda>events. OK (JArr (map EventResponse events)))"

definition EventHandler_ListPending :: ticketing_handler where
  "EventHandler_ListPending r ctx =
     respond (ListPending (page_limit r) (page_offset r)) (\<lambda>_. InternalServerError (Err ''failed to list pending events''))
       (\<lambda>p. OK (EventListResponse p))"

definition EventHandler_ListAll :: ticketing_handler where
  "EventHandler_ListAll r ctx =
     respond (ListAll (rq_query r ''status'') (page_limit r) (page_offset r)) (\<lambda>_. InternalServerError (Err ''failed to list events''))
       (\<lambda>p. OK (EventListResponse p))"

section \<open>Booking handlers\<close>

definition item_of :: "ReserveItemRequest \<Rightarrow> BookingItem" where
  "item_of i =
     \<lparr>bi_ID = '''', bi_BookingID = '''', bi_TicketTypeID = ri_TicketTypeID i, bi_Quantity = ri_Quantity i,
      bi_UnitPriceRupiah = ri_UnitPriceRupiah i, bi_TotalPriceRupiah = 0\<rparr>"

definition reserve_failed :: "ticketing_error \<Rightarrow> ticketing_error http_response" where
  "reserve_failed err =
     (case err of
        ErrNoSeatsAvailable \<Rightarrow> Error 409 (Err ''not enough seats available'')
      | ErrPriceMismatch a b \<Rightarrow> BadRequest (ErrVal err)
      | ErrPaymentUnavailable \<Rightarrow> Error 502 (Err ''payment service unavailable, please retry'')
      | _ \<Rightarrow> InternalServerError (Err ''reservation failed''))"

definition BookingHandler_Reserve :: "ticketing_validator \<Rightarrow> int \<Rightarrow> initiate_call \<Rightarrow> ticketing_handler" where
  "BookingHandler_Reserve v ttl pay r ctx =
     (case Option.bind (rq_body r) unmarshal_ReserveRequest of
        None \<Rightarrow> reply (BadRequest (Err ''invalid request body''))
      | Some req \<Rightarrow>
          if \<not> vt_reserve v req then reply (BadRequest ErrValidation)
          else if UserIDFromContext ctx = '''' then reply (Unauthorized (Err ''authentication required''))
          else respond (Reserve ttl pay (UserIDFromContext ctx) (UserEmailFromContext ctx) (rv_EventID req)
                          (map item_of (rv_Items req))) reserve_failed
                 (\<lambda>res. Created (ReservationResponse res)))"

definition BookingHandler_Release :: ticketing_handler where
  "BookingHandler_Release r ctx =
     reply (Error 409 (Err ''reservation cannot be cancelled; seats are released automatically when the payment expires''))"

definition BookingHandler_GetBooking :: ticketing_handler where
  "BookingHandler_GetBooking r ctx =
     respond (GetBooking (rq_param r ''id'')) (\<lambda>_. NotFound (Err ''booking not found''))
       (\<lambda>b. if bk_UserID b \<noteq> UserIDFromContext ctx then NotFound (Err ''booking not found'') else OK (bookingToResponse b))"

definition BookingHandler_ListMyBookings :: ticketing_handler where
  "BookingHandler_ListMyBookings r ctx =
     (if UserIDFromContext ctx = '''' then reply (Unauthorized (Err ''authentication required''))
      else respond (ListMyBookings (UserIDFromContext ctx)) (\<lambda>_. InternalServerError (Err ''failed to list bookings''))
             (\<lambda>bookings. OK (JArr (map bookingToResponse bookings))))"

section \<open>Routes\<close>

text \<open>A route is named by its method and the pattern it was registered with.\<close>

definition event_Routes :: "ticketing_validator \<Rightarrow> string \<Rightarrow> string \<Rightarrow> ticketing_handler option" where
  "event_Routes v meth pat =
     (let eo = (\<lambda>h. Some (WithUserContext (RequireRole [RoleEO] h)));
          admin = (\<lambda>h. Some (WithUserContext (RequireRole [RoleAdmin] h)))
      in if meth = ''GET'' \<and> pat = ''/api/events'' then Some EventHandler_ListPublished
         else if meth = ''GET'' \<and> pat = ''/api/events/{id}'' then Some EventHandler_GetEvent
         else if meth = ''POST'' \<and> pat = ''/api/events'' then eo (EventHandler_CreateEvent v)
         else if meth = ''PUT'' \<and> pat = ''/api/events/{id}'' then eo (EventHandler_UpdateEvent v)
         else if meth = ''POST'' \<and> pat = ''/api/events/{id}/cancel'' then eo EventHandler_CancelEvent
         else if meth = ''POST'' \<and> pat = ''/api/events/{id}/cancel-reprocess'' then eo EventHandler_ReprocessCancellation
         else if meth = ''GET'' \<and> pat = ''/api/events/mine'' then eo EventHandler_ListMyEvents
         else if meth = ''GET'' \<and> pat = ''/api/admin/events'' then admin EventHandler_ListAll
         else if meth = ''GET'' \<and> pat = ''/api/events/pending'' then admin EventHandler_ListPending
         else if meth = ''POST'' \<and> pat = ''/api/events/{id}/approve'' then admin EventHandler_ApproveEvent
         else if meth = ''POST'' \<and> pat = ''/api/events/{id}/reject'' then admin (EventHandler_RejectEvent v)
         else if meth = ''POST'' \<and> pat = ''/api/admin/events/{id}/cancel-reprocess'' then admin EventHandler_ReprocessCancellation
         else None)"

definition booking_Routes ::
    "ticketing_validator \<Rightarrow> int \<Rightarrow> initiate_call \<Rightarrow> string \<Rightarrow> string \<Rightarrow> ticketing_handler option" where
  "booking_Routes v ttl pay meth pat =
     (let customer = (\<lambda>h. Some (WithUserContext (RequireRole [RoleCustomer] h)))
      in if meth = ''POST'' \<and> pat = ''/api/bookings/reserve'' then customer (BookingHandler_Reserve v ttl pay)
         else if meth = ''DELETE'' \<and> pat = ''/api/bookings/reserve/{id}'' then customer BookingHandler_Release
         else if meth = ''GET'' \<and> pat = ''/api/bookings'' then customer BookingHandler_ListMyBookings
         else if meth = ''GET'' \<and> pat = ''/api/bookings/{id}'' then Some (WithUserContext BookingHandler_GetBooking)
         else None)"

section \<open>Configuration\<close>

record ticketing_config =
  tcfg_ReservationTTL :: int
  tcfg_PaymentServiceURL :: string
  tcfg_PaymentTimeoutSec :: int
  tcfg_InternalAPIKey :: string

datatype ticketing_config_error = BadTTL int | BadTimeout int

definition ticketing_Validate :: "ticketing_config \<Rightarrow> ticketing_config_error option" where
  "ticketing_Validate c =
     (if tcfg_ReservationTTL c \<le> 0 then Some (BadTTL (tcfg_ReservationTTL c))
      else if tcfg_PaymentTimeoutSec c \<le> 0 then Some (BadTimeout (tcfg_PaymentTimeoutSec c))
      else None)"

end
