(* ===== verification/Auth_Store.thy ===== *)
theory Auth_Store
  imports Dto
begin

text \<open>
  The data of the auth service and its repositories: the structs of
  \<^verbatim>\<open>service/auth/internal/domain\<close>, the tables of \<^verbatim>\<open>migrations/auth\<close> the service uses and the
  statements of \<^verbatim>\<open>postgres/user_repo.go\<close> and \<^verbatim>\<open>postgres/token_repo.go\<close>. The locale
  \<open>one_time_tokens\<close> is the contract the rotation of refresh tokens relies on.
\<close>

section \<open>Structs and errors\<close>

datatype auth_error =
    ErrUserExists
  | ErrInvalidCredentials
  | ErrUserNotFound
  | ErrTokenNotFound
  | ErrTokenExpired
  | ErrInternalServer
  | AuthErr db_error
  | CryptoErr string

record User =
  us_ID :: string
  us_Email :: string
  us_PasswordHash :: string
  us_Name :: string
  us_Role :: role
  us_CreatedAt :: time
  us_UpdatedAt :: time

record RefreshToken =
  rt_ID :: string
  rt_UserID :: string
  rt_TokenHash :: string
  rt_ExpiresAt :: time
  rt_CreatedAt :: time

record TokenPair =
  tp_AccessToken :: string
  tp_RefreshToken :: string
  tp_ExpiresIn :: int

record Claims =
  cl_UserID :: string
  cl_Email :: string
  cl_Role :: role

text \<open>
  \<open>entropy\<close> counts the random values drawn so far (salts and refresh tokens); no statement
  reads it.
\<close>

record auth_db =
  users :: "User list"
  refresh_tokens :: "RefreshToken list"
  entropy :: nat

type_synonym 'a auth_op = "(auth_error, auth_db, 'a) op"

section \<open>Constraints of the schema\<close>

definition user_check :: "User \<Rightarrow> bool" where
  "user_check u \<longleftrightarrow> us_Role u \<in> {''admin'', ''eo'', ''customer''}"

definition auth_schema :: "auth_db \<Rightarrow> bool" where
  "auth_schema d \<longleftrightarrow>
     distinct (map us_ID (users d)) \<and> distinct (map us_Email (users d)) \<and> (\<forall>u \<in> set (users d). user_check u) \<and>
     distinct (map rt_ID (refresh_tokens d)) \<and> (\<forall>t \<in> set (refresh_tokens d). rt_UserID t \<in> us_ID ` set (users d))"

section \<open>Statements\<close>

definition stmt_insert_user :: "User \<Rightarrow> time \<Rightarrow> (auth_db, unit) stmt" where
  "stmt_insert_user user now d =
     (let row = user\<lparr>us_CreatedAt := now, us_UpdatedAt := now\<rparr>
      in if \<not> user_check row then Inl CheckViolation
         else if us_ID user \<in> us_ID ` set (users d) \<or> us_Email user \<in> us_Email ` set (users d) then Inl UniqueViolation
         else Inr ((), d\<lparr>users := users d @ [row]\<rparr>))"

text \<open>\<^verbatim>\<open>refresh_tokens.user_id REFERENCES users(id) ON DELETE CASCADE\<close>\<close>

definition stmt_delete_user :: "string \<Rightarrow> (auth_db, unit) stmt" where
  "stmt_delete_user i d =
     Inr ((), d\<lparr>users := filter (\<lambda>u. us_ID u \<noteq> i) (users d),
                refresh_tokens := filter (\<lambda>t. rt_UserID t \<noteq> i) (refresh_tokens d)\<rparr>)"

definition stmt_insert_token :: "RefreshToken \<Rightarrow> time \<Rightarrow> (auth_db, unit) stmt" where
  "stmt_insert_token token now d =
     (if rt_ID token \<in> rt_ID ` set (refresh_tokens d) then Inl UniqueViolation
      else if rt_UserID token \<notin> us_ID ` set (users d) then Inl ForeignKeyViolation
      else Inr ((), d\<lparr>refresh_tokens := refresh_tokens d @ [token\<lparr>rt_CreatedAt := now\<rparr>]\<rparr>))"

definition stmt_delete_tokens :: "(RefreshToken \<Rightarrow> bool) \<Rightarrow> (auth_db, unit) stmt" where
  "stmt_delete_tokens P d = Inr ((), d\<lparr>refresh_tokens := filter (\<lambda>t. \<not> P t) (refresh_tokens d)\<rparr>)"

definition select_first :: "('r \<Rightarrow> bool) \<Rightarrow> (auth_db \<Rightarrow> 'r list) \<Rightarrow> (auth_db, 'r) stmt" where
  "select_first P tab d = (case find P (tab d) of None \<Rightarrow> Inl NoRows | Some r \<Rightarrow> Inr (r, d))"

section \<open>Repositories\<close>

definition user_Create :: "User \<Rightarrow> unit auth_op" where
  "user_Create user = bindE readClock (\<lambda>now. mapErr AuthErr (exec (stmt_insert_user user now)))"

definition user_FindByEmail :: "string \<Rightarrow> User auth_op" where
  "user_FindByEmail email = mapErr AuthErr (exec (select_first (\<lambda>u. us_Email u = email) users))"

definition user_FindByID :: "string \<Rightarrow> User auth_op" where
  "user_FindByID i = mapErr AuthErr (exec (select_first (\<lambda>u. us_ID u = i) users))"

definition user_DeleteByID :: "string \<Rightarrow> unit auth_op" where
  "user_DeleteByID i = mapErr AuthErr (exec (stmt_delete_user i))"

definition token_Create :: "RefreshToken \<Rightarrow> unit auth_op" where
  "token_Create token = bindE readClock (\<lambda>now. mapErr AuthErr (exec (stmt_insert_token token now)))"

definition token_FindByHash :: "string \<Rightarrow> RefreshToken auth_op" where
  "token_FindByHash hash = mapErr AuthErr (exec (select_first (\<lambda>t. rt_TokenHash t = hash) refresh_tokens))"

definition token_DeleteByHash :: "string \<Rightarrow> unit auth_op" where
  "token_DeleteByHash hash = mapErr AuthErr (exec (stmt_delete_tokens (\<lambda>t. rt_TokenHash t = hash)))"

definition token_DeleteByUserID :: "string \<Rightarrow> unit auth_op" where
  "token_DeleteByUserID userID = mapErr AuthErr (exec (stmt_delete_tokens (\<lambda>t. rt_UserID t = userID)))"

section \<open>What the statements keep\<close>

named_theorems auth_stmts \<open>the statements of the auth database\<close>

lemmas auth_stmt_defs [auth_stmts] =
  stmt_insert_user_def stmt_delete_user_def stmt_insert_token_def stmt_delete_tokens_def select_first_def Let_def

lemma schema_insert_user: "stmt_insert_user u now d = Inr (x, d') \<Longrightarrow> auth_schema d \<Longrightarrow> auth_schema d'"
  by (auto simp: auth_stmts auth_schema_def user_check_def split: if_splits)

lemma schema_delete_user: "stmt_delete_user i d = Inr (x, d') \<Longrightarrow> auth_schema d \<Longrightarrow> auth_schema d'"
  by (clarsimp simp: auth_stmts auth_schema_def distinct_map_filter image_iff) metis

lemma schema_insert_token: "stmt_insert_token t now d = Inr (x, d') \<Longrightarrow> auth_schema d \<Longrightarrow> auth_schema d'"
  by (auto simp: auth_stmts auth_schema_def split: if_splits)

lemma schema_delete_tokens: "stmt_delete_tokens P d = Inr (x, d') \<Longrightarrow> auth_schema d \<Longrightarrow> auth_schema d'"
  by (auto simp: auth_stmts auth_schema_def distinct_map_filter)

lemma select_first_db: "select_first P tab d = Inr (r, d') \<Longrightarrow> d' = d \<and> find P (tab d) = Some r"
  by (auto simp: select_first_def split: option.splits)

lemma read_only_auth_queries [reading]:
  "read_only (user_FindByEmail e)" "read_only (user_FindByID i)" "read_only (token_FindByHash h)"
  by (simp_all add: user_FindByEmail_def user_FindByID_def token_FindByHash_def read_only_mapErr
      read_only_exec [OF conjunct1 [OF select_first_db]])

section \<open>One-time tokens\<close>

text \<open>
  The store of refresh tokens as its client sees it: which hashes are live. A hash that was
  deleted stays dead while other hashes are inserted or deleted.
\<close>

locale one_time_tokens =
  fixes live :: "'d \<Rightarrow> 'h \<Rightarrow> bool"
    and ins :: "'t \<Rightarrow> 'd \<Rightarrow> 'e + unit \<times> 'd"
    and del :: "'h \<Rightarrow> 'd \<Rightarrow> 'e + unit \<times> 'd"
    and key :: "'t \<Rightarrow> 'h"
  assumes live_ins: "ins t d = Inr (u, d') \<Longrightarrow> live d' h \<longleftrightarrow> live d h \<or> h = key t"
    and live_del: "del k d = Inr (u, d') \<Longrightarrow> live d' h \<longleftrightarrow> live d h \<and> h \<noteq> k"
begin

text \<open>A history of the store; statements that fail leave it as it was.\<close>

fun history :: "('t + 'h) list \<Rightarrow> 'd \<Rightarrow> 'd" where
  "history [] d = d"
| "history (Inl t # hs) d = history hs (case ins t d of Inl _ \<Rightarrow> d | Inr (u, d') \<Rightarrow> d')"
| "history (Inr k # hs) d = history hs (case del k d of Inl _ \<Rightarrow> d | Inr (u, d') \<Rightarrow> d')"

lemma spent_stays_dead:
  assumes "\<not> live d h" "\<forall>t. Inl t \<in> set hs \<longrightarrow> key t \<noteq> h"
  shows "\<not> live (history hs d) h"
  using assms
  by (induction hs d rule: history.induct) (auto simp: live_ins live_del split: sum.splits)

lemma rotation:
  assumes "del (key old) d = Inr (u, d1)" "ins new d1 = Inr (v, d2)" "key new \<noteq> key old"
  shows "live d2 (key new) \<and> \<not> live d2 (key old) \<and> (\<forall>h. h \<noteq> key old \<longrightarrow> live d h \<longrightarrow> live d2 h)"
  using assms live_ins [OF assms(2)] live_del [OF assms(1)] by auto

end

definition live_hash :: "auth_db \<Rightarrow> string \<Rightarrow> bool" where
  "live_hash d h \<longleftrightarrow> (\<exists>t \<in> set (refresh_tokens d). rt_TokenHash t = h)"

interpretation tokens: one_time_tokens
  live_hash "\<lambda>(t, now). stmt_insert_token t now" "\<lambda>h. stmt_delete_tokens (\<lambda>t. rt_TokenHash t = h)" "\<lambda>(t, now). rt_TokenHash t"
  by unfold_locales (auto simp: live_hash_def auth_stmts split: if_splits prod.splits)

lemma live_hash_find: "live_hash d h \<longleftrightarrow> find (\<lambda>t. rt_TokenHash t = h) (refresh_tokens d) \<noteq> None"
  by (simp add: live_hash_def find_None_iff_ball)

end
