(* ===== verification/Auth_Service.thy ===== *)
theory Auth_Service
  imports Auth_Store Http
begin

text \<open>
  The application layer of the auth service (\<^verbatim>\<open>application/auth_service.go\<close>) with its adapters
  \<^verbatim>\<open>bcrypt/hasher.go\<close> and \<^verbatim>\<open>jwt/token_service.go\<close>, and \<^verbatim>\<open>config/config.go\<close>. bcrypt, SHA-256,
  the RSA signatures of the JWT library and the system's random source are outside the
  repository: the record \<open>crypto\<close> holds them, and the laws \<open>bcrypt_law\<close> and \<open>jwt_law\<close> state
  what their documentation promises.
\<close>

section \<open>Adapters\<close>

text \<open>
  \<open>bcrypt_generate\<close> and \<open>rand_read\<close> take the number of random values drawn before.
  \<open>jwt_parse key now s\<close> parses and validates a token at the instant \<open>now\<close>; \<open>key\<close> is the key
  function, which sees the name of the signing method and accepts or refuses it.
\<close>

record crypto =
  bcrypt_generate :: "nat \<Rightarrow> string \<Rightarrow> string + string"
  bcrypt_compare :: "string \<Rightarrow> string \<Rightarrow> bool"
  rand_read :: "nat \<Rightarrow> string + string"
  sha256 :: "string \<Rightarrow> string"
  jwt_sign :: "(string \<times> json) list \<Rightarrow> string + string"
  jwt_parse :: "(string \<Rightarrow> bool) \<Rightarrow> time \<Rightarrow> string \<Rightarrow> string + (string \<times> json) list"

definition draw :: "(nat \<Rightarrow> string + 'a) \<Rightarrow> 'a auth_op" where
  "draw f w =
     (case f (entropy (db w)) of Inl e \<Rightarrow> Inl (CryptoErr e) | Inr a \<Rightarrow> Inr a,
      w\<lparr>db := (db w)\<lparr>entropy := Suc (entropy (db w))\<rparr>\<rparr>)"

definition pureE :: "string + 'a \<Rightarrow> 'a auth_op" where
  "pureE r = (case r of Inl e \<Rightarrow> failE (CryptoErr e) | Inr a \<Rightarrow> retE a)"

definition Hash :: "crypto \<Rightarrow> string \<Rightarrow> string auth_op" where
  "Hash c password = draw (\<lambda>n. bcrypt_generate c n password)"

definition Verify :: "crypto \<Rightarrow> string \<Rightarrow> string \<Rightarrow> bool" where
  "Verify c password hash = bcrypt_compare c hash password"

text \<open>\<^verbatim>\<open>t.Unix()\<close>: seconds since 1970, 62135596800 seconds after Go's zero time.\<close>

definition Unix :: "time \<Rightarrow> int" where
  "Unix t = t div Second - 62135596800"

definition GenerateAccessToken :: "crypto \<Rightarrow> int \<Rightarrow> string \<Rightarrow> string \<Rightarrow> role \<Rightarrow> (string \<times> int) auth_op" where
  "GenerateAccessToken c jwtTTL userID email rl =
     bindE readClock (\<lambda>t1. bindE readClock (\<lambda>t2.
     bindE (pureE (jwt_sign c
         [(''sub'', JStr userID), (''email'', JStr email), (''role'', JStr rl),
          (''exp'', JNum (Unix (t1 + jwtTTL))), (''iat'', JNum (Unix t2))])) (\<lambda>signed.
     retE (signed, jwtTTL))))"

definition GenerateRefreshToken :: "crypto \<Rightarrow> string auth_op" where
  "GenerateRefreshToken c = bindE (draw (rand_read c)) (\<lambda>b. retE (base64 URLEncoding b))"

definition HashRefreshToken :: "crypto \<Rightarrow> string \<Rightarrow> string" where
  "HashRefreshToken c token = base64 URLEncoding (sha256 c token)"

definition rsa_method :: "string \<Rightarrow> bool" where
  "rsa_method alg \<longleftrightarrow> alg \<in> {''RS256'', ''RS384'', ''RS512''}"

text \<open>\<^verbatim>\<open>s, _ := claims[k].(string)\<close>\<close>

definition claim_str :: "(string \<times> json) list \<Rightarrow> string \<Rightarrow> string" where
  "claim_str cs k = (case map_of cs k of Some (JStr s) \<Rightarrow> s | _ \<Rightarrow> '''')"

definition VerifyAccessToken :: "crypto \<Rightarrow> string \<Rightarrow> Claims auth_op" where
  "VerifyAccessToken c tokenString =
     bindE readClock (\<lambda>now.
     bindE (pureE (jwt_parse c rsa_method now tokenString)) (\<lambda>claims.
     retE \<lparr>cl_UserID = claim_str claims ''sub'', cl_Email = claim_str claims ''email'', cl_Role = claim_str claims ''role''\<rparr>))"

text \<open>
  The documented behaviour of the two libraries: a password verifies against its own hash; a
  token that was signed parses back to its claims while it has not expired, when the key
  function accepts RS256.
\<close>

definition bcrypt_law :: "crypto \<Rightarrow> bool" where
  "bcrypt_law c \<longleftrightarrow> (\<forall>n p h. bcrypt_generate c n p = Inr h \<longrightarrow> bcrypt_compare c h p)"

definition jwt_law :: "crypto \<Rightarrow> bool" where
  "jwt_law c \<longleftrightarrow>
     (\<forall>cs tok key now e. jwt_sign c cs = Inr tok \<longrightarrow> key ''RS256'' \<longrightarrow> map_of cs ''exp'' = Some (JNum e) \<longrightarrow>
        now < (e + 62135596800) * Second \<longrightarrow> jwt_parse c key now tok = Inr cs)"

text \<open>
  What the JWT library promises about tokens it accepts, for any token, whoever made it. \<open>alg tok\<close> is the
  algorithm the header of a token names, \<open>issued tok cs\<close> says that the holder of the private key has
  signed a token with these claims. A token is accepted only if the key function accepts its
  algorithm; a signature that verifies with the public key under an RSA algorithm was made
  with the private key (for other algorithms nothing is promised: whoever knows the public key can
  make one under HS256); and an accepted token has not expired.
\<close>

definition jwt_sound :: "(string \<Rightarrow> string) \<Rightarrow> (string \<Rightarrow> (string \<times> json) list \<Rightarrow> bool) \<Rightarrow> crypto \<Rightarrow> bool" where
  "jwt_sound alg issued c \<longleftrightarrow>
     (\<forall>key now tok cs. jwt_parse c key now tok = Inr cs \<longrightarrow>
        key (alg tok) \<and>
        (alg tok \<in> {''RS256'', ''RS384'', ''RS512''} \<longrightarrow> issued tok cs) \<and>
        (\<forall>e. map_of cs ''exp'' = Some (JNum e) \<longrightarrow> now < (e + 62135596800) * Second))"

section \<open>The service\<close>

record AuthService =
  au_crypto :: crypto
  au_jwtTTL :: int
  au_RefreshTokenTTL :: int

definition new_user :: "string \<Rightarrow> string \<Rightarrow> string \<Rightarrow> string \<Rightarrow> role \<Rightarrow> User" where
  "new_user i email hash name rl =
     \<lparr>us_ID = i, us_Email = email, us_PasswordHash = hash, us_Name = name, us_Role = rl, us_CreatedAt = 0, us_UpdatedAt = 0\<rparr>"

text \<open>A lookup that fails for another reason than a missing row counts as not found.\<close>

definition Register :: "AuthService \<Rightarrow> string \<Rightarrow> string \<Rightarrow> string \<Rightarrow> role \<Rightarrow> User auth_op" where
  "Register s email password name rl =
     handleE (user_FindByEmail email)
       (\<lambda>_. bindE (Hash (au_crypto s) password) (\<lambda>passwordHash.
            bindE newUUID (\<lambda>i.
            let user = new_user i email passwordHash name rl
            in bindE (user_Create user) (\<lambda>_. retE user))))
       (\<lambda>existing. failE ErrUserExists)"

definition RegisterOrganizer ::
    "AuthService \<Rightarrow> string \<Rightarrow> string \<Rightarrow> string \<Rightarrow> string \<Rightarrow> string \<Rightarrow> string \<Rightarrow> string \<Rightarrow> User auth_op" where
  "RegisterOrganizer s email password name organizerName description profileLink contactEmail =
     Register s email password name RoleEO"

text \<open>
  \<^verbatim>\<open>int64(ttl.Seconds())\<close> is exact for a lifetime of whole seconds, the only kind the service is
  built with.
\<close>

definition issue_pair :: "AuthService \<Rightarrow> User \<Rightarrow> TokenPair auth_op" where
  "issue_pair s user =
     bindE (GenerateAccessToken (au_crypto s) (au_jwtTTL s) (us_ID user) (us_Email user) (us_Role user)) (\<lambda>(accessToken, ttl).
     bindE (GenerateRefreshToken (au_crypto s)) (\<lambda>refreshToken.
     bindE newUUID (\<lambda>i.
     bindE readClock (\<lambda>now.
     bindE (token_Create \<lparr>rt_ID = i, rt_UserID = us_ID user, rt_TokenHash = HashRefreshToken (au_crypto s) refreshToken,
                          rt_ExpiresAt = now + au_RefreshTokenTTL s, rt_CreatedAt = 0\<rparr>) (\<lambda>_.
     retE \<lparr>tp_AccessToken = accessToken, tp_RefreshToken = refreshToken, tp_ExpiresIn = go_div ttl Second\<rparr>)))))"

definition Login :: "AuthService \<Rightarrow> string \<Rightarrow> string \<Rightarrow> TokenPair auth_op" where
  "Login s email password =
     handleE (user_FindByEmail email) (\<lambda>_. failE ErrInvalidCredentials) (\<lambda>user.
     if \<not> Verify (au_crypto s) password (us_PasswordHash user) then failE ErrInvalidCredentials
     else issue_pair s user)"

text \<open>
  \<^verbatim>\<open>RefreshToken\<close> first reads the stored token and its user, then consumes the token and issues
  a new pair; each statement is sent on its own.
\<close>

definition refresh_lookup :: "AuthService \<Rightarrow> string \<Rightarrow> User auth_op" where
  "refresh_lookup s rawRefreshToken =
     handleE (token_FindByHash (HashRefreshToken (au_crypto s) rawRefreshToken)) (\<lambda>_. failE ErrTokenNotFound) (\<lambda>stored.
     bindE readClock (\<lambda>now.
     if rt_ExpiresAt stored < now then failE ErrTokenExpired
     else handleE (user_FindByID (rt_UserID stored)) (\<lambda>_. failE ErrUserNotFound) retE))"

definition refresh_rotate :: "AuthService \<Rightarrow> string \<Rightarrow> User \<Rightarrow> TokenPair auth_op" where
  "refresh_rotate s rawRefreshToken user =
     bindE (token_DeleteByHash (HashRefreshToken (au_crypto s) rawRefreshToken)) (\<lambda>_. issue_pair s user)"

definition refresh :: "AuthService \<Rightarrow> string \<Rightarrow> TokenPair auth_op" where
  "refresh s rawRefreshToken = bindE (refresh_lookup s rawRefreshToken) (refresh_rotate s rawRefreshToken)"

definition GetMe :: "string \<Rightarrow> User auth_op" where
  "GetMe userID = user_FindByID userID"

definition VerifyToken :: "AuthService \<Rightarrow> string \<Rightarrow> Claims auth_op" where
  "VerifyToken s tokenString = VerifyAccessToken (au_crypto s) tokenString"

definition DeleteUser :: "string \<Rightarrow> unit auth_op" where
  "DeleteUser userID = user_DeleteByID userID"

section \<open>Seeding administrators\<close>

record AdminSeed =
  as_Email :: string
  as_Password :: string
  as_Name :: string

definition seedOne :: "AuthService \<Rightarrow> string \<Rightarrow> string \<Rightarrow> string \<Rightarrow> bool auth_op" where
  "seedOne s email password name =
     handleE (user_FindByEmail email)
       (\<lambda>_. bindE (Hash (au_crypto s) password) (\<lambda>hash.
            bindE newUUID (\<lambda>i.
            bindE (user_Create (new_user i email hash name RoleAdmin)) (\<lambda>_. retE True))))
       (\<lambda>existing. retE False)"

text \<open>\<^verbatim>\<open>strings.SplitN(email, "@", 2)[0]\<close> is the text before the first \<^verbatim>\<open>@\<close>, or all of it.\<close>

definition seed_name :: "AdminSeed \<Rightarrow> string" where
  "seed_name a = (if as_Name a = '''' then takeWhile (\<lambda>ch. ch \<noteq> CHR ''@'') (as_Email a) else as_Name a)"

text \<open>The number of created accounts is returned also with an error.\<close>

fun SeedAdmins :: "AuthService \<Rightarrow> AdminSeed list \<Rightarrow> int \<Rightarrow> auth_db world \<Rightarrow> (auth_error option \<times> int) \<times> auth_db world" where
  "SeedAdmins s [] created w = ((None, created), w)"
| "SeedAdmins s (a # admins) created w =
     (case seedOne s (as_Email a) (as_Password a) (seed_name a) w of
        (Inl err, w') \<Rightarrow> ((Some err, created), w')
      | (Inr ok, w') \<Rightarrow> SeedAdmins s admins (if ok then created + 1 else created) w')"

section \<open>Configuration\<close>

text \<open>
  \<open>parse\<close> is the text syntax of JSON, \<open>None\<close> for text that is not JSON. Blank text is text of
  ASCII white space.
\<close>

record Config =
  cf_AdminSeedsRaw :: string

datatype config_error = ErrSeedsNotArray | ErrSeedIncomplete nat

definition is_space :: "char \<Rightarrow> bool" where
  "is_space ch \<longleftrightarrow> (of_char ch :: nat) \<in> {9, 10, 11, 12, 13, 32}"

definition unmarshal_AdminSeed :: "json \<Rightarrow> AdminSeed option" where
  "unmarshal_AdminSeed j =
     (case dec_top j of None \<Rightarrow> None | Some kvs \<Rightarrow>
       (case (dec_str ''email'' kvs, dec_str ''password'' kvs, dec_str ''name'' kvs) of
          (Some e, Some p, Some n) \<Rightarrow> Some \<lparr>as_Email = e, as_Password = p, as_Name = n\<rparr>
        | _ \<Rightarrow> None))"

definition AdminSeeds :: "(string \<Rightarrow> json option) \<Rightarrow> Config \<Rightarrow> config_error + AdminSeed list" where
  "AdminSeeds parse c =
     (if list_all is_space (cf_AdminSeedsRaw c) then Inr []
      else (case parse (cf_AdminSeedsRaw c) of
              Some JNull \<Rightarrow> Inr []
            | Some (JArr js) \<Rightarrow> (case those (map unmarshal_AdminSeed js) of None \<Rightarrow> Inl ErrSeedsNotArray | Some seeds \<Rightarrow> Inr seeds)
            | _ \<Rightarrow> Inl ErrSeedsNotArray))"

fun check_seeds :: "nat \<Rightarrow> AdminSeed list \<Rightarrow> config_error option" where
  "check_seeds i [] = None"
| "check_seeds i (seed # seeds) =
     (if as_Email seed = '''' \<or> as_Password seed = '''' \<or> as_Name seed = '''' then Some (ErrSeedIncomplete i)
      else check_seeds (Suc i) seeds)"

definition Validate :: "(string \<Rightarrow> json option) \<Rightarrow> Config \<Rightarrow> config_error option" where
  "Validate parse c = (case AdminSeeds parse c of Inl err \<Rightarrow> Some err | Inr seeds \<Rightarrow> check_seeds 0 seeds)"

end
