(* ===== verification/Auth_Props.thy ===== *)
theory Auth_Props
  imports Auth_Service
begin

text \<open>
  The auth service: what every operation keeps of the schema, the round trip from registration
  over login to a verified token, the rotation of refresh tokens and the seeding of
  administrators.
\<close>

section \<open>Basic runs\<close>

lemma read_only_pureE [reading]: "read_only (pureE r)"
  by (auto simp: pureE_def intro: reading split: sum.split)

lemma read_only_tokens [reading]:
  "read_only (GenerateAccessToken c ttl u e r)" "read_only (VerifyAccessToken c tok)"
  unfolding GenerateAccessToken_def VerifyAccessToken_def by (intro reading)+

lemma read_only_refresh_lookup [reading]: "read_only (refresh_lookup s raw)"
  unfolding refresh_lookup_def by (intro reading)

lemma auth_schema_entropy [simp]: "auth_schema (d\<lparr>entropy := n\<rparr>) = auth_schema d"
  by (simp add: auth_schema_def)

lemma preserves_draw: "(\<And>d n. I (d\<lparr>entropy := n\<rparr>) = I d) \<Longrightarrow> preserves I (draw f)"
  by (simp add: preserves_def draw_def)

text \<open>
  An invariant that does not look at the entropy and is kept by the statements of the service
  is kept by its operations. \<open>ok\<close> says which users may be inserted.
\<close>

locale auth_invariant =
  fixes I :: "auth_db \<Rightarrow> bool" and ok :: "User \<Rightarrow> bool"
  assumes ent: "I (d\<lparr>entropy := n\<rparr>) = I d"
    and ins_user: "I d \<Longrightarrow> ok u \<Longrightarrow> stmt_insert_user u now d = Inr (x, d') \<Longrightarrow> I d'"
    and ins_token: "I d \<Longrightarrow> stmt_insert_token t now d = Inr (x, d') \<Longrightarrow> I d'"
    and del_tokens: "I d \<Longrightarrow> stmt_delete_tokens P d = Inr (x, d') \<Longrightarrow> I d'"
begin

lemma keeps_Hash: "preserves I (Hash c p)" and keeps_refresh_token: "preserves I (GenerateRefreshToken c)"
  unfolding Hash_def GenerateRefreshToken_def by (intro preserve preserves_draw ent)+

lemma keeps_user_Create: "ok u \<Longrightarrow> preserves I (user_Create u)"
  unfolding user_Create_def by (intro preserve) (rule ins_user)

lemma keeps_token_ops: "preserves I (token_Create t)" "preserves I (token_DeleteByHash h)" "preserves I (token_DeleteByUserID u)"
  unfolding token_Create_def token_DeleteByHash_def token_DeleteByUserID_def
  by (intro preserve; erule (1) ins_token del_tokens)+

lemma keeps_Register: "(\<And>i h. ok (new_user i e h n r)) \<Longrightarrow> preserves I (Register s e p n r)"
  unfolding Register_def Let_def
  by (intro preserve keeps_Hash keeps_user_Create read_only_preserves [OF read_only_auth_queries(1)]) simp

lemma keeps_issue_pair: "preserves I (issue_pair s u)"
  unfolding issue_pair_def case_prod_beta
  by (intro preserve keeps_refresh_token keeps_token_ops read_only_preserves [OF read_only_tokens(1)])

lemma keeps_Login: "preserves I (Login s e p)"
  unfolding Login_def by (intro preserve keeps_issue_pair read_only_preserves [OF read_only_auth_queries(1)])

lemma keeps_refresh: "preserves I (refresh s raw)"
  unfolding refresh_def refresh_rotate_def
  by (intro preserve keeps_issue_pair keeps_token_ops read_only_preserves [OF read_only_refresh_lookup])

lemma keeps_seedOne: "(\<And>i h. ok (new_user i e h n RoleAdmin)) \<Longrightarrow> preserves I (seedOne s e p n)"
  unfolding seedOne_def
  by (intro preserve keeps_Hash keeps_user_Create read_only_preserves [OF read_only_auth_queries(1)]) simp

end

interpretation schema: auth_invariant auth_schema "\<lambda>_. True"
  by unfold_locales (simp, (erule schema_insert_user schema_insert_token schema_delete_tokens, assumption)+)

text \<open>The administrators of a database; only \<^verbatim>\<open>SeedAdmins\<close> adds to them.\<close>

definition admins :: "auth_db \<Rightarrow> User list" where
  "admins d = filter (\<lambda>u. us_Role u = RoleAdmin) (users d)"

interpretation no_admin: auth_invariant "\<lambda>d. admins d = A" "\<lambda>u. us_Role u \<noteq> RoleAdmin" for A
  by unfold_locales (auto simp: admins_def auth_stmts split: if_splits)

section \<open>Issuing tokens\<close>

lemma draw_run [run_inv]:
  "draw f w = (Inr a, w') \<longleftrightarrow> f (entropy (db w)) = Inr a \<and> w' = w\<lparr>db := (db w)\<lparr>entropy := Suc (entropy (db w))\<rparr>\<rparr>"
  by (auto simp: draw_def split: sum.splits)

lemma pureE_run [run_inv]: "pureE r w = (Inr a, w') \<longleftrightarrow> r = Inr a \<and> w' = w"
  by (auto simp: pureE_def op_defs split: sum.splits)

lemma GenerateAccessToken_run [run_inv]:
  "GenerateAccessToken c ttl u e r w = (Inr (tok, l), w') \<longleftrightarrow>
   l = ttl \<and> w' = w\<lparr>ticks := Suc (Suc (ticks w))\<rparr> \<and>
   jwt_sign c [(''sub'', JStr u), (''email'', JStr e), (''role'', JStr r),
     (''exp'', JNum (Unix (clock w (ticks w) + ttl))), (''iat'', JNum (Unix (clock w (Suc (ticks w)))))] = Inr tok"
  by (auto simp: GenerateAccessToken_def run_inv)

text \<open>The claims of the access token a user is given when the clock stands as in \<open>w\<close>.\<close>

definition access_claims :: "AuthService \<Rightarrow> User \<Rightarrow> auth_db world \<Rightarrow> (string \<times> json) list" where
  "access_claims s u w =
    [(''sub'', JStr (us_ID u)), (''email'', JStr (us_Email u)), (''role'', JStr (us_Role u)),
     (''exp'', JNum (Unix (clock w (ticks w) + au_jwtTTL s))), (''iat'', JNum (Unix (clock w (Suc (ticks w)))))]"

lemma insert_token_rows:
  assumes "stmt_insert_token t now d = Inr (x, d')"
  shows "refresh_tokens d' = refresh_tokens d @ [t\<lparr>rt_CreatedAt := now\<rparr>]" "users d' = users d"
  using assms by (auto simp: auth_stmts split: if_splits)

lemma insert_user_rows:
  assumes "stmt_insert_user u now d = Inr (x, d')"
  shows "users d' = users d @ [u\<lparr>us_CreatedAt := now, us_UpdatedAt := now\<rparr>]" "refresh_tokens d' = refresh_tokens d" "entropy d' = entropy d"
    "us_ID u \<notin> us_ID ` set (users d)" "us_Email u \<notin> us_Email ` set (users d)"
  using assms by (auto simp: auth_stmts split: if_splits)

text \<open>What a successful call left in the database, whatever the fault schedule.\<close>

lemma issue_pair_success:
  assumes "issue_pair s u w = (Inr pair, w')"
  obtains t where "refresh_tokens (db w') = refresh_tokens (db w) @ [t]" "users (db w') = users (db w)"
    "rt_TokenHash t = HashRefreshToken (au_crypto s) (tp_RefreshToken pair)" "rt_UserID t = us_ID u"
    "rt_ExpiresAt t = clock w (ticks w + 2) + au_RefreshTokenTTL s"
    "tp_ExpiresIn pair = go_div (au_jwtTTL s) Second"
    "jwt_sign (au_crypto s) (access_claims s u w) =
     Inr (tp_AccessToken pair)"
proof -
  from assms obtain b w1 n i tok where
    ref: "draw (rand_read (au_crypto s)) (w\<lparr>ticks := Suc (Suc (ticks w))\<rparr>) = (Inr b, w1)" and
    ins: "exec (stmt_insert_token \<lparr>rt_ID = i, rt_UserID = us_ID u, rt_TokenHash = HashRefreshToken (au_crypto s) (base64 URLEncoding b),
        rt_ExpiresAt = clock w1 (ticks w1) + au_RefreshTokenTTL s, rt_CreatedAt = 0\<rparr> n) (w1\<lparr>uuid_ctr := Suc (uuid_ctr w1), ticks := Suc (Suc (ticks w1))\<rparr>) = (Inr (), w')" and
    tok: "jwt_sign (au_crypto s) (access_claims s u w) = Inr tok" and
    pair: "pair = \<lparr>tp_AccessToken = tok, tp_RefreshToken = base64 URLEncoding b, tp_ExpiresIn = go_div (au_jwtTTL s) Second\<rparr>"
    by (auto simp: access_claims_def issue_pair_def GenerateRefreshToken_def token_Create_def run_inv split: prod.splits)
  have w1: "clock w1 = clock w" "ticks w1 = ticks w + 2" "refresh_tokens (db w1) = refresh_tokens (db w)" "users (db w1) = users (db w)"
    using ref by (auto simp: run_inv)
  show thesis
  proof (rule that)
    show "refresh_tokens (db w') = refresh_tokens (db w) @ [\<lparr>rt_ID = i, rt_UserID = us_ID u,
        rt_TokenHash = HashRefreshToken (au_crypto s) (base64 URLEncoding b),
        rt_ExpiresAt = clock w1 (ticks w1) + au_RefreshTokenTTL s, rt_CreatedAt = n\<rparr>]" "users (db w') = users (db w)"
      using insert_token_rows [OF exec_Inr(1) [OF ins]] w1 by simp_all
  qed (use pair tok w1 in simp_all)
qed

text \<open>Nothing stands in the way of the tokens: the generators answer and the UUID is new.\<close>

definition can_issue :: "AuthService \<Rightarrow> User \<Rightarrow> auth_db world \<Rightarrow> bool" where
  "can_issue s u w \<longleftrightarrow> calm w \<and> (\<exists>tok. jwt_sign (au_crypto s) (access_claims s u w) = Inr tok) \<and>
     (\<exists>b. rand_read (au_crypto s) (entropy (db w)) = Inr b) \<and> uuid_src w (uuid_ctr w) \<notin> rt_ID ` set (refresh_tokens (db w))"

lemma issue_pair_calm:
  assumes ok: "can_issue s u w" and u: "us_ID u \<in> us_ID ` set (users (db w))"
  shows "\<exists>pair w'. issue_pair s u w = (Inr pair, w')"
proof -
  obtain b where b: "rand_read (au_crypto s) (entropy (db w)) = Inr b" using ok by (auto simp: can_issue_def)
  obtain tok where tok: "jwt_sign (au_crypto s) (access_claims s u w) = Inr tok"
    using ok unfolding can_issue_def by blast
  have "faults w = []" "uuid_src w (uuid_ctr w) \<notin> rt_ID ` set (refresh_tokens (db w))" using ok by (simp_all add: can_issue_def)
  with b tok u show ?thesis
    by (simp add: issue_pair_def GenerateAccessToken_def GenerateRefreshToken_def token_Create_def access_claims_def op_defs mapErr_def
        draw_def pureE_def run_stmt_def auth_stmts)
qed

lemma refresh_dead:
  assumes "\<not> live_hash (db w) (HashRefreshToken (au_crypto s) raw)"
  shows "fst (refresh s raw w) = Inl ErrTokenNotFound \<and> db (snd (refresh s raw w)) = db w"
proof -
  obtain r w1 where f: "token_FindByHash (HashRefreshToken (au_crypto s) raw) w = (r, w1)" by fastforce
  have "db w1 = db w" by (rule read_onlyD [OF read_only_auth_queries(3) f])
  moreover have "\<exists>e. r = Inl e"
    using f assms exec_Inr(1) [of "select_first _ refresh_tokens" w]
    by (cases r) (auto simp: token_FindByHash_def run_inv live_hash_find dest!: exec_Inr(1) select_first_db)
  ultimately show ?thesis using f by (auto simp: refresh_def refresh_lookup_def bindE_def handleE_def failE_def)
qed

section \<open>Refresh tokens\<close>

lemma refresh_success:
  assumes "refresh s raw w = (Inr pair, w')"
  obtains u w0 t where "refresh_lookup s raw w = (Inr u, w0)" "db w0 = db w"
    "refresh_tokens (db w') = filter (\<lambda>t. rt_TokenHash t \<noteq> HashRefreshToken (au_crypto s) raw) (refresh_tokens (db w)) @ [t]"
    "rt_TokenHash t = HashRefreshToken (au_crypto s) (tp_RefreshToken pair)" "rt_UserID t = us_ID u" "users (db w') = users (db w)"
proof -
  from assms obtain u w0 x w1 where r: "refresh_lookup s raw w = (Inr u, w0)"
    "exec (stmt_delete_tokens (\<lambda>t. rt_TokenHash t = HashRefreshToken (au_crypto s) raw)) w0 = (Inr x, w1)"
    "issue_pair s u w1 = (Inr pair, w')"
    by (auto simp: refresh_def refresh_rotate_def token_DeleteByHash_def run_inv)
  have db0: "db w0 = db w" by (rule read_onlyD [OF read_only_refresh_lookup r(1)])
  have db1: "refresh_tokens (db w1) = filter (\<lambda>t. rt_TokenHash t \<noteq> HashRefreshToken (au_crypto s) raw) (refresh_tokens (db w))"
    "users (db w1) = users (db w)"
    using exec_Inr(1) [OF r(2)] db0 by (auto simp: stmt_delete_tokens_def elim!: subst)
  show thesis by (rule issue_pair_success [OF r(3)]) (rule that [OF r(1) db0], use db1 in simp_all)
qed

text \<open>
  Property C14: a refresh token can be used once. After a successful refresh the new token is live
  and the old one is dead, and as long as no token with its hash is stored again, every further
  refresh with it is refused as not found and writes nothing, under every schedule of faults.
\<close>

theorem refresh_one_time:
  assumes "refresh s raw w = (Inr pair, w')"
    and "HashRefreshToken (au_crypto s) (tp_RefreshToken pair) \<noteq> HashRefreshToken (au_crypto s) raw"
    and "\<forall>t now. Inl (t, now) \<in> set hs \<longrightarrow> rt_TokenHash t \<noteq> HashRefreshToken (au_crypto s) raw"
    and "db w1 = tokens.history hs (db w')"
  shows "live_hash (db w') (HashRefreshToken (au_crypto s) (tp_RefreshToken pair)) \<and>
    fst (refresh s raw w1) = Inl ErrTokenNotFound \<and> db (snd (refresh s raw w1)) = db w1"
proof -
  obtain t where t: "refresh_tokens (db w') = filter (\<lambda>t. rt_TokenHash t \<noteq> HashRefreshToken (au_crypto s) raw) (refresh_tokens (db w)) @ [t]"
    "rt_TokenHash t = HashRefreshToken (au_crypto s) (tp_RefreshToken pair)"
    by (rule refresh_success [OF assms(1)])
  then have "\<not> live_hash (db w') (HashRefreshToken (au_crypto s) raw)" using assms(2) by (auto simp: live_hash_def)
  then have "\<not> live_hash (db w1) (HashRefreshToken (au_crypto s) raw)"
    unfolding assms(4) by (rule tokens.spent_stays_dead) (use assms(3) in auto)
  with t show ?thesis using refresh_dead by (simp add: live_hash_def)
qed

lemma refresh_lookup_user: "refresh_lookup s raw w = (Inr u, w0) \<Longrightarrow> u \<in> set (users (db w))"
  by (auto simp: refresh_lookup_def user_FindByID_def run_inv split: if_splits
      dest!: exec_Inr(1) select_first_db find_SomeD read_onlyD [OF read_only_auth_queries(3)])

text \<open>
  The rotation is not atomic. When a second refresh with the same token completes
  between the lookup and the deletion of the first, the first succeeds too: one refresh token
  gives two live successors.
\<close>

theorem refresh_race_both_succeed:
  assumes "refresh_lookup s raw w = (Inr u, w0)" "refresh s raw w0 = (Inr p1, w1)" "can_issue s u w1"
    and "HashRefreshToken (au_crypto s) (tp_RefreshToken p1) \<noteq> HashRefreshToken (au_crypto s) raw"
  shows "\<exists>p2 w2. refresh_rotate s raw u w1 = (Inr p2, w2) \<and>
    live_hash (db w2) (HashRefreshToken (au_crypto s) (tp_RefreshToken p1)) \<and>
    live_hash (db w2) (HashRefreshToken (au_crypto s) (tp_RefreshToken p2))"
proof -
  let ?h = "HashRefreshToken (au_crypto s)"
  have "u \<in> set (users (db w0))"
    using refresh_lookup_user [OF assms(1)] read_onlyD [OF read_only_refresh_lookup assms(1)] by simp
  moreover obtain t where t: "t \<in> set (refresh_tokens (db w1))" "rt_TokenHash t = ?h (tp_RefreshToken p1)" "users (db w1) = users (db w0)"
    using refresh_success [OF assms(2)] by (metis in_set_conv_decomp)
  ultimately have u: "us_ID u \<in> us_ID ` set (users (db w1))" by simp
  let ?w = "w1\<lparr>db := (db w1)\<lparr>refresh_tokens := filter (\<lambda>t. rt_TokenHash t \<noteq> ?h raw) (refresh_tokens (db w1))\<rparr>\<rparr>"
  have del: "token_DeleteByHash (?h raw) w1 = (Inr (), ?w)"
    using assms(3) by (simp add: can_issue_def token_DeleteByHash_def mapErr_def run_stmt_def stmt_delete_tokens_def)
  have "can_issue s u ?w" using assms(3) by (auto simp: can_issue_def access_claims_def)
  then obtain p2 w2 where p2: "issue_pair s u ?w = (Inr p2, w2)" using issue_pair_calm [of s u ?w] u by auto
  moreover obtain t2 where "refresh_tokens (db w2) = refresh_tokens (db ?w) @ [t2]" "rt_TokenHash t2 = ?h (tp_RefreshToken p2)"
    by (rule issue_pair_success [OF p2])
  ultimately show ?thesis
    using del t assms(4) by (auto simp: refresh_rotate_def bindE_def live_hash_def)
qed

section \<open>Registration and login\<close>

text \<open>
  A login is refused with the same error for an unknown address and for a wrong
  password, without writing, under every schedule of faults.
\<close>

theorem Login_refused:
  assumes "\<forall>u \<in> set (users (db w)). us_Email u = e \<longrightarrow> \<not> Verify (au_crypto s) p (us_PasswordHash u)"
  shows "fst (Login s e p w) = Inl ErrInvalidCredentials \<and> db (snd (Login s e p w)) = db w"
proof -
  obtain r w1 where f: "user_FindByEmail e w = (r, w1)" by fastforce
  have db1: "db w1 = db w" by (rule read_onlyD [OF read_only_auth_queries(1) f])
  show ?thesis
  proof (cases r)
    case (Inr u)
    with f have "u \<in> set (users (db w))" "us_Email u = e"
      by (auto simp: user_FindByEmail_def run_inv dest!: exec_Inr(1) select_first_db find_SomeD)
    with assms f Inr db1 show ?thesis by (simp add: Login_def handleE_def failE_def)
  qed (use f db1 in \<open>simp add: Login_def handleE_def failE_def\<close>)
qed

lemma Register_success:
  assumes "Register s e p n r w = (Inr u, w')"
  obtains t m where "users (db w') = users (db w) @ [u\<lparr>us_CreatedAt := t, us_UpdatedAt := t\<rparr>]"
    "e \<notin> us_Email ` set (users (db w))" "us_Email u = e" "us_Role u = r" "us_Name u = n"
    "bcrypt_generate (au_crypto s) m p = Inr (us_PasswordHash u)"
proof -
  from assms obtain e0 w1 h w2 i w3 now where r: "user_FindByEmail e w = (Inl e0, w1)"
    "Hash (au_crypto s) p w1 = (Inr h, w2)" "newUUID w2 = (Inr i, w3)" "u = new_user i e h n r"
    "exec (stmt_insert_user (new_user i e h n r) now) (w3\<lparr>ticks := Suc (ticks w3)\<rparr>) = (Inr (), w')"
    by (auto simp: Register_def user_Create_def run_inv Let_def)
  have "db w1 = db w" by (rule read_onlyD [OF read_only_auth_queries(1) r(1)])
  then have db3: "users (db w3) = users (db w)" using r(2,3) by (auto simp: Hash_def run_inv)
  show thesis
    by (rule that) (use insert_user_rows [OF exec_Inr(1) [OF r(5)]] db3 r(2,4) in \<open>auto simp: new_user_def Hash_def run_inv\<close>)
qed

text \<open>
  Property C33: the account a registration created can log in with the same password, and the
  access token of that login verifies, until it expires, to the id, address and role of the
  account.
\<close>

theorem Register_Login_Verify:
  assumes "bcrypt_law (au_crypto s)" "jwt_law (au_crypto s)" "Register s e p n r w = (Inr u, w1)" "can_issue s u w1"
  shows "\<exists>pair w2. Login s e p w1 = (Inr pair, w2) \<and>
    (\<forall>w3. clock w3 (ticks w3) < (Unix (clock w1 (ticks w1) + au_jwtTTL s) + 62135596800) * Second \<longrightarrow>
       fst (VerifyToken s (tp_AccessToken pair) w3) = Inr \<lparr>cl_UserID = us_ID u, cl_Email = e, cl_Role = r\<rparr>)"
proof -
  obtain t m where us: "users (db w1) = users (db w) @ [u\<lparr>us_CreatedAt := t, us_UpdatedAt := t\<rparr>]"
    "e \<notin> us_Email ` set (users (db w))" "us_Email u = e" "us_Role u = r"
    "bcrypt_generate (au_crypto s) m p = Inr (us_PasswordHash u)"
    by (rule Register_success [OF assms(3)])
  let ?u = "u\<lparr>us_CreatedAt := t, us_UpdatedAt := t\<rparr>"
  have "find (\<lambda>x. us_Email x = e) (users (db w)) = None" using us(2) by (auto simp: find_None_iff)
  then have "find (\<lambda>x. us_Email x = e) (users (db w1)) = Some ?u" using us(1,3) by (simp add: find_append)
  then have "user_FindByEmail e w1 = (Inr ?u, w1)"
    using assms(4) by (simp add: user_FindByEmail_def can_issue_def mapErr_def run_stmt_def select_first_def)
  moreover have "Verify (au_crypto s) p (us_PasswordHash u)" using assms(1) us(5) by (auto simp: bcrypt_law_def Verify_def)
  moreover obtain pair w2 where pair: "issue_pair s ?u w1 = (Inr pair, w2)"
    using issue_pair_calm [of s ?u w1] assms(4) us(1) by (auto simp: can_issue_def access_claims_def)
  ultimately have login: "Login s e p w1 = (Inr pair, w2)" by (simp add: Login_def handleE_def)
  have sig: "jwt_sign (au_crypto s) (access_claims s u w1) = Inr (tp_AccessToken pair)"
    by (rule issue_pair_success [OF pair]) (simp add: access_claims_def)
  have "fst (VerifyToken s (tp_AccessToken pair) w3) = Inr \<lparr>cl_UserID = us_ID u, cl_Email = e, cl_Role = r\<rparr>"
    if now: "clock w3 (ticks w3) < (Unix (clock w1 (ticks w1) + au_jwtTTL s) + 62135596800) * Second" for w3 :: "auth_db world"
  proof -
    have "jwt_parse (au_crypto s) rsa_method (clock w3 (ticks w3)) (tp_AccessToken pair) = Inr (access_claims s u w1)"
      using assms(2) [unfolded jwt_law_def, rule_format, OF sig, of rsa_method] now by (simp add: rsa_method_def access_claims_def)
    then show ?thesis using us(3,4) by (simp add: access_claims_def VerifyToken_def VerifyAccessToken_def op_defs pureE_def claim_str_def)
  qed
  with login show ?thesis by blast
qed

section \<open>Seeding\<close>

abbreviation emails :: "auth_db \<Rightarrow> string set" where
  "emails d \<equiv> us_Email ` set (users d)"

lemma FindByEmail_calm:
  "calm w \<Longrightarrow> user_FindByEmail e w =
   (case find (\<lambda>u. us_Email u = e) (users (db w)) of None \<Rightarrow> Inl (AuthErr NoRows) | Some u \<Rightarrow> Inr u, w)"
  by (simp add: user_FindByEmail_def mapErr_def run_stmt_def select_first_def split: option.split)

lemma seedOne_existing: "calm w \<Longrightarrow> e \<in> emails (db w) \<Longrightarrow> seedOne s e p n w = (Inr False, w)"
  by (auto simp: seedOne_def handleE_def FindByEmail_calm retE_def find_None_iff split: option.splits)

lemma seedOne_success:
  assumes "calm w" "seedOne s e p n w = (Inr ok, w')"
  obtains (skip) "\<not> ok" "e \<in> emails (db w)" "w' = w"
    | (new) u where "ok" "e \<notin> emails (db w)" "users (db w') = users (db w) @ [u]" "us_Email u = e" "us_Role u = RoleAdmin" "calm w'"
proof (cases "e \<in> emails (db w)")
  case True
  then show thesis using skip seedOne_existing [OF assms(1) True, of s p n] assms(2) by simp
next
  case False
  then have "find (\<lambda>u. us_Email u = e) (users (db w)) = None" by (auto simp: find_None_iff)
  with assms obtain h w2 i w3 now where r: "Hash (au_crypto s) p w = (Inr h, w2)" "newUUID w2 = (Inr i, w3)"
    "exec (stmt_insert_user (new_user i e h n RoleAdmin) now) (w3\<lparr>ticks := Suc (ticks w3)\<rparr>) = (Inr (), w')" and ok: ok
    by (auto simp: seedOne_def user_Create_def run_inv FindByEmail_calm)
  have w3: "users (db w3) = users (db w)" "calm w3" using r(1,2) assms(1) by (auto simp: Hash_def run_inv)
  have "calm w'"
    using r(3) w3 calm_run_stmt [of "stmt_insert_user (new_user i e h n RoleAdmin) now" "w3\<lparr>ticks := Suc (ticks w3)\<rparr>"] by simp
  then show thesis
    by (rule new [OF ok False, rotated -1]) (use insert_user_rows [OF exec_Inr(1) [OF r(3)]] w3 in \<open>simp add: new_user_def\<close>)+
qed

lemma SeedAdmins_success:
  assumes "calm w" "SeedAdmins s as c w = ((None, c'), w')"
  shows "\<exists>us. users (db w') = users (db w) @ us \<and> c' = c + int (length us) \<and> (\<forall>u \<in> set us. us_Role u = RoleAdmin) \<and>
    set (map us_Email us) = as_Email ` set as - emails (db w) \<and> as_Email ` set as \<subseteq> emails (db w') \<and> calm w'"
  using assms
proof (induction as arbitrary: c w)
  case (Cons a as)
  from Cons.prems(2) obtain ok w1 where one: "seedOne s (as_Email a) (as_Password a) (seed_name a) w = (Inr ok, w1)"
    and rest: "SeedAdmins s as (if ok then c + 1 else c) w1 = ((None, c'), w')"
    by (auto split: prod.splits sum.splits)
  from Cons.prems(1) one show ?case
  proof (cases rule: seedOne_success)
    case skip
    then show ?thesis using Cons.IH [of w c] Cons.prems(1) rest by auto
  next
    case (new u)
    have "SeedAdmins s as (c + 1) w1 = ((None, c'), w')" using rest new by simp
    from Cons.IH [OF \<open>calm w1\<close> this] obtain us where us: "users (db w') = users (db w1) @ us" "c' = c + 1 + int (length us)"
      "\<forall>u \<in> set us. us_Role u = RoleAdmin" "set (map us_Email us) = as_Email ` set as - emails (db w1)"
      "as_Email ` set as \<subseteq> emails (db w')" "calm w'" by blast
    show ?thesis by (rule exI [of _ "u # us"]) (use us new in auto)
  qed
qed simp

lemma SeedAdmins_skip:
  "calm w \<Longrightarrow> as_Email ` set as \<subseteq> emails (db w) \<Longrightarrow> SeedAdmins s as c w = ((None, c), w)"
  by (induction as arbitrary: c) (simp_all add: seedOne_existing)

text \<open>
  Seeding adds one administrator for each new address, leaves the existing accounts
  alone, and a second run on the result creates nothing and changes nothing.
\<close>

theorem SeedAdmins_idempotent:
  assumes "calm w" "SeedAdmins s as 0 w = ((None, c), w')"
  shows "(\<exists>us. users (db w') = users (db w) @ us \<and> c = int (length us) \<and> (\<forall>u \<in> set us. us_Role u = RoleAdmin) \<and>
      set (map us_Email us) = as_Email ` set as - emails (db w)) \<and>
    SeedAdmins s as 0 w' = ((None, 0), w')"
  using SeedAdmins_success [OF assms] SeedAdmins_skip [of w' as s 0] by auto

end
