(* ===== verification/Auth_Handlers.thy ===== *)
theory Auth_Handlers
  imports Auth_Props Http
begin

text \<open>
  The HTTP layer of the auth service: \<^verbatim>\<open>handler/dto.go\<close>, \<^verbatim>\<open>handler/auth_handler.go\<close>,
  \<^verbatim>\<open>handler/middleware.go\<close> and \<^verbatim>\<open>handler/routes.go\<close>. The validator library is outside the
  repository: \<open>validator\<close> says which requests it accepts, and \<open>validator_law\<close> states the documented
  meaning of the tags \<^verbatim>\<open>oneof\<close> and \<^verbatim>\<open>required\<close> the properties rely on.
\<close>

section \<open>Requests and responses\<close>

record RegisterRequest =
  rg_Email :: string
  rg_Password :: string
  rg_Name :: string
  rg_Role :: role

record RegisterOrganizerRequest =
  ro_Email :: string
  ro_Password :: string
  ro_Name :: string
  ro_OrganizerName :: string
  ro_Description :: string
  ro_ProfileLink :: string
  ro_ContactEmail :: string

record LoginRequest =
  lr_Email :: string
  lr_Password :: string

record RefreshRequest =
  rr_RefreshToken :: string

definition unmarshal_RegisterRequest :: "json \<Rightarrow> RegisterRequest option" where
  "unmarshal_RegisterRequest j =
     (case dec_top j of None \<Rightarrow> None | Some kvs \<Rightarrow>
       (case (dec_str ''email'' kvs, dec_str ''password'' kvs, dec_str ''name'' kvs, dec_str ''role'' kvs) of
          (Some e, Some p, Some n, Some r) \<Rightarrow> Some \<lparr>rg_Email = e, rg_Password = p, rg_Name = n, rg_Role = r\<rparr>
        | _ \<Rightarrow> None))"

definition unmarshal_RegisterOrganizerRequest :: "json \<Rightarrow> RegisterOrganizerRequest option" where
  "unmarshal_RegisterOrganizerRequest j =
     (case dec_top j of None \<Rightarrow> None | Some kvs \<Rightarrow>
       (case (dec_str ''email'' kvs, dec_str ''password'' kvs, dec_str ''name'' kvs, dec_str ''organizer_name'' kvs,
              dec_str ''description'' kvs, dec_str ''profile_link'' kvs, dec_str ''contact_email'' kvs) of
          (Some e, Some p, Some n, Some og, Some d, Some l, Some c) \<Rightarrow>
            Some \<lparr>ro_Email = e, ro_Password = p, ro_Name = n, ro_OrganizerName = og, ro_Description = d,
                  ro_ProfileLink = l, ro_ContactEmail = c\<rparr>
        | _ \<Rightarrow> None))"

definition unmarshal_LoginRequest :: "json \<Rightarrow> LoginRequest option" where
  "unmarshal_LoginRequest j =
     (case dec_top j of None \<Rightarrow> None | Some kvs \<Rightarrow>
       (case (dec_str ''email'' kvs, dec_str ''password'' kvs) of
          (Some e, Some p) \<Rightarrow> Some \<lparr>lr_Email = e, lr_Password = p\<rparr>
        | _ \<Rightarrow> None))"

definition unmarshal_RefreshRequest :: "json \<Rightarrow> RefreshRequest option" where
  "unmarshal_RefreshRequest j =
     (case dec_top j of None \<Rightarrow> None | Some kvs \<Rightarrow>
       map_option (\<lambda>t. \<lparr>rr_RefreshToken = t\<rparr>) (dec_str ''refresh_token'' kvs))"

definition userToResponse :: "User \<Rightarrow> json" where
  "userToResponse user = JObj
     [(''id'', JStr (us_ID user)), (''email'', JStr (us_Email user)), (''name'', JStr (us_Name user)), (''role'', JStr (us_Role user))]"

definition AuthResponse :: "json option \<Rightarrow> string \<Rightarrow> int \<Rightarrow> (string \<times> json) list" where
  "AuthResponse user accessToken expiresIn =
     (case user of None \<Rightarrow> [] | Some u \<Rightarrow> [(''user'', u)]) @ omit_str ''access_token'' accessToken @
     (if expiresIn = 0 then [] else [(''expires_in'', JNum expiresIn)])"

definition LoginResponse :: "TokenPair \<Rightarrow> json" where
  "LoginResponse pair = JObj
     (AuthResponse None (tp_AccessToken pair) (tp_ExpiresIn pair) @ [(''refresh_token'', JStr (tp_RefreshToken pair))])"

record validator =
  vd_register :: "RegisterRequest \<Rightarrow> bool"
  vd_organizer :: "RegisterOrganizerRequest \<Rightarrow> bool"
  vd_login :: "LoginRequest \<Rightarrow> bool"
  vd_refresh :: "RefreshRequest \<Rightarrow> bool"

definition validator_law :: "validator \<Rightarrow> bool" where
  "validator_law v \<longleftrightarrow>
     (\<forall>r. vd_register v r \<longrightarrow> rg_Role r \<in> {RoleCustomer, RoleEO} \<and> rg_Email r \<noteq> '''' \<and> rg_Password r \<noteq> '''' \<and> rg_Name r \<noteq> '''')"

section \<open>Handlers\<close>

type_synonym auth_handler = "(auth_error, auth_db) handler"

definition register_failed :: "auth_error \<Rightarrow> auth_error http_response" where
  "register_failed err =
     (if err = ErrUserExists then Error 409 (ErrVal err) else InternalServerError (Err ''registration failed''))"

definition AuthHandler_Register :: "validator \<Rightarrow> AuthService \<Rightarrow> auth_handler" where
  "AuthHandler_Register v s r ctx =
     (case Option.bind (rq_body r) unmarshal_RegisterRequest of
        None \<Rightarrow> reply (BadRequest (Err ''invalid request body''))
      | Some req \<Rightarrow>
          if \<not> vd_register v req then reply (BadRequest ErrValidation)
          else let rl = (if rg_Role req = '''' then RoleCustomer else rg_Role req)
               in respond (Register s (rg_Email req) (rg_Password req) (rg_Name req) rl) register_failed
                    (\<lambda>user. Created (JObj [(''user'', userToResponse user)])))"

definition AuthHandler_RegisterOrganizer :: "validator \<Rightarrow> AuthService \<Rightarrow> auth_handler" where
  "AuthHandler_RegisterOrganizer v s r ctx =
     (case Option.bind (rq_body r) unmarshal_RegisterOrganizerRequest of
        None \<Rightarrow> reply (BadRequest (Err ''invalid request body''))
      | Some req \<Rightarrow>
          if \<not> vd_organizer v req then reply (BadRequest ErrValidation)
          else respond (RegisterOrganizer s (ro_Email req) (ro_Password req) (ro_Name req) (ro_OrganizerName req)
                          (ro_Description req) (ro_ProfileLink req) (ro_ContactEmail req)) register_failed
                 (\<lambda>user. Created (JObj [(''user'', userToResponse user)])))"

definition AuthHandler_Login :: "validator \<Rightarrow> AuthService \<Rightarrow> auth_handler" where
  "AuthHandler_Login v s r ctx =
     (case Option.bind (rq_body r) unmarshal_LoginRequest of
        None \<Rightarrow> reply (BadRequest (Err ''invalid request body''))
      | Some req \<Rightarrow>
          if \<not> vd_login v req then reply (BadRequest ErrValidation)
          else respond (Login s (lr_Email req) (lr_Password req))
                 (\<lambda>err. if err = ErrInvalidCredentials then Unauthorized (ErrVal err) else InternalServerError (Err ''login failed''))
                 (\<lambda>pair. OK (LoginResponse pair)))"

definition AuthHandler_Refresh :: "validator \<Rightarrow> AuthService \<Rightarrow> auth_handler" where
  "AuthHandler_Refresh v s r ctx =
     (case Option.bind (rq_body r) unmarshal_RefreshRequest of
        None \<Rightarrow> reply (BadRequest (Err ''invalid request body''))
      | Some req \<Rightarrow>
          if \<not> vd_refresh v req then reply (BadRequest ErrValidation)
          else respond (refresh s (rr_RefreshToken req))
                 (\<lambda>err. if err = ErrTokenNotFound \<or> err = ErrTokenExpired then Unauthorized (ErrVal err)
                        else InternalServerError (Err ''token refresh failed''))
                 (\<lambda>pair. OK (LoginResponse pair)))"

definition AuthHandler_Me :: auth_handler where
  "AuthHandler_Me r ctx =
     (let userID = UserIDFromContext ctx
      in if userID = '''' then reply (Unauthorized (Err ''missing authentication''))
         else respond (GetMe userID) (\<lambda>_. NotFound (Err ''user not found''))
                (\<lambda>user. OK (JObj (AuthResponse (Some (userToResponse user)) '''' 0))))"

definition verified :: "Claims \<Rightarrow> auth_error http_response" where
  "verified claims =
     \<lparr>hr_status = 200, hr_body = NoBody,
      hr_headers = [(''X-Authenticated-User-ID'', cl_UserID claims), (''X-Authenticated-User-Role'', cl_Role claims),
                    (''X-Authenticated-User-Email'', cl_Email claims)]\<rparr>"

definition AuthHandler_Verify :: "AuthService \<Rightarrow> auth_handler" where
  "AuthHandler_Verify s r ctx =
     (let authHeader = rq_header r ''Authorization''
      in if authHeader = '''' then reply (Unauthorized (Err ''missing Authorization header''))
         else (case cut_prefix ''Bearer '' authHeader of
                 None \<Rightarrow> reply (Unauthorized (Err ''invalid Authorization header''))
               | Some token \<Rightarrow> respond (VerifyToken s token) (\<lambda>_. Unauthorized (Err ''invalid token'')) verified))"

definition BearerAuth :: "AuthService \<Rightarrow> auth_handler \<Rightarrow> auth_handler" where
  "BearerAuth s nxt r ctx w =
     (if UserIDFromContext ctx \<noteq> '''' then nxt r ctx w
      else (case cut_prefix ''Bearer '' (rq_header r ''Authorization'') of
              None \<Rightarrow> (Unauthorized (Err ''missing or invalid authorization header''), w)
            | Some tokenString \<Rightarrow>
                (case VerifyToken s tokenString w of
                   (Inl _, w') \<Rightarrow> (Unauthorized (Err ''invalid token''), w')
                 | (Inr claims, w') \<Rightarrow>
                     nxt r (ctx\<lparr>uc_UserID := Some (cl_UserID claims), uc_Email := Some (cl_Email claims),
                                uc_Role := Some (cl_Role claims)\<rparr>) w')))"

text \<open>The routing table, with the middleware of the protected group.\<close>

definition auth_Routes :: "validator \<Rightarrow> AuthService \<Rightarrow> string \<Rightarrow> string \<Rightarrow> auth_handler option" where
  "auth_Routes v s meth path =
     (if meth = ''POST'' \<and> path = ''/api/auth/register'' then Some (AuthHandler_Register v s)
      else if meth = ''POST'' \<and> path = ''/api/auth/register/organizer'' then Some (AuthHandler_RegisterOrganizer v s)
      else if meth = ''POST'' \<and> path = ''/api/auth/login'' then Some (AuthHandler_Login v s)
      else if meth = ''POST'' \<and> path = ''/api/auth/refresh'' then Some (AuthHandler_Refresh v s)
      else if meth = ''GET'' \<and> path = ''/api/auth/verify'' then Some (AuthHandler_Verify s)
      else if meth = ''GET'' \<and> path = ''/api/auth/me'' then Some (WithUserContext (BearerAuth s AuthHandler_Me))
      else None)"

section \<open>What the routes keep\<close>

definition keeps_resp :: "('d \<Rightarrow> bool) \<Rightarrow> ('d world \<Rightarrow> 'f http_response \<times> 'd world) \<Rightarrow> bool" where
  "keeps_resp I f \<longleftrightarrow> (\<forall>w. I (db w) \<longrightarrow> I (db (snd (f w))))"

lemma keeps_respond [preserve]: "preserves I f \<Longrightarrow> keeps_resp I (respond f fail succ)"
  by (simp add: keeps_resp_def preserves_def)

lemma keeps_reply [preserve]: "keeps_resp I (reply resp)"
  by (simp add: keeps_resp_def)

lemma keeps_resp_if [preserve]: "(b \<Longrightarrow> keeps_resp I f) \<Longrightarrow> (\<not> b \<Longrightarrow> keeps_resp I g) \<Longrightarrow> keeps_resp I (if b then f else g)"
  by simp

lemma keeps_resp_option [preserve]:
  "(x = None \<Longrightarrow> keeps_resp I f) \<Longrightarrow> (\<And>a. x = Some a \<Longrightarrow> keeps_resp I (g a)) \<Longrightarrow> keeps_resp I (case x of None \<Rightarrow> f | Some a \<Rightarrow> g a)"
  by (cases x) simp_all

lemma read_only_VerifyToken [reading]: "read_only (VerifyToken s tok)"
  unfolding VerifyToken_def by (intro reading)

context auth_invariant
begin

lemma keeps_auth_handlers:
  assumes v: "\<And>req. vd_register v req \<Longrightarrow> rg_Role req \<in> {RoleCustomer, RoleEO}"
    and ok: "\<And>i e h n r. r \<in> {RoleCustomer, RoleEO} \<Longrightarrow> ok (new_user i e h n r)"
    and h: "auth_Routes v s m p = Some h"
  shows "keeps_resp I (h r ctx)"
proof -
  have reg: "preserves I (Register s e pw n rl)" if "rl \<in> {RoleCustomer, RoleEO}" for e pw n rl
    by (rule keeps_Register) (rule ok [OF that])
  have me: "keeps_resp I (AuthHandler_Me r ctx)" for r ctx
    unfolding AuthHandler_Me_def GetMe_def Let_def by (intro preserve read_only_preserves reading)
  have "keeps_resp I (WithUserContext (BearerAuth s AuthHandler_Me) r ctx)"
    unfolding keeps_resp_def
  proof (intro allI impI)
    fix w :: "auth_db world" assume I: "I (db w)"
    have "I (db (snd (AuthHandler_Me r c w')))" if "db w' = db w" for c w'
      using me I that by (simp add: keeps_resp_def)
    then show "I (db (snd (WithUserContext (BearerAuth s AuthHandler_Me) r ctx w)))"
      using I read_onlyD [OF read_only_VerifyToken]
      by (auto simp: WithUserContext_def BearerAuth_def split: option.split prod.split sum.split)
  qed
  moreover have "keeps_resp I (AuthHandler_Register v s r ctx)"
    unfolding AuthHandler_Register_def Let_def by (intro preserve reg) (use v in auto)
  moreover have "keeps_resp I (AuthHandler_RegisterOrganizer v s r ctx)" "keeps_resp I (AuthHandler_Login v s r ctx)"
    "keeps_resp I (AuthHandler_Refresh v s r ctx)" "keeps_resp I (AuthHandler_Verify s r ctx)"
    unfolding AuthHandler_RegisterOrganizer_def AuthHandler_Login_def AuthHandler_Refresh_def AuthHandler_Verify_def
      RegisterOrganizer_def Let_def
    by (intro preserve reg keeps_Login keeps_refresh read_only_preserves [OF read_only_VerifyToken]; simp)+
  ultimately show ?thesis using h by (auto simp: auth_Routes_def split: if_splits)
qed

end

text \<open>
  Property C19: no request to the auth service creates an administrator, and every request keeps
  the constraints of the schema, whatever faults the database has.
\<close>

theorem requests_create_no_admin:
  assumes "validator_law v" "auth_Routes v s m p = Some h" "h r ctx w = (resp, w')"
  shows "admins (db w') = admins (db w) \<and> (auth_schema (db w) \<longrightarrow> auth_schema (db w'))"
proof -
  have v: "rg_Role req \<in> {RoleCustomer, RoleEO}" if "vd_register v req" for req
    using assms(1) that by (simp add: validator_law_def)
  have "keeps_resp auth_schema (h r ctx)" by (rule schema.keeps_auth_handlers [OF v _ assms(2)]) auto
  moreover have "keeps_resp (\<lambda>d. admins d = admins (db w)) (h r ctx)"
    by (rule no_admin.keeps_auth_handlers [OF v _ assms(2)]) (auto simp: new_user_def)
  ultimately show ?thesis using assms(3) by (force simp: keeps_resp_def)
qed

section \<open>Identity\<close>

lemma VerifyToken_headers [simp]:
  "map_of (hr_headers (verified c)) ''X-Authenticated-User-ID'' = Some (cl_UserID c)"
  "map_of (hr_headers (verified c)) ''X-Authenticated-User-Role'' = Some (cl_Role c)"
  "map_of (hr_headers (verified c)) ''X-Authenticated-User-Email'' = Some (cl_Email c)"
  by (simp_all add: verified_def)

text \<open>The key function admits RSA algorithms only, so what verifies was signed by the service.\<close>

lemma VerifyToken_signed:
  assumes "jwt_sound alg issued (au_crypto s)" "VerifyToken s tok w = (Inr claims, w')"
  shows "\<exists>cs. issued tok cs \<and> (\<forall>e. map_of cs ''exp'' = Some (JNum e) \<longrightarrow> clock w (ticks w) < (e + 62135596800) * Second) \<and>
    claims = \<lparr>cl_UserID = claim_str cs ''sub'', cl_Email = claim_str cs ''email'', cl_Role = claim_str cs ''role''\<rparr>"
proof -
  obtain cs where cs: "jwt_parse (au_crypto s) rsa_method (clock w (ticks w)) tok = Inr cs"
    "claims = \<lparr>cl_UserID = claim_str cs ''sub'', cl_Email = claim_str cs ''email'', cl_Role = claim_str cs ''role''\<rparr>"
    using assms(2) by (auto simp: VerifyToken_def VerifyAccessToken_def pureE_def run_inv split: sum.splits)
  with assms(1) [unfolded jwt_sound_def, rule_format, OF cs(1)] show ?thesis by (auto simp: rsa_method_def)
qed

text \<open>
  Property C20: when the gateway's question to the auth service is answered with status 200, the
  request carries a bearer token that was signed with the private key of the service and has not
  expired, and a service that receives the headers of the answer sees exactly the user, the
  address and the role this token was signed for: its role guard lets the request through if and only
  if that role is allowed. A token under another algorithm than RSA, which anybody could have made, is refused.
\<close>

theorem forwarded_identity:
  assumes "jwt_sound alg issued (au_crypto s)" "AuthHandler_Verify s r ctx w = (resp, w')" "hr_status resp = 200"
    and "\<forall>(k, val) \<in> set (hr_headers resp). rq_header r' k = val"
  shows "\<exists>tok cs. rq_header r ''Authorization'' = ''Bearer '' @ tok \<and> issued tok cs \<and>
    (\<forall>e. map_of cs ''exp'' = Some (JNum e) \<longrightarrow> clock w (ticks w) < (e + 62135596800) * Second) \<and>
    UserIDFromContext (ctx_of_headers r' no_user) = claim_str cs ''sub'' \<and>
    UserEmailFromContext (ctx_of_headers r' no_user) = claim_str cs ''email'' \<and>
    WithUserContext (RequireRole roles nxt) r' no_user w1 =
      (if claim_str cs ''role'' \<in> set roles then nxt r' (ctx_of_headers r' no_user) w1
       else (Forbidden (Err ''insufficient permissions''), w1))"
proof -
  obtain tok where tok: "cut_prefix ''Bearer '' (rq_header r ''Authorization'') = Some tok"
    and run: "respond (VerifyToken s tok) (\<lambda>_. Unauthorized (Err ''invalid token'')) verified w = (resp, w')"
    using assms(2,3) by (auto simp: AuthHandler_Verify_def Let_def reply_def responses split: if_splits option.splits)
  obtain claims where c: "VerifyToken s tok w = (Inr claims, w')" "resp = verified claims"
    using run assms(3) by (auto simp: respond_run responses)
  obtain cs where cs: "issued tok cs" "\<forall>e. map_of cs ''exp'' = Some (JNum e) \<longrightarrow> clock w (ticks w) < (e + 62135596800) * Second"
    "claims = \<lparr>cl_UserID = claim_str cs ''sub'', cl_Email = claim_str cs ''email'', cl_Role = claim_str cs ''role''\<rparr>"
    using VerifyToken_signed [OF assms(1) c(1)] by blast
  have "rq_header r ''Authorization'' = ''Bearer '' @ tok" using tok by (simp only: cut_prefix_iff)
  moreover have "rq_header r' ''X-Authenticated-User-ID'' = cl_UserID claims" "rq_header r' ''X-Authenticated-User-Role'' = cl_Role claims"
    "rq_header r' ''X-Authenticated-User-Email'' = cl_Email claims"
    using assms(4) by (simp_all add: c(2) verified_def)
  ultimately show ?thesis
    using cs by (intro exI [of _ tok] exI [of _ cs]) (simp add: WithUserContext_def RequireRole_def ctx_of_headers_user)
qed

text \<open>
  The route \<^verbatim>\<open>/api/auth/me\<close> believes the header \<^verbatim>\<open>X-Authenticated-User-ID\<close> of the
  request: without any token it answers with the account of the named user.
\<close>

theorem me_trusts_header:
  assumes "auth_Routes v s ''GET'' ''/api/auth/me'' = Some h" "calm w" "auth_schema (db w)" "u \<in> set (users (db w))"
    and "rq_header r ''X-Authenticated-User-ID'' = us_ID u" "us_ID u \<noteq> ''''"
  shows "h r no_user w = (OK (JObj [(''user'', userToResponse u)]), w)"
proof -
  have "find (\<lambda>x. us_ID x = us_ID u) (users (db w)) = Some u"
    using assms(3,4) distinct_map_find [of us_ID "users (db w)" u] by (simp add: auth_schema_def)
  then have "GetMe (us_ID u) w = (Inr u, w)"
    using assms(2) by (simp add: GetMe_def user_FindByID_def mapErr_def run_stmt_def select_first_def)
  moreover have "h = WithUserContext (BearerAuth s AuthHandler_Me)" using assms(1) by (simp add: auth_Routes_def)
  ultimately show ?thesis
    using assms(5,6) by (simp add: WithUserContext_def BearerAuth_def AuthHandler_Me_def ctx_of_headers_user respond_def AuthResponse_def omit_str_def)
qed

text \<open>
  The default role of the handler is never used: a request without a role is refused by the
  validator, since \<^verbatim>\<open>oneof\<close> has no \<^verbatim>\<open>omitempty\<close> beside it.
\<close>

lemma register_without_role:
  assumes "validator_law v" "rq_body r = Some j" "unmarshal_RegisterRequest j = Some req" "rg_Role req = ''''"
  shows "AuthHandler_Register v s r ctx w = (BadRequest ErrValidation, w)"
  using assms by (auto simp: AuthHandler_Register_def validator_law_def reply_def)

end
