(* ===== verification/Startup.thy ===== *)
theory Startup
  imports Kafka_Topics Telemetry Payment_Client Payment_Processors Ticketing_Handlers Auth_Props Auth_Handlers
begin

text \<open>
  The start of the three services (\<^verbatim>\<open>cmd/api/main.go\<close>) and the connection pool (\<^verbatim>\<open>pkg/db\<close>): the steps in
  their order, each of which may end the process with \<^verbatim>\<open>os.Exit(1)\<close>, and what serves when none of
  them does. Reading the environment, parsing keys and connection strings, and connecting are done
  by libraries and are arguments. The signals that end a process are left out.
\<close>

section \<open>The connection pool\<close>

record pool_config =
  pl_dsn :: string
  pl_MaxConns :: int
  pl_MinConns :: int
  pl_MaxConnLifetime :: int
  pl_MaxConnIdleTime :: int

datatype pool_error = ParseFailed string | CreateFailed string | PingFailed string

record pgx =
  px_ParseConfig :: "string \<Rightarrow> string option"
  px_NewWithConfig :: "pool_config \<Rightarrow> string option"
  px_Ping :: "pool_config \<Rightarrow> string option"

definition NewPool :: "pgx \<Rightarrow> string \<Rightarrow> pool_error + pool_config" where
  "NewPool px dsn =
     (case px_ParseConfig px dsn of
        Some err \<Rightarrow> Inl (ParseFailed err)
      | None \<Rightarrow>
          (let config = \<lparr>pl_dsn = dsn, pl_MaxConns = 25, pl_MinConns = 5, pl_MaxConnLifetime = 60 * Minute,
                         pl_MaxConnIdleTime = Minute * 30\<rparr>
           in case px_NewWithConfig px config of
                Some err \<Rightarrow> Inl (pool_error.CreateFailed err)
              | None \<Rightarrow> (case px_Ping px config of Some err \<Rightarrow> Inl (PingFailed err) | None \<Rightarrow> Inr config)))"

section \<open>The ticketing service\<close>

record ticketing_env = ticketing_config +
  te_AppEnv :: string
  te_Port :: string
  te_DatabaseURL :: string
  te_KafkaBrokers :: string
  te_ConsumerConcurrency :: int
  te_OutboxConcurrency :: int
  te_OutboxPollMs :: int

datatype 'c start_error =
    LoadFailed string
  | InvalidConfig 'c
  | TelemetryFailed string
  | TokenServiceFailed string
  | PoolFailed pool_error
  | TopicsFailed topics_error
  | SeedsInvalid 'c
  | SeedingFailed auth_error

definition health_of :: "string \<Rightarrow> ('e, 'd) handler" where
  "health_of service r ctx = reply (OK (JObj [(''service'', JStr service), (''status'', JStr ''ok'')]))"

definition ticketing_router ::
    "ticketing_validator \<Rightarrow> int \<Rightarrow> initiate_call \<Rightarrow> string \<Rightarrow> string \<Rightarrow> ticketing_handler option" where
  "ticketing_router v ttl pay meth pat =
     (if meth = ''GET'' \<and> (pat = ''/api/events/health'' \<or> pat = ''/api/bookings/health'') then Some (health_of ''ticketing-service'')
      else case event_Routes v meth pat of
          Some h \<Rightarrow> Some h
        | None \<Rightarrow> booking_Routes v ttl pay meth pat)"

record ticketing_process =
  tp_addr :: string
  tp_pool :: pool_config
  tp_brokers :: "string list"
  tp_concurrency :: int
  tp_consumers :: "string \<Rightarrow> (Message \<Rightarrow> unit ticketing_op) option"
  tp_outbox :: worker_config
  tp_router :: "string \<Rightarrow> string \<Rightarrow> ticketing_handler option"
  tp_flush :: flush

text \<open>
  \<open>dial\<close> is what a client of the payment service gets from the network. \<^verbatim>\<open>StartConsumers\<close> always
  returns nil.
\<close>

definition ticketing_main ::
    "string + ticketing_env \<Rightarrow> otel_sdk \<Rightarrow> pgx \<Rightarrow> 's kafka_admin \<Rightarrow> ticketing_validator \<Rightarrow> (Client \<Rightarrow> int \<Rightarrow> initiate_call) \<Rightarrow>
     's \<Rightarrow> (ticketing_config_error start_error + ticketing_process) \<times> 's" where
  "ticketing_main load sdk px k v dial s =
     (case load of
        Inl err \<Rightarrow> (Inl (LoadFailed err), s)
      | Inr cfg \<Rightarrow>
     (case ticketing_Validate (ticketing_config.truncate cfg) of
        Some err \<Rightarrow> (Inl (InvalidConfig err), s)
      | None \<Rightarrow>
     (case telemetry_Init sdk \<lparr>pv_propagator = False, pv_tracer = False, pv_meter = False\<rparr> of
        ((_, _, Some err), _) \<Rightarrow> (Inl (TelemetryFailed err), s)
      | ((shutdownTelemetry, httpMetrics, None), _) \<Rightarrow>
     (case NewPool px (te_DatabaseURL cfg) of
        Inl err \<Rightarrow> (Inl (PoolFailed err), s)
      | Inr pool \<Rightarrow>
          (let paymentClient = NewClient (tcfg_PaymentServiceURL cfg) (tcfg_InternalAPIKey cfg);
               kafkaBrokers = split_on (CHR '','') (te_KafkaBrokers cfg)
           in case ticketing_EnsureTopics k kafkaBrokers s of
                (Inl err, s') \<Rightarrow> (Inl (TopicsFailed err), s')
              | (Inr _, s') \<Rightarrow>
                  (Inr \<lparr>tp_addr = '':'' @ te_Port cfg, tp_pool = pool, tp_brokers = kafkaBrokers,
                        tp_concurrency = WithConcurrency (te_ConsumerConcurrency cfg), tp_consumers = StartConsumers,
                        tp_outbox = NewWorker (te_OutboxConcurrency cfg) (te_OutboxPollMs cfg),
                        tp_router = ticketing_router v (tcfg_ReservationTTL cfg) (dial paymentClient (tcfg_PaymentTimeoutSec cfg)),
                        tp_flush = shutdownTelemetry\<rparr>, s'))))))"

section \<open>The payment service\<close>

record payment_env = payment_config +
  pe_AppEnv :: string
  pe_Port :: string
  pe_DatabaseURL :: string
  pe_KafkaBrokers :: string
  pe_ConsumerConcurrency :: int
  pe_OutboxConcurrency :: int
  pe_OutboxPollMs :: int
  pe_WebhookCallbackTok :: string
  pe_InternalAPIKey :: string

definition payment_router :: "PaymentHandler \<Rightarrow> string \<Rightarrow> string \<Rightarrow> payment_handler option" where
  "payment_router h meth pat =
     (if meth = ''GET'' \<and> pat = ''/api/payments/health'' then Some (health_of ''payment-service'') else payment_Routes h meth pat)"

text \<open>
  The goroutine of \<^verbatim>\<open>StartExpiryPoller\<close>: the period of its ticker, and what a number of ticks do, each
  of them \<^verbatim>\<open>ProcessExpired(ctx, 100)\<close> (\<open>expiry_poller\<close>). \<^verbatim>\<open>time.NewTicker\<close> panics if its period is not
  positive (\<open>None\<close>).
\<close>

definition StartExpiryPoller :: "PaymentService \<Rightarrow> int \<Rightarrow> (int \<times> (nat \<Rightarrow> unit payment_op)) option" where
  "StartExpiryPoller s intervalSec =
     (let d = wrap64 (intervalSec * Second) in if d \<le> 0 then None else Some (d, expiry_poller s))"

record payment_process =
  pp_addr :: string
  pp_pool :: pool_config
  pp_brokers :: "string list"
  pp_concurrency :: int
  pp_consumers :: "string \<Rightarrow> (Message \<Rightarrow> unit payment_op) option"
  pp_outbox :: worker_config
  pp_poller :: "(int \<times> (nat \<Rightarrow> unit payment_op)) option"
  pp_handler :: PaymentHandler
  pp_router :: "string \<Rightarrow> string \<Rightarrow> payment_handler option"
  pp_flush :: flush

definition payment_main ::
    "string + payment_env \<Rightarrow> otel_sdk \<Rightarrow> pgx \<Rightarrow> 's kafka_admin \<Rightarrow> (nat \<Rightarrow> xendit_call \<Rightarrow> exchange) \<Rightarrow>
     's \<Rightarrow> (payment_config_error start_error + payment_process) \<times> 's" where
  "payment_main load sdk px k net s =
     (case load of
        Inl err \<Rightarrow> (Inl (LoadFailed err), s)
      | Inr cfg \<Rightarrow>
     (case payment_Validate (payment_config.truncate cfg) of
        Some err \<Rightarrow> (Inl (InvalidConfig err), s)
      | None \<Rightarrow>
     (case telemetry_Init sdk \<lparr>pv_propagator = False, pv_tracer = False, pv_meter = False\<rparr> of
        ((_, _, Some err), _) \<Rightarrow> (Inl (TelemetryFailed err), s)
      | ((shutdownTelemetry, httpMetrics, None), _) \<Rightarrow>
     (case NewPool px (pe_DatabaseURL cfg) of
        Inl err \<Rightarrow> (Inl (PoolFailed err), s)
      | Inr pool \<Rightarrow>
          (let kafkaBrokers = split_on (CHR '','') (pe_KafkaBrokers cfg)
           in case payment_EnsureTopics k kafkaBrokers s of
                (Inl err, s') \<Rightarrow> (Inl (TopicsFailed err), s')
              | (Inr _, s') \<Rightarrow>
                  (let svc = NewPaymentService net (payment_config.truncate cfg);
                       h = \<lparr>ph_svc = svc, ph_internalKey = pe_InternalAPIKey cfg, ph_callbackToken = pe_WebhookCallbackTok cfg\<rparr>
                   in (Inr \<lparr>pp_addr = '':'' @ pe_Port cfg, pp_pool = pool, pp_brokers = kafkaBrokers,
                            pp_concurrency = WithConcurrency (pe_ConsumerConcurrency cfg), pp_consumers = payment_StartConsumer,
                            pp_outbox = NewWorker (pe_OutboxConcurrency cfg) (pe_OutboxPollMs cfg),
                            pp_poller = StartExpiryPoller svc (cfg_ExpiryPollSec cfg), pp_handler = h,
                            pp_router = payment_router h, pp_flush = shutdownTelemetry\<rparr>, s')))))))"

section \<open>The auth service\<close>

record auth_env = Config +
  ae_AppEnv :: string
  ae_Port :: string
  ae_DatabaseURL :: string
  ae_JWTPrivateKey :: string
  ae_JWTPublicKey :: string

definition accessTokenTTL :: int where "accessTokenTTL = 15 * Minute"
definition refreshTokenTTL :: int where "refreshTokenTTL = 7 * 24 * (60 * Minute)"

text \<open>\<open>keys\<close> parses the private and the public key; the rest of \<open>crypto\<close> does not depend on them.\<close>

definition NewTokenService :: "(string \<Rightarrow> string \<Rightarrow> string + crypto) \<Rightarrow> string \<Rightarrow> string \<Rightarrow> string + crypto" where
  "NewTokenService keys privateKeyPEM publicKeyPEM =
     (if privateKeyPEM = '''' then Inl ''JWT_PRIVATE_KEY is required''
      else if publicKeyPEM = '''' then Inl ''JWT_PUBLIC_KEY is required''
      else keys privateKeyPEM publicKeyPEM)"

text \<open>All routes, the check of the health included, see the user context of the headers.\<close>

definition auth_router :: "validator \<Rightarrow> AuthService \<Rightarrow> string \<Rightarrow> string \<Rightarrow> auth_handler option" where
  "auth_router v s meth path =
     map_option WithUserContext
       (if meth = ''GET'' \<and> path = ''/api/auth/health'' then Some (health_of ''auth-service'') else auth_Routes v s meth path)"

record auth_process =
  ap_addr :: string
  ap_pool :: pool_config
  ap_service :: AuthService
  ap_router :: "string \<Rightarrow> string \<Rightarrow> auth_handler option"
  ap_flush :: flush

definition auth_main ::
    "string + auth_env \<Rightarrow> otel_sdk \<Rightarrow> pgx \<Rightarrow> (string \<Rightarrow> string \<Rightarrow> string + crypto) \<Rightarrow> (string \<Rightarrow> json option) \<Rightarrow> validator \<Rightarrow>
     auth_db world \<Rightarrow> (config_error start_error + auth_process) \<times> auth_db world" where
  "auth_main load sdk px keys parse v w =
     (case load of
        Inl err \<Rightarrow> (Inl (LoadFailed err), w)
      | Inr cfg \<Rightarrow>
     (case Validate parse (Config.truncate cfg) of
        Some err \<Rightarrow> (Inl (InvalidConfig err), w)
      | None \<Rightarrow>
     (case telemetry_Init sdk \<lparr>pv_propagator = False, pv_tracer = False, pv_meter = False\<rparr> of
        ((_, _, Some err), _) \<Rightarrow> (Inl (TelemetryFailed err), w)
      | ((shutdownTelemetry, httpMetrics, None), _) \<Rightarrow>
     (case NewTokenService keys (ae_JWTPrivateKey cfg) (ae_JWTPublicKey cfg) of
        Inl err \<Rightarrow> (Inl (TokenServiceFailed err), w)
      | Inr tokenSvc \<Rightarrow>
     (case NewPool px (ae_DatabaseURL cfg) of
        Inl err \<Rightarrow> (Inl (PoolFailed err), w)
      | Inr pool \<Rightarrow>
          (let authSvc = \<lparr>au_crypto = tokenSvc, au_jwtTTL = accessTokenTTL, au_RefreshTokenTTL = refreshTokenTTL\<rparr>;
               running = \<lparr>ap_addr = '':'' @ ae_Port cfg, ap_pool = pool, ap_service = authSvc,
                          ap_router = auth_router v authSvc, ap_flush = shutdownTelemetry\<rparr>
           in case AdminSeeds parse (Config.truncate cfg) of
                Inl err \<Rightarrow> (Inl (SeedsInvalid err), w)
              | Inr seeds \<Rightarrow>
                  if 0 < length seeds
                  then (case SeedAdmins authSvc seeds 0 w of
                          ((Some err, created), w') \<Rightarrow> (Inl (SeedingFailed err), w')
                        | ((None, created), w') \<Rightarrow> (Inr running, w'))
                  else (Inr running, w)))))))"

section \<open>What serves when the processes have started\<close>

lemma NewPool_Inr: "NewPool px dsn = Inr pool \<Longrightarrow> pl_dsn pool = dsn \<and> pl_MinConns pool \<le> pl_MaxConns pool"
  by (auto simp: NewPool_def Let_def split: option.splits)

lemma NewWorker_positive: "0 < wc_pollInterval (NewWorker c ms)" "1 \<le> wc_concurrency (NewWorker c ms)"
  by (auto simp: NewWorker_def Let_def)

lemma WithConcurrency_positive: "1 \<le> WithConcurrency n"
  by (simp add: WithConcurrency_def)

lemma poller_runs: "0 < sec \<Longrightarrow> sec \<le> 9223372036 \<Longrightarrow> StartExpiryPoller s sec = Some (sec * Second, expiry_poller s)"
  by (simp add: StartExpiryPoller_def int8_ok_def)

text \<open>
  \<^verbatim>\<open>Validate\<close> asks only for a positive \<^verbatim>\<open>EXPIRY_POLL_SEC\<close>. From 9223372037 seconds on the period does
  not fit 64 bits in nanoseconds; this one wraps to a negative period, and the goroutine panics.
\<close>

lemma poller_overflows: "StartExpiryPoller s 9223372037 = None"
  by (simp add: StartExpiryPoller_def wrap64_def Let_def)

lemma ticketing_main_Inr:
  assumes "ticketing_main (Inr cfg) sdk px k v dial s = (Inr p, s')"
  shows "ticketing_Validate (ticketing_config.truncate cfg) = None"
    "ticketing_EnsureTopics k (tp_brokers p) s = (Inr (), s')" "tp_consumers p = StartConsumers"
    "tp_outbox p = NewWorker (te_OutboxConcurrency cfg) (te_OutboxPollMs cfg)" "tp_concurrency p = WithConcurrency (te_ConsumerConcurrency cfg)"
    "tp_router p = ticketing_router v (tcfg_ReservationTTL cfg)
       (dial (NewClient (tcfg_PaymentServiceURL cfg) (tcfg_InternalAPIKey cfg)) (tcfg_PaymentTimeoutSec cfg))"
  using assms by (auto simp: ticketing_main_def Let_def split: sum.splits option.splits prod.splits)

lemma payment_main_Inr:
  assumes "payment_main (Inr cfg) sdk px k net s = (Inr q, s')"
  shows "payment_Validate (payment_config.truncate cfg) = None"
    "payment_EnsureTopics k (pp_brokers q) s = (Inr (), s')" "pp_consumers q = payment_StartConsumer"
    "pp_outbox q = NewWorker (pe_OutboxConcurrency cfg) (pe_OutboxPollMs cfg)" "pp_concurrency q = WithConcurrency (pe_ConsumerConcurrency cfg)"
    "pp_poller q = StartExpiryPoller (ph_svc (pp_handler q)) (cfg_ExpiryPollSec cfg)" "pp_router q = payment_router (pp_handler q)"
    "ph_svc (pp_handler q) = NewPaymentService net (payment_config.truncate cfg)"
  using assms by (auto simp: payment_main_def Let_def split: sum.splits option.splits prod.splits)


text \<open>
  Property C26: the auth service serves only if its seeds are complete, and then every address of a seed has an
  account: those that had none have got an administrator, the accounts that were there are
  untouched, and a restart on the result creates nothing more.
\<close>

theorem auth_starts_with_admins:
  assumes "calm w" "auth_main (Inr cfg) sdk px keys parse v w = (Inr p, w')"
  shows "\<exists>seeds us. AdminSeeds parse (Config.truncate cfg) = Inr seeds \<and>
    (\<forall>a \<in> set seeds. as_Email a \<noteq> '''' \<and> as_Password a \<noteq> '''' \<and> as_Name a \<noteq> '''') \<and>
    users (db w') = users (db w) @ us \<and> (\<forall>u \<in> set us. us_Role u = RoleAdmin) \<and>
    set (map us_Email us) = as_Email ` set seeds - emails (db w) \<and> as_Email ` set seeds \<subseteq> emails (db w') \<and>
    auth_main (Inr cfg) sdk px keys parse v w' = (Inr p, w')"
proof -
  have complete: "check_seeds i seeds = None \<Longrightarrow> \<forall>a \<in> set seeds. as_Email a \<noteq> '''' \<and> as_Password a \<noteq> '''' \<and> as_Name a \<noteq> ''''" for i seeds
    by (induction seeds arbitrary: i) (auto split: if_splits)
  obtain seeds where seeds: "AdminSeeds parse (Config.truncate cfg) = Inr seeds" "check_seeds 0 seeds = None"
    using assms(2) by (auto simp: auth_main_def Validate_def split: sum.splits option.splits)
  show ?thesis
  proof (cases "seeds = []")
    case True
    with assms(2) seeds have "w' = w" by (auto simp: auth_main_def Let_def split: sum.splits option.splits prod.splits)
    with True seeds assms(2) show ?thesis by (intro exI [of _ "[]"]) simp
  next
    case False
    have run: "\<exists>c. SeedAdmins (ap_service p) seeds 0 w = ((None, c), w') \<and> 
        (\<forall>u. auth_main (Inr cfg) sdk px keys parse v u = (case SeedAdmins (ap_service p) seeds 0 u of
           ((Some err, created), u') \<Rightarrow> (Inl (SeedingFailed err), u') | ((None, created), u') \<Rightarrow> (Inr p, u')))"
      using assms(2) seeds False
      by (auto simp: auth_main_def Let_def split: sum.splits option.splits prod.splits)
    then obtain c where c: "SeedAdmins (ap_service p) seeds 0 w = ((None, c), w')" by blast
    from SeedAdmins_success [OF assms(1) c] obtain us where us: "users (db w') = users (db w) @ us" "\<forall>u \<in> set us. us_Role u = RoleAdmin"
      "set (map us_Email us) = as_Email ` set seeds - emails (db w)" "as_Email ` set seeds \<subseteq> emails (db w')" "calm w'" by blast
    have "auth_main (Inr cfg) sdk px keys parse v w' = (Inr p, w')"
      using run SeedAdmins_skip [OF us(5,4), of "ap_service p" 0] by auto
    with us seeds complete [OF seeds(2)] show ?thesis by (intro exI [of _ seeds] exI [of _ us]) simp
  qed
qed

end
