(* ===== verification/Responses.thy ===== *)
theory Responses
  imports Startup
begin

text \<open>
  The envelope of \<^verbatim>\<open>pkg/response\<close> over the routes of all three services: which status codes they
  answer with, and that data come with a success and errors with a failure.
\<close>

named_theorems answers \<open>rules for handlers that answer in the envelope\<close>

definition envelope :: "'e http_response \<Rightarrow> bool" where
  "envelope resp \<longleftrightarrow>
     (case hr_body resp of
        NoBody \<Rightarrow> False
      | Data _ \<Rightarrow> hr_status resp \<in> {200, 201} \<and> hr_headers resp = json_header
      | _ \<Rightarrow> hr_status resp \<in> {400, 401, 403, 404, 409, 500, 502} \<and> hr_headers resp = json_header)"

fun is_error :: "'e body \<Rightarrow> bool" where
  "is_error NoBody = False" | "is_error (Data _) = False" | "is_error _ = True"

lemma envelope_success [answers]: "envelope (OK j)" "envelope (Created j)"
  by (simp_all add: envelope_def responses)

lemma envelope_error [answers]:
  "is_error b \<Longrightarrow> envelope (BadRequest b)" "is_error b \<Longrightarrow> envelope (Unauthorized b)" "is_error b \<Longrightarrow> envelope (Forbidden b)"
  "is_error b \<Longrightarrow> envelope (NotFound b)" "is_error b \<Longrightarrow> envelope (InternalServerError b)"
  "is_error b \<Longrightarrow> envelope (Error 409 b)" "is_error b \<Longrightarrow> envelope (Error 502 b)"
  by (cases b; simp add: envelope_def responses)+

lemma is_error_bodies [answers]: "is_error (Err s)" "is_error (ErrVal e)" "is_error ErrValidation"
  by simp_all

lemma envelope_if [answers]: "(c \<Longrightarrow> envelope x) \<Longrightarrow> (\<not> c \<Longrightarrow> envelope y) \<Longrightarrow> envelope (if c then x else y)"
  by simp

text \<open>A handler, or what is left of it after its arguments, that answers in the envelope.\<close>

definition answering :: "('d world \<Rightarrow> 'e http_response \<times> 'd world) \<Rightarrow> bool" where
  "answering f \<longleftrightarrow> (\<forall>w. envelope (fst (f w)))"

lemma answering_respond [answers]: "(\<And>e. envelope (fail e)) \<Longrightarrow> (\<And>a. envelope (succ a)) \<Longrightarrow> answering (respond f fail succ)"
  by (simp add: answering_def respond_def split: prod.split sum.split)

lemma answering_reply [answers]: "envelope resp \<Longrightarrow> answering (reply resp)"
  by (simp add: answering_def)

lemma answering_if [answers]: "(c \<Longrightarrow> answering f) \<Longrightarrow> (\<not> c \<Longrightarrow> answering g) \<Longrightarrow> answering (if c then f else g)"
  by simp

lemma answering_option [answers]:
  "answering f \<Longrightarrow> (\<And>a. answering (g a)) \<Longrightarrow> answering (case x of None \<Rightarrow> f | Some a \<Rightarrow> g a)"
  by (cases x) simp_all

lemma answering_role [answers]: "answering (k r ctx) \<Longrightarrow> answering (RequireRole roles k r ctx)"
  using envelope_error(3) [of "Err ''insufficient permissions''"]
  by (auto simp: answering_def RequireRole_def)

lemma answering_context [answers]: "answering (k r (ctx_of_headers r ctx)) \<Longrightarrow> answering (WithUserContext k r ctx)"
  by (simp add: WithUserContext_def)

section \<open>Failures\<close>

lemma failures [answers]:
  "envelope (not_found_or_bad e)" "envelope (reserve_failed e)" "envelope (process_failed p)" "envelope (webhook_failed m p)"
  "envelope (register_failed a)" "envelope received"
  by (auto simp: not_found_or_bad_def reserve_failed_def process_failed_def webhook_failed_def register_failed_def received_def
      envelope_def responses split: ticketing_error.split payment_error.split)

lemma envelope_prod [answers]: "(\<And>a b. envelope (f a b)) \<Longrightarrow> envelope (case p of (a, b) \<Rightarrow> f a b)"
  by (cases p) simp

section \<open>Handlers\<close>

lemma event_handlers [answers]:
  "answering (EventHandler_CreateEvent v r ctx)" "answering (EventHandler_UpdateEvent v r ctx)" "answering (EventHandler_ApproveEvent r ctx)"
  "answering (EventHandler_RejectEvent v r ctx)" "answering (EventHandler_CancelEvent r ctx)"
  "answering (EventHandler_ReprocessCancellation r ctx)" "answering (EventHandler_GetEvent r ctx)"
  "answering (EventHandler_ListPublished r ctx)" "answering (EventHandler_ListMyEvents r ctx)"
  "answering (EventHandler_ListPending r ctx)" "answering (EventHandler_ListAll r ctx)"
  unfolding EventHandler_CreateEvent_def EventHandler_UpdateEvent_def EventHandler_ApproveEvent_def EventHandler_RejectEvent_def
    EventHandler_CancelEvent_def EventHandler_ReprocessCancellation_def EventHandler_GetEvent_def EventHandler_ListPublished_def
    EventHandler_ListMyEvents_def EventHandler_ListPending_def EventHandler_ListAll_def Let_def
  by (intro answers)+

lemma booking_handlers [answers]:
  "answering (BookingHandler_Reserve v ttl pay r ctx)" "answering (BookingHandler_Release r ctx)"
  "answering (BookingHandler_GetBooking r ctx)" "answering (BookingHandler_ListMyBookings r ctx)"
  unfolding BookingHandler_Reserve_def BookingHandler_Release_def BookingHandler_GetBooking_def BookingHandler_ListMyBookings_def
  by (intro answers)+

lemma payment_handlers [answers]:
  "answering (PaymentHandler_InitiateTxnForBooking h r ctx)" "answering (PaymentHandler_ProcessPayment h r ctx)"
  "answering (PaymentHandler_GetPaymentStatus r ctx)" "answering (PaymentHandler_GetStatus r ctx)"
  "answering (PaymentHandler_GetTransaction r ctx)" "answering (PaymentHandler_Webhook h r ctx)"
  "answering (PaymentHandler_ListTransactions r ctx)"
  unfolding PaymentHandler_InitiateTxnForBooking_def PaymentHandler_ProcessPayment_def PaymentHandler_GetPaymentStatus_def
    PaymentHandler_GetStatus_def PaymentHandler_GetTransaction_def PaymentHandler_Webhook_def PaymentHandler_ListTransactions_def
  by (intro answers)+

lemma mock_answers [answers]: "answering (PaymentHandler_MockSessionWebhook r ctx)"
proof -
  have "envelope (fst (respond (HandleSessionWebhook p) (webhook_failed msg) (\<lambda>_. received) w))" for p msg w
    using failures(4,6) by (simp add: respond_def split: prod.split sum.split)
  then show ?thesis
    unfolding answering_def PaymentHandler_MockSessionWebhook_def
    by (auto intro!: envelope_error split: option.split prod.split sum.split)
qed

lemma internal_answers [answers]: "answering (k r ctx) \<Longrightarrow> answering (requireInternalKey h k r ctx)"
  by (auto simp: answering_def requireInternalKey_def intro!: envelope_error)

lemma auth_handlers [answers]:
  "answering (AuthHandler_Register av s r ctx)" "answering (AuthHandler_RegisterOrganizer av s r ctx)" "answering (AuthHandler_Login av s r ctx)"
  "answering (AuthHandler_Refresh av s r ctx)" "answering (AuthHandler_Me r ctx)"
  unfolding AuthHandler_Register_def AuthHandler_RegisterOrganizer_def AuthHandler_Login_def AuthHandler_Refresh_def AuthHandler_Me_def
    Let_def
  by (intro answers)+

lemma bearer_answers [answers]: "(\<And>c. answering (k r c)) \<Longrightarrow> answering (BearerAuth s k r ctx)"
  by (auto simp: answering_def BearerAuth_def intro!: envelope_error split: option.split prod.split sum.split)

text \<open>
  The token check is asked by the gateway and not by clients: a token that is good is answered by an empty
  200 with the identity in its headers, everything else in the envelope.
\<close>

lemma Verify_answers: "envelope (fst (AuthHandler_Verify s r ctx w)) \<or> (\<exists>claims. fst (AuthHandler_Verify s r ctx w) = verified claims)"
proof -
  have "envelope (fst (respond (VerifyToken s tok) (\<lambda>_. Unauthorized (Err ''invalid token'')) verified w)) \<or>
      (\<exists>claims. fst (respond (VerifyToken s tok) (\<lambda>_. Unauthorized (Err ''invalid token'')) verified w) = verified claims)" for tok
    by (auto simp: respond_def intro!: envelope_error split: prod.split sum.split)
  then show ?thesis
    by (auto simp: AuthHandler_Verify_def Let_def intro!: envelope_error split: option.split)
qed

lemma health_answers [answers]: "answering (health_of service r ctx)"
  unfolding health_of_def by (intro answers)

section \<open>Routes\<close>

lemma ticketing_answers: "event_Routes v meth pat = Some k \<or> booking_Routes v ttl pay meth pat = Some k \<Longrightarrow> answering (k r ctx)"
  unfolding event_Routes_def booking_Routes_def Let_def by (auto intro!: answers split: if_splits)

lemma payment_answers: "payment_Routes h meth pat = Some k \<Longrightarrow> answering (k r ctx)"
  unfolding payment_Routes_def Let_def by (auto intro!: answers split: if_splits)

lemma auth_answers:
  "auth_Routes av s meth pat = Some k \<Longrightarrow> \<not> (meth = ''GET'' \<and> pat = ''/api/auth/verify'') \<Longrightarrow> answering (k r ctx)"
  unfolding auth_Routes_def by (auto intro!: answers split: if_splits)

text \<open>
  Property C34: whatever request a route of the routers of the ticketing, payment or auth service handles, those of their
  health included, and whatever the database does, the answer has the one form clients are
  promised: a body with data under 200 or 201, or a body with an error under 400, 401, 403, 404,
  409, 500 or 502, both as JSON. No route answers an error with a success code or the other way
  round, and none without a body, but the token check for the gateway: it answers a good token by
  the empty 200 with the identity in its headers (\<open>verified\<close>).
\<close>

theorem responses_well_formed:
  "(ticketing_router v ttl pay meth pat = Some k \<longrightarrow> envelope (fst (k r ctx w))) \<and>
   (payment_router h meth pat = Some kp \<longrightarrow> envelope (fst (kp r ctx wp))) \<and>
   (auth_router av s meth pat = Some ka \<longrightarrow> envelope (fst (ka r ctx wa)) \<or>
      meth = ''GET'' \<and> pat = ''/api/auth/verify'' \<and> (\<exists>claims. fst (ka r ctx wa) = verified claims))"
proof (intro conjI impI)
  assume "ticketing_router v ttl pay meth pat = Some k"
  then have "k = health_of ''ticketing-service'' \<or> event_Routes v meth pat = Some k \<or> booking_Routes v ttl pay meth pat = Some k"
    by (auto simp: ticketing_router_def split: if_splits option.splits)
  then have "answering (k r ctx)" using ticketing_answers health_answers by blast
  then show "envelope (fst (k r ctx w))" by (simp add: answering_def)
next
  assume "payment_router h meth pat = Some kp"
  then have "answering (kp r ctx)" using payment_answers health_answers by (auto simp: payment_router_def split: if_splits)
  then show "envelope (fst (kp r ctx wp))" by (simp add: answering_def)
next
  assume "auth_router av s meth pat = Some ka"
  then obtain k where k: "ka = WithUserContext k" "k = health_of ''auth-service'' \<or> auth_Routes av s meth pat = Some k"
    by (auto simp: auth_router_def split: if_splits)
  show "envelope (fst (ka r ctx wa)) \<or>
      meth = ''GET'' \<and> pat = ''/api/auth/verify'' \<and> (\<exists>claims. fst (ka r ctx wa) = verified claims)"
  proof (cases "meth = ''GET'' \<and> pat = ''/api/auth/verify'' \<and> auth_Routes av s meth pat = Some k")
    case True
    then have "k = AuthHandler_Verify s" by (auto simp: auth_Routes_def split: if_splits)
    with True k(1) Verify_answers [of s r _ wa] show ?thesis by (auto simp: WithUserContext_def)
  next
    case False
    with k(2) have "answering (k r c)" for c using auth_answers health_answers by blast
    then have "answering (ka r ctx)" unfolding k(1) by (intro answers)
    then show ?thesis by (simp add: answering_def)
  qed
qed

end
