(* ===== verification/Ticketing_Requests.thy ===== *)
theory Ticketing_Requests
  imports Ticketing_Handlers Reservation
begin

text \<open>
  What the routes of the ticketing service let a caller do: which operation a request can reach
  with which role and identity, who can read a booking, and which pages the lists give.
\<close>

section \<open>Reading routes\<close>

definition reads :: "ticketing_handler \<Rightarrow> bool" where
  "reads h \<longleftrightarrow> (\<forall>r ctx w. db (snd (h r ctx w)) = db w)"

lemma read_only_reader [reading]: "read_only (reader_Available ev i)"
  unfolding reader_Available_def select_ticket_def by (auto intro!: reading split: option.splits)

lemma read_only_live_seats [reading]: "read_only (live_seats ev types)"
  by (induction types) (auto intro!: reading)

lemma read_only_events [reading]:
  "read_only (ListPublished l k)" "read_only (ListByOrganizer u)" "read_only (ListPending l k)" "read_only (ListAll s l k)"
  "read_only (GetEvent i)" "read_only (GetBooking i)" "read_only (ListMyBookings u)"
  by (simp_all add: ListPublished_def ListByOrganizer_def ListPending_def ListAll_def GetEvent_def GetBooking_def
      ListMyBookings_def booking_ListByUser_def reading)

lemmas events_unchanged [simp] = read_only_events [unfolded read_only_def, rule_format]

lemma reads_handlers:
  "reads EventHandler_ListPublished" "reads EventHandler_GetEvent" "reads EventHandler_ListMyEvents"
  "reads EventHandler_ListAll" "reads EventHandler_ListPending" "reads BookingHandler_Release"
  "reads BookingHandler_ListMyBookings" "reads BookingHandler_GetBooking"
  by (simp_all add: reads_def EventHandler_ListPublished_def EventHandler_GetEvent_def EventHandler_ListMyEvents_def
      EventHandler_ListAll_def EventHandler_ListPending_def BookingHandler_Release_def BookingHandler_ListMyBookings_def
      BookingHandler_GetBooking_def)

section \<open>Authorisation\<close>

text \<open>The calls of the event service that a user with a role may make.\<close>

fun permitted :: "role \<Rightarrow> string \<Rightarrow> event_call \<Rightarrow> bool" where
  "permitted rl uid (CallCreate org t de vn va cap st en types) = (rl = RoleEO \<and> org = uid)"
| "permitted rl uid (CallUpdate i org t de st en) = (rl = RoleEO \<and> org = uid)"
| "permitted rl uid (CallApprove i admin) = (rl = RoleAdmin \<and> admin = uid)"
| "permitted rl uid (CallReject i admin reason) = (rl = RoleAdmin \<and> admin = uid)"
| "permitted rl uid (CallCancel i u) = (rl = RoleEO \<and> u = uid)"
| "permitted rl uid (CallReprocess i u) = (rl = RoleEO \<and> u = uid)"
| "permitted rl uid (CallReprocessAsAdmin i) = (rl = RoleAdmin)"

definition within :: "role \<Rightarrow> string \<Rightarrow> ticketing_db world \<Rightarrow> ticketing_error http_response \<times> ticketing_db world \<Rightarrow> bool" where
  "within rl uid w out \<longleftrightarrow>
     db (snd out) = db w \<or> (\<exists>c r. permitted rl uid c \<and> run_call c w = (r, snd out))"

lemma within_respond: "permitted rl uid c \<Longrightarrow> run_call c = f \<Longrightarrow> within rl uid w (respond f fail succ w)"
  unfolding within_def by (metis respond_world prod.collapse)

lemma within_reply: "within rl uid w (reply resp w)"
  by (simp add: within_def)

lemma within_reads: "reads h \<Longrightarrow> within rl uid w (h r ctx w)"
  by (simp add: within_def reads_def)

lemmas within_lists = reads_handlers(1-5) [THEN within_reads]

lemma within_guard:
  assumes "UserRoleFromContext ctx \<in> set roles \<Longrightarrow> within rl uid w (h r ctx w)"
  shows "within rl uid w (RequireRole roles h r ctx w)"
  using assms by (simp add: RequireRole_def within_def)

lemma within_event_handlers:
  "UserRoleFromContext ctx = RoleEO \<Longrightarrow> within RoleEO (UserIDFromContext ctx) w (EventHandler_CreateEvent v r ctx w)"
  "UserRoleFromContext ctx = RoleEO \<Longrightarrow> within RoleEO (UserIDFromContext ctx) w (EventHandler_UpdateEvent v r ctx w)"
  "UserRoleFromContext ctx = RoleEO \<Longrightarrow> within RoleEO (UserIDFromContext ctx) w (EventHandler_CancelEvent r ctx w)"
  "UserRoleFromContext ctx = RoleEO \<Longrightarrow> within RoleEO (UserIDFromContext ctx) w (EventHandler_ReprocessCancellation r ctx w)"
  "UserRoleFromContext ctx = RoleAdmin \<Longrightarrow> within RoleAdmin (UserIDFromContext ctx) w (EventHandler_ReprocessCancellation r ctx w)"
  "UserRoleFromContext ctx = RoleAdmin \<Longrightarrow> within RoleAdmin (UserIDFromContext ctx) w (EventHandler_ApproveEvent r ctx w)"
  "UserRoleFromContext ctx = RoleAdmin \<Longrightarrow> within RoleAdmin (UserIDFromContext ctx) w (EventHandler_RejectEvent v r ctx w)"
proof -
  let ?u = "UserIDFromContext ctx"
  show "within RoleEO ?u w (EventHandler_CreateEvent v r ctx w)"
    unfolding EventHandler_CreateEvent_def
    by (auto split: option.split simp: within_reply intro!: within_respond [where c = "CallCreate _ _ _ _ _ _ _ _ _"])
  show "within RoleEO ?u w (EventHandler_UpdateEvent v r ctx w)"
    unfolding EventHandler_UpdateEvent_def
    by (auto split: option.split simp: within_reply intro!: within_respond [where c = "CallUpdate _ _ _ _ _ _"])
  show "within RoleEO ?u w (EventHandler_CancelEvent r ctx w)"
    unfolding EventHandler_CancelEvent_def by (rule within_respond [where c = "CallCancel _ _"]) auto
  show "UserRoleFromContext ctx = RoleEO \<Longrightarrow> within RoleEO ?u w (EventHandler_ReprocessCancellation r ctx w)"
    unfolding EventHandler_ReprocessCancellation_def Let_def by (rule within_respond [where c = "CallReprocess _ _"]) auto
  show "UserRoleFromContext ctx = RoleAdmin \<Longrightarrow> within RoleAdmin ?u w (EventHandler_ReprocessCancellation r ctx w)"
    unfolding EventHandler_ReprocessCancellation_def Let_def by (rule within_respond [where c = "CallReprocessAsAdmin _"]) auto
  show "within RoleAdmin ?u w (EventHandler_ApproveEvent r ctx w)"
    unfolding EventHandler_ApproveEvent_def by (rule within_respond [where c = "CallApprove _ _"]) auto
  show "within RoleAdmin ?u w (EventHandler_RejectEvent v r ctx w)"
    unfolding EventHandler_RejectEvent_def
    by (auto split: option.split simp: within_reply intro!: within_respond [where c = "CallReject _ _ _"])
qed

text \<open>
  Property C16: a request to the event routes either leaves the database as it was or makes exactly
  one call of the event service that the role and the identity in its headers permit: only
  organizers create, edit and cancel, and only in their own name; only administrators approve and
  reject.
\<close>

theorem event_requests_authorised:
  assumes "event_Routes v meth pat = Some h" "h r no_user w = (resp, w')"
  shows "db w' = db w \<or>
    (\<exists>c res. permitted (rq_header r ''X-Authenticated-User-Role'') (rq_header r ''X-Authenticated-User-ID'') c \<and>
       run_call c w = (res, w'))"
proof -
  let ?rl = "rq_header r ''X-Authenticated-User-Role''" and ?u = "rq_header r ''X-Authenticated-User-ID''"
  let ?c = "ctx_of_headers r no_user"
  note ctx = ctx_of_headers_user [of r]
  have g: "within ?rl ?u w (WithUserContext (RequireRole [rl] k) r no_user w)"
    if "UserRoleFromContext ?c = rl \<Longrightarrow> within rl (UserIDFromContext ?c) w (k r ?c w)" for rl k
    unfolding WithUserContext_def by (rule within_guard) (use that ctx in auto)
  have "within ?rl ?u w (h r no_user w)"
    using assms(1) unfolding event_Routes_def Let_def
    by (auto split: if_splits intro!: g within_lists within_event_handlers)
  with assms(2) show ?thesis by (simp add: within_def)
qed

lemma Reserve_request:
  assumes "BookingHandler_Reserve v ttl pay r ctx w = (resp, w')" "ticketing_validator_law v"
  shows "db w' = db w \<or> (\<exists>ev items res. items \<noteq> [] \<and> (\<forall>i \<in> set items. 0 < bi_Quantity i \<and> 0 < bi_UnitPriceRupiah i) \<and>
    Reserve ttl pay (UserIDFromContext ctx) (UserEmailFromContext ctx) ev items w = (res, w'))"
proof (cases "db w' = db w")
  case False
  then obtain req where req: "vt_reserve v req"
    "respond (Reserve ttl pay (UserIDFromContext ctx) (UserEmailFromContext ctx) (rv_EventID req) (map item_of (rv_Items req)))
       reserve_failed (\<lambda>res. Created (ReservationResponse res)) w = (resp, w')"
    using assms(1) by (auto simp: BookingHandler_Reserve_def reply_def split: option.splits if_splits)
  from req(1) assms(2) have "map item_of (rv_Items req) \<noteq> []"
    "\<forall>i \<in> set (map item_of (rv_Items req)). 0 < bi_Quantity i \<and> 0 < bi_UnitPriceRupiah i"
    by (fastforce simp: ticketing_validator_law_def item_of_def)+
  moreover obtain res where "Reserve ttl pay (UserIDFromContext ctx) (UserEmailFromContext ctx) (rv_EventID req) (map item_of (rv_Items req)) w = (res, w')"
    using req(2) by (auto simp: respond_run)
  ultimately show ?thesis by blast
qed simp

text \<open>
  Property C17: a request to the booking routes either leaves the database as it was or makes one
  reservation, for a customer, in the name of the authenticated user and with positive quantities
  and prices; and it keeps the inventory when the payment service accepts and no reply is lost.
\<close>

theorem booking_requests_authorised:
  assumes "booking_Routes v ttl pay meth pat = Some h" "ticketing_validator_law v" "h r no_user w = (resp, w')"
  shows "(db w' = db w \<or>
    (rq_header r ''X-Authenticated-User-Role'' = RoleCustomer \<and>
     (\<exists>ev items res. items \<noteq> [] \<and> (\<forall>i \<in> set items. 0 < bi_Quantity i \<and> 0 < bi_UnitPriceRupiah i) \<and>
       Reserve ttl pay (rq_header r ''X-Authenticated-User-ID'') (rq_header r ''X-Authenticated-User-Email'') ev items w = (res, w')))) \<and>
    (inventory_ok (db w) \<longrightarrow> clear w \<longrightarrow> (\<forall>i e u em tot ex. pay i e u em tot ex = None) \<longrightarrow> inventory_ok (db w'))"
proof -
  let ?c = "ctx_of_headers r no_user"
  note ctx = ctx_of_headers_user [of r]
  have main: "db w' = db w \<or> (UserRoleFromContext ?c = RoleCustomer \<and>
      (\<exists>ev items res. items \<noteq> [] \<and> (\<forall>i \<in> set items. 0 < bi_Quantity i \<and> 0 < bi_UnitPriceRupiah i) \<and>
       Reserve ttl pay (UserIDFromContext ?c) (UserEmailFromContext ?c) ev items w = (res, w')))"
  proof (cases "meth = ''POST'' \<and> pat = ''/api/bookings/reserve''")
    case True
    then show ?thesis
      using assms Reserve_request [of v ttl pay r ?c w resp w']
      by (auto simp: booking_Routes_def WithUserContext_def RequireRole_def Let_def split: if_splits)
  next
    case False
    then have "db (snd (h r no_user w)) = db w"
      using assms(1) reads_handlers(6-8)
      by (auto simp: booking_Routes_def Let_def WithUserContext_def RequireRole_def reads_def split: if_splits)
    then show ?thesis using assms(3) by simp
  qed
  moreover have "inventory_ok (db w')" if i: "inventory_ok (db w)" and c: "clear w" and p: "\<forall>i e u em tot ex. pay i e u em tot ex = None"
  proof (cases "db w' = db w")
    case False
    with main obtain ev items res where it: "\<forall>i \<in> set items. 0 < bi_Quantity i"
      "Reserve ttl pay (UserIDFromContext ?c) (UserEmailFromContext ?c) ev items w = (res, w')" by blast
    have "inventory_ok (db (snd (Reserve ttl pay (UserIDFromContext ?c) (UserEmailFromContext ?c) ev items w)))"
      by (rule Reserve_keeps [OF i c _ it(1)]) (use p in blast)
    with it(2) show ?thesis by simp
  qed (use i in simp)
  ultimately show ?thesis by (auto simp: ctx)
qed

section \<open>Reading\<close>

text \<open>
  Property C24: a booking is shown only to the user it belongs to. Every other caller gets the same
  answer as for a booking that does not exist.
\<close>

theorem GetBooking_private:
  assumes "booking_Routes v ttl pay ''GET'' ''/api/bookings/{id}'' = Some h" "h r no_user w = (resp, w')"
  shows "db w' = db w \<and>
    (resp = NotFound (Err ''booking not found'') \<or>
     (\<exists>b row. resp = OK (bookingToResponse b) \<and> find (\<lambda>x. br_ID x = rq_param r ''id'') (bookings (db w)) = Some row \<and>
        br_UserID row = rq_header r ''X-Authenticated-User-ID'' \<and> bk_UserID b = br_UserID row \<and> bk_Status b = br_Status row))"
proof -
  have h: "h = WithUserContext BookingHandler_GetBooking" using assms(1) by (simp add: booking_Routes_def)
  have db: "db w' = db w" using reads_handlers(8) assms(2) unfolding h reads_def WithUserContext_def by (metis snd_conv)
  consider e where "resp = NotFound (Err ''booking not found'')"
    | b where "booking_FindByID (rq_param r ''id'') w = (Inr b, w')" "bk_UserID b = rq_header r ''X-Authenticated-User-ID''"
        "resp = OK (bookingToResponse b)"
    using assms(2) unfolding h WithUserContext_def BookingHandler_GetBooking_def respond_run GetBooking_def
    by (auto simp: ctx_of_headers_user split: if_splits)
  then show ?thesis
  proof cases
    case (2 b)
    with FindByID_snapshot [OF this(1)] db show ?thesis by fastforce
  qed (use db in simp)
qed

text \<open>With distinct keys there is one order a query may return.\<close>

lemma order_asc_unique:
  assumes "mset xs = mset rs" "sorted (map k xs)" "distinct (map k rs)"
  shows "xs = order_asc k rs"
proof -
  have ys: "mset (order_asc k rs) = mset rs" by (simp add: order_asc_def)
  have "mset (map k xs) = mset (map k rs)" using assms(1) by simp
  then have "distinct (map k xs)" using assms(3) mset_eq_imp_distinct_iff by blast
  moreover have "set xs = set (order_asc k rs)" using mset_eq_setD [OF assms(1)] by simp
  ultimately have inj: "inj_on k (set xs \<union> set (order_asc k rs))" by (simp add: distinct_map)
  have "sort (map k rs) = map k xs" by (rule properties_for_sort) (use assms(1,2) in simp_all)
  moreover have "sort (map k rs) = map k (order_asc k rs)" by (rule properties_for_sort) (use ys in \<open>simp_all add: order_asc_def\<close>)
  ultimately have "map k xs = map k (order_asc k rs)" by simp
  then show ?thesis using inj by (rule map_inj_on)
qed

text \<open>Consecutive pages of a list are the list.\<close>

lemma pages:
  assumes "0 < l"
  shows "concat (map (\<lambda>k. limit_offset l (int k * l) xs) [0..<n]) = take (n * nat l) xs"
proof (induction n)
  case (Suc n)
  have "nat (int n * l) = n * nat l" using assms by (simp add: nat_mult_distrib)
  moreover have "take (Suc n * nat l) xs = take (n * nat l) xs @ take (nat l) (drop (n * nat l) xs)"
    using take_add [of "n * nat l" "nat l" xs] by (simp add: add.commute)
  ultimately show ?case using Suc by (simp add: limit_offset_def)
qed simp

lemma page_limit_pos: "0 < page_limit r"
  by (simp add: page_limit_def Let_def)

text \<open>The event as the queries scan it, in the order of the public list.\<close>

abbreviation published_list :: "ticketing_db \<Rightarrow> Event list" where
  "published_list d \<equiv> map scan_event (order_asc ev_StartAt (filter (\<lambda>e. ev_Status e = ''published'') (events d)))"

lemma ListPublished_calm:
  assumes "calm w" "0 \<le> page_offset r"
  shows "EventHandler_ListPublished r ctx w =
    (OK (EventListResponse (limit_offset (page_limit r) (page_offset r) (published_list (db w)),
      int (count_where (\<lambda>e. ev_Status e = ''published'') (events (db w))))), w)"
  using assms page_limit_pos [of r]
  by (simp add: EventHandler_ListPublished_def respond_def ListPublished_def repo_ListPublished_def count_events_def
      select_page_def handleE_def bindE_def mapErr_def retE_def run_stmt_def limit_offset_def take_map drop_map)

text \<open>
  Property C38: the public list can be read page by page, as long as no two published events start at the same
  time. Requests with the offsets \<open>0\<close>, \<open>l\<close>, \<open>2l\<close> and so on, with enough pages and no change of the events in
  between, return every published event exactly once, in the order of their start, at most \<open>l\<close> on a
  page, with the total number on each; no other event is shown. The last conjunct says that this
  order is the only one the query allows, so nothing is due to how the model breaks ties. When
  two published events start at the same time, \<^verbatim>\<open>ORDER BY start_at ASC\<close> leaves their order open
  and may choose another one for the next page.
\<close>

theorem published_pages:
  assumes "calm w" "\<forall>k < n. page_limit (rs k) = l \<and> page_offset (rs k) = int k * l"
    and "int (count_where (\<lambda>e. ev_Status e = ''published'') (events (db w))) \<le> int n * l"
    and "distinct (map ev_StartAt (filter (\<lambda>e. ev_Status e = ''published'') (events (db w))))"
  shows "\<exists>pg. (\<forall>k < n. EventHandler_ListPublished (rs k) ctx w =
      (OK (EventListResponse (pg k, int (count_where (\<lambda>e. ev_Status e = ''published'') (events (db w))))), w) \<and> int (length (pg k)) \<le> l) \<and>
    concat (map pg [0..<n]) = published_list (db w) \<and>
    (\<forall>evs. mset evs = mset (filter (\<lambda>e. ev_Status e = ''published'') (events (db w))) \<and> sorted (map ev_StartAt evs) \<longrightarrow>
       map scan_event evs = published_list (db w))"
proof -
  let ?pg = "\<lambda>k. limit_offset l (int k * l) (published_list (db w))"
  have len: "length (published_list (db w)) = count_where (\<lambda>e. ev_Status e = ''published'') (events (db w))"
    by (simp add: order_asc_def count_where_def)
  have "EventHandler_ListPublished (rs k) ctx w =
      (OK (EventListResponse (?pg k, int (count_where (\<lambda>e. ev_Status e = ''published'') (events (db w))))), w) \<and> int (length (?pg k)) \<le> l"
    if "k < n" for k
  proof -
    have k: "page_limit (rs k) = l" "page_offset (rs k) = int k * l" using assms(2) that by auto
    then have "0 < l" using page_limit_pos [of "rs k"] by simp
    with ListPublished_calm [OF assms(1), of "rs k" ctx] k show ?thesis by (simp add: limit_offset_def)
  qed
  moreover have "concat (map ?pg [0..<n]) = published_list (db w)"
  proof (cases n)
    case 0
    then show ?thesis using assms(3) len by simp
  next
    case (Suc m)
    then have "0 < l" using assms(2) page_limit_pos [of "rs 0"] by auto
    moreover have "length (published_list (db w)) \<le> n * nat l"
    proof -
      have "int (n * nat l) = int n * l" using \<open>0 < l\<close> by simp
      then have "int (length (published_list (db w))) \<le> int (n * nat l)" using assms(3) by (simp only: len)
      then show ?thesis by (simp only: of_nat_le_iff)
    qed
    ultimately show ?thesis using pages [of l "published_list (db w)" n] by (simp del: length_map)
  qed
  moreover have "map scan_event evs = published_list (db w)"
    if "mset evs = mset (filter (\<lambda>e. ev_Status e = ''published'') (events (db w)))" "sorted (map ev_StartAt evs)" for evs
    using order_asc_unique [OF that assms(4)] by simp
  ultimately show ?thesis by (intro exI [of _ ?pg]) blast
qed

end
