(* ===== verification/Reservation_Bounds.thy ===== *)
theory Reservation_Bounds
  imports Reservation
begin

text \<open>
  When the 64-bit sums of \<^verbatim>\<open>Reserve\<close> are the true amounts. The code checks no overflow; what bounds
  the amounts is the seats: a reservation that succeeds took its seats from those that were left, so
  it costs no more than the whole house.
\<close>

definition full_house :: "ticketing_db \<Rightarrow> int" where
  "full_house d = (\<Sum>t \<leftarrow> ticket_types d. tt_PriceRupiah t * tt_Quantity t)"

text \<open>An item costs the stored price, so the total can be summed by ticket type.\<close>

lemma single_type:
  assumes "distinct (map tt_ID ts)" "find (\<lambda>x. tt_ID x = i) ts = Some r"
  shows "(\<Sum>t \<leftarrow> ts. f t * (if i = tt_ID t then q else 0)) = f r * (q :: int)"
  using assms
proof (induction ts)
  case (Cons a ts)
  show ?case
  proof (cases "tt_ID a = i")
    case True
    then have "\<forall>t \<in> set ts. tt_ID t \<noteq> i" using Cons.prems(1) by (metis distinct.simps(2) image_eqI list.set_map list.simps(9))
    then have "(\<Sum>t \<leftarrow> ts. f t * (if i = tt_ID t then q else 0)) = 0" by (induction ts) auto
    with True Cons.prems(2) show ?thesis by simp
  qed (use Cons in auto)
qed simp

lemma total_by_type:
  assumes "distinct (map tt_ID (ticket_types d))"
    and "\<forall>it \<in> set items. price d (bi_TicketTypeID it) = Some (bi_UnitPriceRupiah it)"
  shows "exact_total items = (\<Sum>t \<leftarrow> ticket_types d. tt_PriceRupiah t * items_qty (tt_ID t) items)"
  using assms(2)
proof (induction items)
  case (Cons it items)
  then obtain r where r: "find (\<lambda>x. tt_ID x = bi_TicketTypeID it) (ticket_types d) = Some r" "tt_PriceRupiah r = bi_UnitPriceRupiah it"
    by (auto simp: price_def)
  have "(\<Sum>t \<leftarrow> ticket_types d. tt_PriceRupiah t * items_qty (tt_ID t) (it # items)) =
      (\<Sum>t \<leftarrow> ticket_types d. tt_PriceRupiah t * (if bi_TicketTypeID it = tt_ID t then bi_Quantity it else 0)) +
      (\<Sum>t \<leftarrow> ticket_types d. tt_PriceRupiah t * items_qty (tt_ID t) items)"
    by (simp add: distrib_left sum_list_addf)
  also have "\<dots> = bi_UnitPriceRupiah it * bi_Quantity it + exact_total items"
    using single_type [OF assms(1) r(1), of tt_PriceRupiah] r(2) Cons by simp
  finally show ?case by (simp add: exact_total_def)
qed (simp add: exact_total_def)

lemma taken_fit:
  assumes "Reserve ttl pay userID email ev items w = (Inr res, w')" "schema_ok (db w)" "t \<in> set (ticket_types (db w))"
  shows "0 \<le> items_qty (tt_ID t) items" "items_qty (tt_ID t) items \<le> tt_Quantity t"
proof -
  have pos: "\<forall>it \<in> set items. 0 < bi_Quantity it" and
    left: "avail (db w') (tt_ID t) = map_option (\<lambda>a. a - items_qty (tt_ID t) items) (avail (db w) (tt_ID t))"
    using Reserve_effect(1,2) [OF assms(1,2)] by auto
  show "0 \<le> items_qty (tt_ID t) items" by (rule items_qty_nonneg) (use pos in \<open>auto intro: less_imp_le\<close>)
  have "find (\<lambda>x. tt_ID x = tt_ID t) (ticket_types (db w)) = Some t"
    using assms(2,3) by (intro distinct_map_find) (auto simp: schema_ok_def)
  then have "avail (db w') (tt_ID t) = Some (tt_Available t - items_qty (tt_ID t) items)" using left by (simp add: avail_def)
  moreover have "schema_ok (db w')" using assms(1,2) by (rule Reserve_Inr)
  ultimately have "0 \<le> tt_Available t - items_qty (tt_ID t) items"
    by (auto simp: avail_def schema_ok_def ticket_check_def dest!: find_SomeD)
  moreover have "tt_Available t \<le> tt_Quantity t" using assms(2,3) by (simp add: schema_ok_def ticket_check_def)
  ultimately show "items_qty (tt_ID t) items \<le> tt_Quantity t" by simp
qed

lemma item_within_total:
  assumes "\<forall>it \<in> set items. 0 \<le> bi_UnitPriceRupiah it * bi_Quantity it" "it \<in> set items"
  shows "bi_UnitPriceRupiah it * bi_Quantity it \<le> exact_total items"
  unfolding exact_total_def using assms by (intro member_le_sum_list) auto

text \<open>
  Property C12: nothing overflows: if the value of all seats at their prices fits 64 bits, then the total of every
  reservation that succeeds, under any fault schedule, is the true sum of the prices, not negative and at most that
  value, and so is the price stored for each of its items.
\<close>

theorem Reserve_total_bounds:
  assumes "Reserve ttl pay userID email ev items w = (Inr res, w')" "schema_ok (db w)" "full_house (db w) < 2 ^ 63"
  shows "rs_TotalRupiah res = exact_total items \<and> 0 \<le> rs_TotalRupiah res \<and> rs_TotalRupiah res \<le> full_house (db w) \<and>
    (\<exists>rows. booking_items (db w') = booking_items (db w) @ rows \<and>
       map (\<lambda>r. (ir_TicketTypeID r, ir_Quantity r, ir_TotalPriceRupiah r)) rows =
       map (\<lambda>it. (bi_TicketTypeID it, bi_Quantity it, bi_UnitPriceRupiah it * bi_Quantity it)) items)"
proof -
  note eff = Reserve_effect [OF assms(1,2)] and fit = taken_fit [OF assms(1,2)]
  let ?ts = "ticket_types (db w)"
  have price0: "0 \<le> tt_PriceRupiah t" if "t \<in> set ?ts" for t using assms(2) that by (simp add: schema_ok_def ticket_check_def)
  have total: "exact_total items = (\<Sum>t \<leftarrow> ?ts. tt_PriceRupiah t * items_qty (tt_ID t) items)"
    by (rule total_by_type) (use assms(2) eff(2) in \<open>auto simp: schema_ok_def\<close>)
  have "0 \<le> exact_total items" unfolding total by (rule sum_list_nonneg) (use price0 fit(1) in auto)
  moreover have le: "exact_total items \<le> full_house (db w)"
    unfolding total full_house_def by (rule sum_list_mono) (use price0 fit(2) in \<open>auto intro: mult_left_mono\<close>)
  ultimately have in_range: "int8_ok (exact_total items)" using assms(3) by (simp add: int8_ok_def)
  have cost: "0 \<le> bi_UnitPriceRupiah it * bi_Quantity it" if it: "it \<in> set items" for it
  proof -
    obtain z where "find (\<lambda>x. tt_ID x = bi_TicketTypeID it) (ticket_types (db w)) = Some z" "tt_PriceRupiah z = bi_UnitPriceRupiah it"
      "0 < bi_Quantity it" using eff(2) it by (auto simp: price_def)
    with find_SomeD [of _ _ z] price0 [of z] show ?thesis by auto
  qed
  have exact: "wrap64 (bi_UnitPriceRupiah it * bi_Quantity it) = bi_UnitPriceRupiah it * bi_Quantity it" if "it \<in> set items" for it
  proof (rule wrap64_id)
    have "bi_UnitPriceRupiah it * bi_Quantity it \<le> exact_total items" using cost that by (intro item_within_total) auto
    with cost [OF that] in_range show "int8_ok (bi_UnitPriceRupiah it * bi_Quantity it)"
      unfolding int8_ok_def by linarith
  qed
  obtain rows where rows: "booking_items (db w') = booking_items (db w) @ rows"
      "map (\<lambda>r. (ir_BookingID r, ir_TicketTypeID r, ir_Quantity r, ir_TotalPriceRupiah r)) rows =
       map (\<lambda>it. (rs_BookingID res, bi_TicketTypeID it, bi_Quantity it, wrap64 (bi_UnitPriceRupiah it * bi_Quantity it))) items"
    using eff(5) by blast
  have "map (\<lambda>r. (ir_TicketTypeID r, ir_Quantity r, ir_TotalPriceRupiah r)) rows =
      map (\<lambda>it. (bi_TicketTypeID it, bi_Quantity it, wrap64 (bi_UnitPriceRupiah it * bi_Quantity it))) items"
    using arg_cong [where f = "map snd", OF rows(2), unfolded map_map comp_def snd_conv] .
  also have "\<dots> = map (\<lambda>it. (bi_TicketTypeID it, bi_Quantity it, bi_UnitPriceRupiah it * bi_Quantity it)) items"
    using exact by simp
  finally have "map (\<lambda>r. (ir_TicketTypeID r, ir_Quantity r, ir_TotalPriceRupiah r)) rows =
      map (\<lambda>it. (bi_TicketTypeID it, bi_Quantity it, bi_UnitPriceRupiah it * bi_Quantity it)) items" .
  with rows(1) \<open>0 \<le> exact_total items\<close> le in_range eff(3) show ?thesis by auto
qed

end
