(* ===== verification/Ticketing_Samples.thy ===== *)
theory Ticketing_Samples
  imports Reservation_Paths Reservation_Bounds Event_Service
begin

text \<open>
  A small ticketing database on which the properties of the ticketing service are instantiated:
  one published and one pending event, two ticket types, one pending booking.
\<close>

definition sample_event :: Event where
  "sample_event =
     \<lparr>ev_ID = ''e1'', ev_OrganizerID = ''o1'', ev_Title = ''Concert'', ev_Description = '''',
      ev_VenueName = ''Hall'', ev_VenueAddress = '''', ev_VenueCapacity = 10, ev_StartAt = 100, ev_EndAt = 200,
      ev_Status = ''published'', ev_ReviewedBy = Some ''a1'', ev_ReviewedAt = Some 5, ev_CreatedAt = 1, ev_UpdatedAt = 5\<rparr>"

definition sample_draft :: Event where
  "sample_draft = sample_event\<lparr>ev_ID := ''e2'', ev_Status := ''pending'', ev_ReviewedBy := None, ev_ReviewedAt := None\<rparr>"

definition sample_vip :: TicketType where
  "sample_vip =
     \<lparr>tt_ID = ''vip'', tt_EventID = ''e1'', tt_Name = ''VIP'', tt_PriceRupiah = 100, tt_Quantity = 5,
      tt_Available = 3, tt_MaxPerOrder = 4\<rparr>"

definition sample_reg :: TicketType where
  "sample_reg = sample_vip\<lparr>tt_ID := ''reg'', tt_Name := ''Regular'', tt_PriceRupiah := 50, tt_Quantity := 4, tt_Available := 4\<rparr>"

definition sample_std :: TicketType where
  "sample_std = sample_vip\<lparr>tt_ID := ''std'', tt_EventID := ''e2'', tt_Name := ''Standard'', tt_Quantity := 8, tt_Available := 0\<rparr>"

definition sample_booking :: booking_row where
  "sample_booking =
     \<lparr>br_ID = ''b1'', br_UserID = ''u1'', br_EventID = ''e1'', br_Status = ''pending'', br_ExpiresAt = Some 900, br_CreatedAt = 7\<rparr>"

definition sample_item :: booking_item_row where
  "sample_item =
     \<lparr>ir_ID = ''i1'', ir_BookingID = ''b1'', ir_TicketTypeID = ''vip'', ir_Quantity = 2, ir_TotalPriceRupiah = 200\<rparr>"

definition sample_db :: ticketing_db where
  "sample_db =
     \<lparr>outbox = [], outbox_seq = 0, events = [sample_event, sample_draft],
      ticket_types = [sample_vip, sample_reg, sample_std], bookings = [sample_booking], booking_items = [sample_item]\<rparr>"

definition sample_world :: "ticketing_db world" where
  "sample_world =
     \<lparr>db = sample_db, faults = [], uuid_src = (\<lambda>n. CHR ''x'' # replicate n CHR ''0''), uuid_ctr = 0,
      clock = (\<lambda>n. 1000 + int n), ticks = 0, trace_ctx = ''''\<rparr>"

definition sample_request :: "string \<Rightarrow> int \<Rightarrow> int \<Rightarrow> BookingItem" where
  "sample_request t q p =
     \<lparr>bi_ID = '''', bi_BookingID = '''', bi_TicketTypeID = t, bi_Quantity = q, bi_UnitPriceRupiah = p, bi_TotalPriceRupiah = 0\<rparr>"

lemmas sample_defs =
  sample_event_def sample_draft_def sample_vip_def sample_reg_def sample_std_def sample_booking_def sample_item_def sample_db_def
  sample_world_def sample_request_def

lemma sample_schema: "schema_ok sample_db"
  by (simp add: sample_defs schema_ok_def event_check_def ticket_check_def booking_check_def booking_item_check_def int4_ok_def)

lemma sample_inventory: "inventory_ok sample_db"
  using sample_schema
  by (simp add: inventory_ok_def no_oversell_def held_def active_booking_def active_status_def sample_defs)

lemma sample_db_world [simp]: "db sample_world = sample_db" "faults sample_world = []"
  by (simp_all add: sample_world_def)

lemma sample_servable: "servable sample_world ''e1'' [sample_request ''vip'' 2 100, sample_request ''reg'' 1 50]"
  unfolding servable_def
  using sample_schema by (auto simp: sample_defs price_def int8_ok_def inj_def)

lemma sample_find:
  "find (\<lambda>x. br_ID x = ''b1'') (bookings sample_db) = Some sample_booking"
  "find (\<lambda>e. ev_ID e = ''e1'') (events sample_db) = Some sample_event"
  "find (\<lambda>e. ev_ID e = ''e2'') (events sample_db) = Some sample_draft"
  by (simp_all add: sample_defs)

lemma sample_values [simp]:
  "avail sample_db ''vip'' = Some 3" "avail sample_db ''reg'' = Some 4"
  "price sample_db ''vip'' = Some 100" "price sample_db ''reg'' = Some 50"
  "held sample_db ''vip'' = 2" "outbox sample_db = []"
  by (simp_all add: avail_def price_def held_def active_booking_def active_status_def sample_defs)

lemma sample_statuses [simp]:
  "ev_Status sample_event = EventStatusPublished" "ev_OrganizerID sample_event = ''o1''"
  "ev_Status sample_draft = EventStatusPending"
  by (simp_all add: sample_event_def sample_draft_def)

lemma sample_request_sel [simp]:
  "bi_TicketTypeID (sample_request t q p) = t" "bi_Quantity (sample_request t q p) = q"
  "bi_UnitPriceRupiah (sample_request t q p) = p"
  by (simp_all add: sample_request_def)

theorem settled_booking_witness:
  "fst (Confirm ''b9'' ''p'' sample_world) = Inr () \<and> db (snd (Confirm ''b9'' ''p'' sample_world)) = sample_db"
  using settled_booking_untouched [of sample_world "''b9''" "''p''"] by (simp add: booking_status_def sample_defs)

theorem calculateTotal_witness: "calculateTotal [sample_request ''vip'' 2 100] = 200"
  using calculateTotal_exact [of "[sample_request ''vip'' 2 100]"]
  by (simp add: exact_total_def sample_request_def int8_ok_def)

theorem Confirm_swallows_witness:
  "Confirm ''b1'' ''p1'' (sample_world\<lparr>faults := [FaultBefore]\<rparr>) = (Inr (), sample_world)"
  using Confirm_swallows_lookup_failure [of "sample_world\<lparr>faults := [FaultBefore]\<rparr>" "[]" "''b1''" "''p1''"]
  by (simp add: sample_world_def)

section \<open>Reservations\<close>

definition sample_items :: "BookingItem list" where
  "sample_items = [sample_request ''vip'' 2 100, sample_request ''reg'' 1 50]"

definition accept :: initiate_call where
  "accept i ev u em tot ex = None"

definition refuse :: initiate_call where
  "refuse i ev u em tot ex = Some ErrPaymentUnavailable"

theorem Reserve_succeeds_witness:
  "\<exists>res w'. Reserve 900 accept ''u2'' ''u2@x'' ''e1'' sample_items sample_world = (Inr res, w')"
  using Reserve_succeeds [of sample_world "''e1''" sample_items accept "''u2''" "''u2@x''" 900] sample_servable
  by (simp add: sample_items_def accept_def)

lemma sample_reserved:
  "\<exists>res w'. Reserve 900 accept ''u2'' ''u2@x'' ''e1'' sample_items sample_world = (Inr res, w') \<and> calm w'"
  using sample_servable [folded sample_items_def]
  by (rule Reserve_until_payment [of _ _ _ 900 accept "''u2''" "''u2@x''"]) (auto simp: accept_def)

theorem Reserve_success_witness:
  "\<exists>res w'. Reserve 900 accept ''u2'' ''u2@x'' ''e1'' sample_items sample_world = (Inr res, w') \<and>
     avail (db w') ''vip'' = Some 1"
proof -
  obtain res w' where r: "Reserve 900 accept ''u2'' ''u2@x'' ''e1'' sample_items sample_world = (Inr res, w')"
    using sample_reserved by blast
  have "avail (db w') ''vip'' = map_option (\<lambda>a. a - items_qty ''vip'' sample_items) (avail (db sample_world) ''vip'')"
    using Reserve_success [OF r] sample_schema by simp
  with r show ?thesis by (simp add: avail_def sample_items_def sample_defs)
qed

theorem Reserve_total_witness:
  "\<exists>res w'. Reserve 900 accept ''u2'' ''u2@x'' ''e1'' sample_items sample_world = (Inr res, w') \<and> rs_TotalRupiah res = 250"
proof -
  obtain res w' where r: "Reserve 900 accept ''u2'' ''u2@x'' ''e1'' sample_items sample_world = (Inr res, w')"
    using sample_reserved by blast
  have "full_house (db sample_world) < 2 ^ 63" by (simp add: full_house_def sample_defs)
  from Reserve_total_bounds [OF r _ this] sample_schema have "rs_TotalRupiah res = exact_total sample_items" by simp
  with r show ?thesis by (simp add: exact_total_def sample_items_def sample_request_def)
qed

theorem Reserve_Expire_witness:
  "\<exists>res w1 w2. Reserve 900 accept ''u2'' ''u2@x'' ''e1'' sample_items sample_world = (Inr res, w1) \<and>
     ExpireOnPaymentExpired (rs_BookingID res) w1 = (Inr (), w2) \<and> avail (db w2) = avail sample_db"
proof -
  obtain res w' where r: "Reserve 900 accept ''u2'' ''u2@x'' ''e1'' sample_items sample_world = (Inr res, w')" "calm w'"
    using sample_reserved by blast
  from Reserve_Expire_round_trip [OF r(1) _ r(2)] sample_inventory r(1) show ?thesis by auto
qed

theorem Expire_returns_witness:
  "\<exists>w'. ExpireOnPaymentExpired ''b1'' sample_world = (Inr (), w') \<and> avail (db w') ''vip'' = Some 5"
proof -
  have "calm sample_world" "inventory_ok (db sample_world)"
    "find (\<lambda>x. br_ID x = ''b1'') (bookings (db sample_world)) = Some sample_booking" "br_Status sample_booking = ''pending''"
    "\<forall>it \<in> set (booking_items (db sample_world)). ir_BookingID it = ''b1'' \<longrightarrow> avail (db sample_world) (ir_TicketTypeID it) \<noteq> None"
    using sample_inventory sample_find by (simp_all add: sample_defs avail_def)
  from Expire_returns_seats [OF this] obtain w' where "ExpireOnPaymentExpired ''b1'' sample_world = (Inr (), w')"
    "avail (db w') ''vip'' = map_option (\<lambda>a. a +
        (\<Sum>it \<leftarrow> filter (\<lambda>it. ir_BookingID it = ''b1'') (booking_items (db sample_world)).
           if ir_TicketTypeID it = ''vip'' then ir_Quantity it else 0)) (avail (db sample_world) ''vip'')" by blast
  then show ?thesis by (intro exI [of _ w']) (simp add: sample_defs avail_def)
qed

theorem CancelBookings_witness:
  "\<exists>w'. CancelBookings ''e1'' sample_world = (Inr (), w') \<and> booking_status (db w') ''b1'' = Some ''cancelled''"
proof -
  have "calm sample_world" "inventory_ok (db sample_world)"
    "\<forall>it \<in> set (booking_items (db sample_world)). avail (db sample_world) (ir_TicketTypeID it) \<noteq> None"
    using sample_inventory by (simp_all add: sample_defs avail_def)
  from CancelBookings_cancels_all [OF this, of "''e1''"] show ?thesis
    by (auto simp: sample_db_def sample_booking_def)
qed

theorem payment_failure_witness:
  "\<exists>i w'. Reserve 900 refuse ''u2'' ''u2@x'' ''e1'' sample_items sample_world = (Inl ErrPaymentUnavailable, w') \<and>
     booking_status (db w') i = Some ''pending'' \<and> avail (db w') ''vip'' = Some 3 \<and> held (db w') ''vip'' = 4"
proof -
  from Reserve_payment_failure_keeps_booking [of sample_world "''e1''" sample_items refuse "''u2''" "''u2@x''" ErrPaymentUnavailable 900]
    sample_servable obtain i w' where w': "Reserve 900 refuse ''u2'' ''u2@x'' ''e1'' sample_items sample_world = (Inl ErrPaymentUnavailable, w')"
    "booking_status (db w') i = Some ''pending''" "avail (db w') = avail sample_db"
    "held (db w') ''vip'' = held sample_db ''vip'' + items_qty ''vip'' sample_items"
    by (auto simp: sample_items_def refuse_def)
  moreover have "items_qty ''vip'' sample_items = 2" by (simp add: sample_items_def)
  ultimately show ?thesis by (intro exI [of _ i] exI [of _ w']) simp
qed

theorem price_mismatch_witness:
  "\<exists>w'. Reserve 900 accept ''u2'' ''u2@x'' ''e1'' [sample_request ''vip'' 2 100, sample_request ''reg'' 1 60] sample_world =
     (Inl (ErrPriceMismatch 50 60), w') \<and> avail (db w') ''vip'' = Some 1"
  using Reserve_price_mismatch_leaks [of sample_world "sample_request ''vip'' 2 100" 3 "sample_request ''reg'' 1 60" 50
      900 accept "''u2''" "''u2@x''" "''e1''" "[]"] sample_schema
  by auto

theorem duplicate_type_witness:
  "\<exists>w'. Reserve 900 accept ''u2'' ''u2@x'' ''e1'' [sample_request ''vip'' 2 100, sample_request ''vip'' 2 100] sample_world =
     (Inl ErrNoSeatsAvailable, w') \<and> avail (db w') ''vip'' = Some 1"
  using Reserve_duplicate_type_leaks [of sample_world "sample_request ''vip'' 2 100" 3 "sample_request ''vip'' 2 100"
      900 accept "''u2''" "''u2@x''" "''e1''" "[]"] sample_schema
  by (auto simp: int4_ok_def)

theorem shortage_witness:
  "\<exists>w'. Reserve 900 accept ''u2'' ''u2@x'' ''e1'' [sample_request ''reg'' 1 50, sample_request ''vip'' 9 100] sample_world =
     (Inl ErrNoSeatsAvailable, w') \<and> avail (db w') = avail sample_db"
proof -
  let ?items = "[sample_request ''reg'' 1 50, sample_request ''vip'' 9 100]"
  obtain w' where r: "Reserve 900 accept ''u2'' ''u2@x'' ''e1'' ?items sample_world = (Inl ErrNoSeatsAvailable, w')"
    by (simp add: Reserve_def bindE_def handleE_def seat_GetPrice_calm seat_Reserve_calm rollbackSeats_calm ignoreE_def
        seat_Release_calm failE_def retE_def price_def stmt_Reserve_def stmt_Release_def update_tickets_def int4_ok_def
        ticket_check_def sample_db_def sample_vip_def sample_reg_def sample_std_def sample_request_def)
  have "avail (db w') = avail (db sample_world)"
    using Reserve_shortage_restores [OF _ _ _ _ _ r] sample_schema by (simp add: sample_request_def accept_def)
  with r show ?thesis by auto
qed

section \<open>Events\<close>

theorem CancelEvent_outcome_witness:
  "\<exists>e' w'. CancelEvent ''e1'' ''o1'' sample_world = (Inr e', w') \<and> event_status_of (db w') ''e1'' = Some EventStatusCancelled"
  using CancelEvent_outcome [of sample_world "''e1''" sample_event "''o1''"] sample_schema sample_find
  by auto

theorem CancelEvent_lose_witness:
  "\<exists>e' w'. CancelEvent ''e1'' ''o1'' (sample_world\<lparr>faults := [NoFault, NoFault, FaultBefore]\<rparr>) = (Inr e', w') \<and>
     event_status_of (db w') ''e1'' = Some EventStatusCancelled \<and> outbox (db w') = []"
  using CancelEvent_can_lose_message [of "sample_world\<lparr>faults := [NoFault, NoFault, FaultBefore]\<rparr>" "''e1''" sample_event "''o1''"]
    sample_schema sample_find
  by simp

theorem ApproveEvent_partial_witness:
  "\<exists>w'. ApproveEvent ''e2'' ''a1'' (sample_world\<lparr>faults := [NoFault, NoFault, FaultBefore]\<rparr>) = (Inl (DbErr ConnFailed), w') \<and>
     event_status_of (db w') ''e2'' = Some EventStatusPublished \<and> fst (ApproveEvent ''e2'' ''a1'' w') = Inl ErrEventNotApprovable"
  using ApproveEvent_partial [of "sample_world\<lparr>faults := [NoFault, NoFault, FaultBefore]\<rparr>" "''e2''" sample_draft "''a1''"]
    sample_schema sample_find by auto

theorem GetEvent_witness: "GetEvent ''e1'' sample_world = (Inr (sample_event, [sample_vip, sample_reg]), sample_world)"
  using GetEvent_live [of sample_world "''e1''" sample_event] sample_schema sample_find
  by (simp add: sample_db_def sample_vip_def sample_reg_def sample_std_def)

lemma sample_approved: "\<exists>e w'. ApproveEvent ''e2'' ''a1'' sample_world = (Inr e, w')"
  by (simp add: ApproveEvent_def review_def bindE_def find_event_calm readClock_def repo_UpdateEvent_def mapErr_def
      run_stmt_def stmt_update_event_def event_check_def write_event_def ListTicketTypesByEvent_def Let_def retE_def
      seat_Init_def seat_SetPrice_def stmt_Init_def stmt_SetPrice_def update_tickets_def int4_ok_def int8_ok_def
      ticket_check_def sample_defs)

theorem ApproveEvent_witness:
  "\<exists>e w'. ApproveEvent ''e2'' ''a1'' sample_world = (Inr e, w') \<and> avail (db w') ''std'' = Some 8"
proof -
  obtain e w' where r: "ApproveEvent ''e2'' ''a1'' sample_world = (Inr e, w')" using sample_approved by blast
  have "avail (db w') (tt_ID sample_std) = Some (if tt_EventID sample_std = ''e2'' then tt_Quantity sample_std else tt_Available sample_std)"
    using ApproveEvent_opens_sale [OF r] sample_schema by (simp add: sample_db_def)
  with r show ?thesis by (simp add: sample_std_def)
qed

theorem event_life_witness:
  "\<exists>e w'. ApproveEvent ''e2'' ''a1'' sample_world = (Inr e, w') \<and>
     (\<exists>s'. event_status_of (db w') ''e2'' = Some s' \<and> event_step\<^sup>*\<^sup>* EventStatusPending s')"
proof -
  obtain e w' where r: "ApproveEvent ''e2'' ''a1'' sample_world = (Inr e, w')" using sample_approved by blast
  have "event_reach (db sample_world) (db w')"
    using event_reach.call [OF event_reach.here, of "CallApprove ''e2'' ''a1''" sample_world "Inr e" w'] r by simp
  moreover have "event_status_of (db sample_world) ''e2'' = Some EventStatusPending"
    using sample_find by (simp add: event_status_of_def)
  ultimately have "\<exists>s'. event_status_of (db w') ''e2'' = Some s' \<and> event_step\<^sup>*\<^sup>* EventStatusPending s'"
    using event_life_cycle [of "db sample_world" "db w'" "''e2''" EventStatusPending] sample_schema by auto
  with r show ?thesis by blast
qed

theorem CreateEvent_witness:
  "\<exists>e w'. CreateEvent ''o1'' ''T'' '''' ''V'' '''' 10 1 2 [sample_std] sample_world = (Inr e, w') \<and>
     event_status_of (db w') (ev_ID e) = Some EventStatusPending"
proof -
  have "\<exists>e w'. CreateEvent ''o1'' ''T'' '''' ''V'' '''' 10 1 2 [sample_std] sample_world = (Inr e, w')"
    by (simp add: CreateEvent_def bindE_def newUUID_def repo_CreateEvent_def readClock_def mapErr_def run_stmt_def
        stmt_insert_event_def stmt_insert_ticket_def event_check_def ticket_check_def Let_def retE_def int4_ok_def
        int8_ok_def wrap64_def sample_defs)
  then obtain e w' where r: "CreateEvent ''o1'' ''T'' '''' ''V'' '''' 10 1 2 [sample_std] sample_world = (Inr e, w')" by blast
  from CreateEvent_success [OF r] r show ?thesis by auto
qed

section \<open>Races and the outbox\<close>

theorem booking_race_witness:
  "booking_status (snd (booking_race.moves [(''b1'', ''expired''), (''b1'', ''confirmed'')] sample_db)) ''b1'' = Some ''expired''"
  using booking_race_decided [of sample_db "''b1''" "[(''b1'', ''expired''), (''b1'', ''confirmed'')]" "''expired''"]
    sample_schema sample_find by (simp add: booking_status_def sample_booking_def)

definition sample_outbox_row :: outbox_row where
  "sample_outbox_row =
     \<lparr>ob_ID = 0, ob_Topic = ''event.cancelled'', ob_Key = ''e1'', ob_Payload = JNull, ob_TraceContext = None, ob_Delivered = False\<rparr>"

definition sample_backlog :: "ticketing_db world" where
  "sample_backlog = sample_world\<lparr>db := sample_db\<lparr>outbox := [sample_outbox_row], outbox_seq := 1\<rparr>\<rparr>"

lemma sample_backlog_simps [simp]:
  "faults sample_backlog = []" "outbox_wf (db sample_backlog)" "length (undelivered (db sample_backlog)) = 1"
  "delivered_logged [] (db sample_backlog)"
  by (simp_all add: sample_backlog_def sample_outbox_row_def outbox_wf_def undelivered_def delivered_logged_def)

theorem worker_Run_sound_witness:
  "\<exists>log w'. worker_Run 2 rev (\<lambda>_. WrittenUnacked) ([], sample_backlog) = (log, w') \<and> delivered_logged log (db w')"
proof -
  obtain log w' where r: "worker_Run 2 rev (\<lambda>_. WrittenUnacked) ([], sample_backlog) = (log, w')" by fastforce
  from worker_Run_sound [OF _ _ _ r] r show ?thesis by auto
qed

theorem worker_Run_progress_witness:
  "\<exists>log w'. worker_Run 1 rev (\<lambda>_. Written) ([], sample_backlog) = (log, w') \<and> undelivered (db w') = []"
proof -
  obtain log w' where r: "worker_Run 1 rev (\<lambda>_. Written) ([], sample_backlog) = (log, w')" by fastforce
  from worker_Run_progress [OF _ _ _ r] r show ?thesis by auto
qed

end
