(* ===== verification/Ticketing_Http_Samples.thy ===== *)
theory Ticketing_Http_Samples
  imports Ticketing_Requests Ticketing_Samples
begin

text \<open>The properties of the ticketing routes on the sample database.\<close>

definition as_user :: "string \<Rightarrow> role \<Rightarrow> (string \<times> string) list" where
  "as_user u rl = [(''X-Authenticated-User-ID'', u), (''X-Authenticated-User-Role'', rl), (''X-Authenticated-User-Email'', u @ ''@x'')]"

definition sample_tv :: ticketing_validator where
  "sample_tv =
     \<lparr>vt_create = (\<lambda>r. ce_Title r \<noteq> ''''), vt_update = (\<lambda>r. ue_Title r \<noteq> ''''), vt_reject = (\<lambda>r. rj_Reason r \<noteq> ''''),
      vt_reserve = (\<lambda>r. rv_Items r \<noteq> [] \<and> list_all (\<lambda>i. 1 \<le> ri_Quantity i \<and> 0 < ri_UnitPriceRupiah i) (rv_Items r))\<rparr>"

lemma sample_tv_law: "ticketing_validator_law sample_tv"
  by (auto simp: ticketing_validator_law_def sample_tv_def list_all_iff)

text \<open>An organizer who asks for the approval of an event leaves the database as it was.\<close>

theorem event_requests_witness:
  "db (snd (WithUserContext (RequireRole [RoleAdmin] EventHandler_ApproveEvent)
     (request_with [(''id'', ''e2'')] [] (as_user ''o1'' RoleEO) None) no_user sample_world)) = sample_db"
proof -
  let ?h = "WithUserContext (RequireRole [RoleAdmin] EventHandler_ApproveEvent)"
  let ?r = "request_with [(''id'', ''e2'')] [] (as_user ''o1'' RoleEO) None"
  have route: "event_Routes sample_tv ''POST'' ''/api/events/{id}/approve'' = Some ?h" by (simp add: event_Routes_def)
  have "\<not> permitted (rq_header ?r ''X-Authenticated-User-Role'') u c \<or> run_call c sample_world \<noteq> (res, w')"
    if "?h ?r no_user sample_world = (resp, w')" "db w' \<noteq> sample_db" for u c res resp w'
    using that by (simp add: WithUserContext_def RequireRole_def ctx_of_headers_user as_user_def)
  with event_requests_authorised [OF route surjective_pairing] show ?thesis by (metis sample_db_world(1) prod.collapse)
qed

theorem booking_requests_witness:
  "inventory_ok (db (snd (WithUserContext (RequireRole [RoleCustomer] (BookingHandler_Reserve sample_tv 900 accept))
     (request_with [] [] (as_user ''u2'' RoleCustomer) (Some (JObj [(''event_id'', JStr ''e1''),
        (''items'', JArr [JObj [(''ticket_type_id'', JStr ''vip''), (''quantity'', JNum 2), (''unit_price_rupiah'', JNum 100)]])]))) no_user sample_world)))"
proof -
  have route: "booking_Routes sample_tv 900 accept ''POST'' ''/api/bookings/reserve'' =
      Some (WithUserContext (RequireRole [RoleCustomer] (BookingHandler_Reserve sample_tv 900 accept)))"
    by (simp add: booking_Routes_def)
  from booking_requests_authorised [OF route sample_tv_law surjective_pairing] show ?thesis
    using sample_inventory by (simp add: accept_def)
qed

theorem GetBooking_witness:
  "fst (WithUserContext BookingHandler_GetBooking (request_with [(''id'', ''b1'')] [] (as_user ''u2'' RoleCustomer) None) no_user sample_world) =
   NotFound (Err ''booking not found'')"
proof -
  have route: "booking_Routes sample_tv 900 accept ''GET'' ''/api/bookings/{id}'' = Some (WithUserContext BookingHandler_GetBooking)"
    by (simp add: booking_Routes_def)
  from GetBooking_private [OF route surjective_pairing, of "request_with [(''id'', ''b1'')] [] (as_user ''u2'' RoleCustomer) None" sample_world]
  show ?thesis using sample_find(1) by (auto simp: as_user_def sample_booking_def)
qed

theorem published_pages_witness:
  "\<exists>pg. concat (map pg [0..<1]) = published_list sample_db \<and> int (length (pg 0)) \<le> 20"
proof -
  have "Atoi '''' = 0" by (simp add: Atoi_def)
  then have p: "\<forall>k < 1. page_limit (request_with [] [] [] None) = 20 \<and> page_offset (request_with [] [] [] None) = int k * 20"
    by (simp add: page_limit_def page_offset_def)
  have c: "calm sample_world" "int (count_where (\<lambda>e. ev_Status e = ''published'') (events (db sample_world))) \<le> int 1 * 20"
    "distinct (map ev_StartAt (filter (\<lambda>e. ev_Status e = ''published'') (events (db sample_world))))"
    by (simp_all add: sample_defs count_where_def)
  from published_pages [of sample_world 1 "\<lambda>_. request_with [] [] [] None" 20, OF c(1) p c(2,3), of no_user] obtain pg where
    "int (length (pg 0)) \<le> 20" "concat (map pg [0..<1]) = published_list (db sample_world)" by auto
  then show ?thesis by (intro exI [of _ pg]) (simp add: sample_defs)
qed

end
