(* ===== verification/Payment_Samples.thy ===== *)
theory Payment_Samples
  imports Payment_Paths
begin

text \<open>
  A small payment database on which the properties of the payment service are instantiated: one
  transaction in each status.
\<close>

definition sample_txn :: "string \<Rightarrow> string \<Rightarrow> string \<Rightarrow> Transaction" where
  "sample_txn i b st =
     \<lparr>tx_ID = i, tx_UserID = ''u1'', tx_BookingID = b, tx_EventID = ''e1'', tx_AmountRupiah = 200, tx_Currency = ''IDR'',
      tx_Status = st, tx_Provider = ''mock'', tx_ProviderRef = (if st = StatusInitiated then '''' else ''s'' @ i),
      tx_PaymentLinkURL = '''', tx_CustomerEmail = ''u1@x'', tx_RefundStatus = ''none'', tx_ExpiresAt = Some (20 * Minute),
      tx_CreatedAt = 1, tx_UpdatedAt = 1\<rparr>"

definition pay_db :: payment_db where
  "pay_db =
     \<lparr>outbox = [], outbox_seq = 0,
      transactions = [sample_txn ''1'' ''b1'' StatusPending, sample_txn ''2'' ''b2'' StatusInitiated,
                      sample_txn ''3'' ''b3'' StatusExpired, sample_txn ''4'' ''b4'' StatusCompleted],
      refund_requests = [], gateway_calls = []\<rparr>"

text \<open>The clock starts at \<open>t0\<close> and every reading of it takes a nanosecond.\<close>

definition pay_world :: "time \<Rightarrow> payment_db world" where
  "pay_world t0 =
     \<lparr>db = pay_db, faults = [], uuid_src = (\<lambda>n. CHR ''x'' # replicate n CHR ''0''), uuid_ctr = 0,
      clock = (\<lambda>n. t0 + int n), ticks = 0, trace_ctx = ''''\<rparr>"

definition sample_gateway :: gateway where
  "sample_gateway =
     \<lparr>gw_create = (\<lambda>n b a c e ch em. Inr \<lparr>sr_ProviderRef = ''s'' @ b, sr_PaymentLinkURL = ''link'', sr_ExpiresAt = e\<rparr>),
      gw_cancel = (\<lambda>n r. Some ''down'')\<rparr>"

definition sample_service :: PaymentService where
  "sample_service = \<lparr>processor = sample_gateway, provider = ''mock'', gatewayExpiryBufferMin = 2, allowedChannels = [''QRIS'']\<rparr>"

definition sample_hook :: "string \<Rightarrow> string \<Rightarrow> json option" where
  "sample_hook ev b = Some (JObj [(''event'', JStr ev), (''data'', JObj [(''reference_id'', JStr b)])])"

definition sample_event_hook :: "string \<Rightarrow> string \<Rightarrow> sessionWebhookPayload" where
  "sample_event_hook ev b =
     \<lparr>wh_Event = ev, wh_ReferenceID = b, wh_PaymentSessionID = '''', wh_ID = '''', wh_Status = ''''\<rparr>"

lemma sample_hook_decode: "Option.bind (sample_hook ev b) unmarshal_webhook = Some (sample_event_hook ev b)"
  by (simp add: sample_hook_def sample_event_hook_def unmarshal_webhook_def dec_field_def)

lemma sample_event_hook_sel [simp]:
  "wh_Event (sample_event_hook ev b) = ev" "wh_ReferenceID (sample_event_hook ev b) = b" "sessionID (sample_event_hook ev b) = ''''"
  by (simp_all add: sample_event_hook_def sessionID_def)

lemma sample_txn_sel [simp]:
  "tx_ID (sample_txn i b st) = i" "tx_BookingID (sample_txn i b st) = b" "tx_Status (sample_txn i b st) = st"
  "tx_UserID (sample_txn i b st) = ''u1''" "tx_AmountRupiah (sample_txn i b st) = 200"
  "tx_EventID (sample_txn i b st) = ''e1''" "tx_ExpiresAt (sample_txn i b st) = Some (20 * Minute)"
  by (simp_all add: sample_txn_def)

lemma pay_world_sel [simp]:
  "db (pay_world t0) = pay_db" "faults (pay_world t0) = []" "ticks (pay_world t0) = 0" "clock (pay_world t0) n = t0 + int n"
  "uuid_ctr (pay_world t0) = 0"
  by (simp_all add: pay_world_def)

lemma pay_db_sel [simp]:
  "transactions pay_db = [sample_txn ''1'' ''b1'' StatusPending, sample_txn ''2'' ''b2'' StatusInitiated,
      sample_txn ''3'' ''b3'' StatusExpired, sample_txn ''4'' ''b4'' StatusCompleted]"
  "outbox pay_db = []" "refund_requests pay_db = []" "gateway_calls pay_db = []"
  by (simp_all add: pay_db_def)

lemma pay_db_schema [simp]: "pay_schema pay_db"
  by (simp add: pay_schema_def txn_check_def sample_txn_def)

lemma pay_db_inv [simp]: "pay_inv pay_db"
  by (simp add: pay_inv_def outcome_keys_def)

lemma sample_amount [simp]: "int8_ok 200"
  by (simp add: int8_ok_def)

lemma sample_fresh [simp]: "fresh_refunds (pay_world t0)"
  by (auto simp: fresh_refunds_def pay_world_def inj_def)

lemma sample_reach: "payment_reach pay_db (db (run_payment c (pay_world t0)))"
  using payment_reach.call [of pay_db "pay_world t0" c] payment_reach.here [of pay_db] by simp

theorem payment_single_outcome_witness:
  "length (filter (\<lambda>r. outcome_of (ob_Topic r) \<noteq> None \<and> ob_Key r = ''1'')
     (outbox (db (run_payment (CallWebhook (sample_hook ''payment_session.completed'' ''b1'')) (pay_world 0))))) \<le> 1"
  using payment_single_outcome [OF pay_db_inv sample_reach] by blast

theorem payment_final_witness:
  "\<exists>t' \<in> set (transactions (db (run_payment (CallPoll sample_service 10) (pay_world (30 * Minute))))). tx_ID t' = ''4'' \<and> tx_Status t' = StatusCompleted"
  using payment_final [OF pay_db_inv sample_reach [of "CallPoll sample_service 10" "30 * Minute"], of "sample_txn ''4'' ''b4'' StatusCompleted"]
  by auto

lemma sample_status [simp]:
  "txn_status pay_db ''1'' = Some StatusPending" "txn_status pay_db ''3'' = Some StatusExpired"
  by (simp_all add: txn_status_def)

theorem payment_race_witness:
  "txn_status (snd (txn_race.moves ''s1'' 7 [(''1'', StatusExpired), (''1'', StatusCompleted)] pay_db)) ''1'' = Some StatusExpired"
  using payment_race_decided [OF pay_db_schema, of "''1''" StatusPending "[(''1'', StatusExpired), (''1'', StatusCompleted)]" StatusExpired "''s1''" 7]
  by simp

theorem webhook_expired_witness:
  "\<exists>w'. HandleSessionWebhook (sample_hook ''payment_session.expired'' ''b2'') (pay_world 0) = (Inr (), w') \<and>
     txn_status (db w') ''2'' = Some StatusExpired"
  using webhook_expired_outcome [OF _ _ _ sample_hook_decode, of "pay_world 0" "sample_txn ''2'' ''b2'' StatusInitiated" "''payment_session.expired''" "''b2''"]
  by (auto simp: ActiveStatuses_def)

theorem late_payment_witness:
  "\<exists>w' r. HandleSessionWebhook (sample_hook ''payment_session.completed'' ''b3'') (pay_world 0) = (Inr (), w') \<and>
     refund_requests (db w') = [r] \<and> rf_AmountRupiah r = 200"
  using late_payment_refunded [OF _ _ _ _ _ _ sample_hook_decode, of "pay_world 0" "sample_txn ''3'' ''b3'' StatusExpired" "''payment_session.completed''" "''b3''"]
  by auto

theorem late_payment_lost_witness:
  "\<exists>w'. webhook_completed (sample_txn ''3'' ''b3'' StatusPending) (pay_world 0) = (Inr (), w') \<and> refund_requests (db w') = []"
  using late_payment_lost_in_race [of "pay_world 0" "sample_txn ''3'' ''b3'' StatusPending"] by auto

theorem Initiate_witness:
  "\<exists>t w1 w2. InitiateTxnForBooking sample_service ''b9'' ''e1'' ''u1'' ''m'' 300 5 (pay_world 0) = (Inr t, w1) \<and>
     fst (InitiateTxnForBooking sample_service ''b9'' ''e2'' ''u2'' ''n'' 400 6 w1) = Inr (last (transactions (db w1)))"
proof -
  have ok: "int8_ok 300" "int8_ok 400" by (simp_all add: int8_ok_def)
  show ?thesis
    using Initiate_idempotent [of "pay_world 0" "''b9''" 300 400 sample_service "''e1''" "''u1''" "''m''" 5 sample_service "''e2''" "''u2''" "''n''" 6] ok
    by (fastforce simp: pay_world_def)
qed

theorem ProcessPayment_witness:
  "\<exists>t res w'. ProcessPayment sample_service ''b2'' ''u1'' (pay_world 0) = (Inr (t, res), w') \<and>
     length (gateway_calls (db w')) = 1"
proof -
  have find: "txn_FindByBookingID ''b2'' (pay_world 0) = (Inr (sample_txn ''2'' ''b2'' StatusInitiated), pay_world 0)"
    by (rule FindByBookingID_calm) auto
  have "\<exists>t res w'. ProcessPayment sample_service ''b2'' ''u1'' (pay_world 0) = (Inr (t, res), w')"
    by (simp add: ProcessPayment_def handleE_def bindE_def find deadline_passed_def readClock_def retE_def Let_def
        CreateSession_def sample_service_def sample_gateway_def log_call_def txn_TransitionIfInitiated_def mapErr_def
        run_stmt_def stmt_settle_def stmt_update_txn_def txn_UpdateSession_def txn_check_def sample_txn_def)
  then obtain t res w' where r: "ProcessPayment sample_service ''b2'' ''u1'' (pay_world 0) = (Inr (t, res), w')" by blast
  from ProcessPayment_success [OF r] r show ?thesis by auto
qed

theorem ProcessPayment_refusals_witness:
  "\<exists>w'. ProcessPayment sample_service ''b1'' ''u1'' (pay_world 0) = (Inl ErrAlreadyProcessed, w') \<and> gateway_calls (db w') = []"
  using ProcessPayment_refusals [of "pay_world 0" "sample_txn ''1'' ''b1'' StatusPending" "''b1''" "''u1''" sample_service] by auto

theorem ProcessExpired_witness:
  "\<exists>w'. ProcessExpired sample_service 10 (pay_world (30 * Minute)) = (Inr (), w') \<and>
     (\<exists>now. (sample_txn ''1'' ''b1'' StatusPending)\<lparr>tx_Status := StatusExpired, tx_UpdatedAt := now\<rparr> \<in> set (transactions (db w')))"
proof -
  let ?w = "pay_world (30 * Minute)" and ?t = "sample_txn ''1'' ''b1'' StatusPending"
  have "int (length (filter (overdue (clock ?w (ticks ?w))) (transactions (db ?w)))) \<le> 10"
    by (simp add: overdue_def ActiveStatuses_def)
  moreover have "pay_schema (db ?w)" by simp
  ultimately obtain w' ts where
    r: "ProcessExpired sample_service 10 ?w = (Inr (), w')"
    "set ts = {t \<in> set (transactions (db ?w)). overdue (clock ?w (ticks ?w)) t}"
    "list_all2 (\<lambda>t t'. if t \<in> set ts then \<exists>now. t' = t\<lparr>tx_Status := StatusExpired, tx_UpdatedAt := now\<rparr> else t' = t)
      (transactions (db ?w)) (transactions (db w'))"
    using ProcessExpired_settles [of ?w 10 sample_service] pay_world_sel(2) by auto
  have t: "?t \<in> set ts" "?t \<in> set (transactions (db ?w))" unfolding r(2) by (simp_all add: overdue_def ActiveStatuses_def)
  obtain i where i: "i < length (transactions (db ?w))" "transactions (db ?w) ! i = ?t" using t(2) unfolding in_set_conv_nth by blast
  then have "\<exists>now. transactions (db w') ! i = ?t\<lparr>tx_Status := StatusExpired, tx_UpdatedAt := now\<rparr>"
    using list_all2_nthD [OF r(3) i(1)] t(1) by simp
  moreover have "transactions (db w') ! i \<in> set (transactions (db w'))" using i(1) list_all2_lengthD [OF r(3)] by simp
  ultimately show ?thesis using r(1) by force
qed

theorem HandleEventCancelled_witness:
  "\<exists>w' rf. HandleEventCancelled ''e1'' (pay_world 0) = (Inr (), w') \<and>
     filter (\<lambda>r. rf_TransactionID r = ''4'') (refund_requests (db w')) = [rf] \<and>
     rf_AmountRupiah rf = tx_AmountRupiah (sample_txn ''4'' ''b4'' StatusCompleted)"
proof -
  let ?t = "sample_txn ''4'' ''b4'' StatusCompleted"
  from HandleEventCancelled_refunds [of "pay_world 0" "''e1''"] obtain w' where w':
    "HandleEventCancelled ''e1'' (pay_world 0) = (Inr (), w')"
    "\<forall>t \<in> set (transactions pay_db). tx_EventID t = ''e1'' \<and> tx_Status t = StatusCompleted \<longrightarrow>
       (\<exists>rf. filter (\<lambda>r. rf_TransactionID r = tx_ID t) (refund_requests (db w')) = [rf] \<and> rf_AmountRupiah rf = tx_AmountRupiah t)"
    by auto
  have "?t \<in> set (transactions pay_db)" "tx_EventID ?t = ''e1''" "tx_Status ?t = StatusCompleted" "tx_ID ?t = ''4''"
    by simp_all
  with w'(2) obtain rf where "filter (\<lambda>r. rf_TransactionID r = ''4'') (refund_requests (db w')) = [rf]" "rf_AmountRupiah rf = tx_AmountRupiah ?t"
    by metis
  with w'(1) show ?thesis by blast
qed

end
