(* ===== verification/Auth_Samples.thy ===== *)
theory Auth_Samples
  imports Auth_Handlers
begin

text \<open>
  A small auth database on which the properties of the auth service are instantiated. The
  cryptographic functions are simple stand-ins that satisfy the laws.
\<close>

definition sample_claims :: "(string \<times> json) list" where
  "sample_claims =
     [(''sub'', JStr ''n''), (''email'', JStr ''c@x''), (''role'', JStr ''customer''), (''exp'', JNum (900 - 62135596800)), (''iat'', JNum (- 62135596800))]"

definition sample_crypto :: crypto where
  "sample_crypto =
     \<lparr>bcrypt_generate = (\<lambda>n p. Inr (''h'' @ p)), bcrypt_compare = (\<lambda>h p. h = ''h'' @ p),
      rand_read = (\<lambda>n. Inr (replicate (Suc n) CHR ''x'')), sha256 = (\<lambda>t. t),
      jwt_sign = (\<lambda>cs. if cs = sample_claims then Inr ''tok'' else Inl ''no key''),
      jwt_parse = (\<lambda>key now tok. if (tok = ''tok'' \<and> key ''RS256'' \<or> tok = ''forged'' \<and> key ''HS256'') \<and> now < 900 * Second
        then Inr sample_claims else Inl ''bad token'')\<rparr>"

definition sample_auth :: AuthService where
  "sample_auth = \<lparr>au_crypto = sample_crypto, au_jwtTTL = 15 * Minute, au_RefreshTokenTTL = 7 * 24 * 60 * Minute\<rparr>"

definition sample_user :: "string \<Rightarrow> string \<Rightarrow> role \<Rightarrow> User" where
  "sample_user i e r = new_user i e ''hpw'' i r"

text \<open>One customer with a live refresh token, whose hash is the hash of the text \<open>r\<close>.\<close>

definition sample_auth_db :: auth_db where
  "sample_auth_db =
     \<lparr>users = [sample_user ''n'' ''c@x'' RoleCustomer],
      refresh_tokens = [\<lparr>rt_ID = ''t0'', rt_UserID = ''n'', rt_TokenHash = base64 URLEncoding ''r'', rt_ExpiresAt = Minute, rt_CreatedAt = 0\<rparr>],
      entropy = 0\<rparr>"

definition sample_auth_world :: "auth_db \<Rightarrow> auth_db world" where
  "sample_auth_world d =
     \<lparr>db = d, faults = [], uuid_src = (\<lambda>n. if n = 0 then ''n'' else replicate n CHR ''u''), uuid_ctr = 0,
      clock = (\<lambda>n. 0), ticks = 0, trace_ctx = ''''\<rparr>"

abbreviation auth_w0 :: "auth_db world" where
  "auth_w0 \<equiv> sample_auth_world sample_auth_db"

lemmas auth_sample_defs =
  sample_claims_def sample_crypto_def sample_auth_def sample_user_def sample_auth_db_def sample_auth_world_def new_user_def

lemma sample_laws: "bcrypt_law sample_crypto" "jwt_law sample_crypto"
  by (auto simp: bcrypt_law_def jwt_law_def auth_sample_defs split: if_splits)

text \<open>The public key as a secret makes a second token that parses, but only under HS256.\<close>

lemma sample_sound:
  "jwt_sound (\<lambda>tok. if tok = ''forged'' then ''HS256'' else ''RS256'') (\<lambda>tok cs. tok = ''tok'' \<and> cs = sample_claims) (au_crypto sample_auth)"
  by (auto simp: jwt_sound_def auth_sample_defs split: if_splits)

lemma sample_refresh_pair:
  "fst (refresh sample_auth ''r'' auth_w0) = Inr \<lparr>tp_AccessToken = ''tok'', tp_RefreshToken = base64 URLEncoding ''x'', tp_ExpiresIn = 900\<rparr>"
  by code_simp

lemma sample_hashes: "HashRefreshToken (au_crypto sample_auth) (base64 URLEncoding ''x'') \<noteq> HashRefreshToken (au_crypto sample_auth) ''r''"
  by code_simp

text \<open>Witness for \<open>refresh_one_time\<close>: the token is used a second time.\<close>

theorem refresh_one_time_witness:
  "let w' = snd (refresh sample_auth ''r'' auth_w0)
   in live_hash (db w') (HashRefreshToken (au_crypto sample_auth) (base64 URLEncoding ''x'')) \<and>
      fst (refresh sample_auth ''r'' w') = Inl ErrTokenNotFound"
proof -
  obtain w' where r: "refresh sample_auth ''r'' auth_w0 = (Inr \<lparr>tp_AccessToken = ''tok'', tp_RefreshToken = base64 URLEncoding ''x'', tp_ExpiresIn = 900\<rparr>, w')"
    using sample_refresh_pair by (metis prod.collapse)
  show ?thesis
    using refresh_one_time [OF r, of "[]" w'] sample_hashes r by (simp add: Let_def)
qed

text \<open>Witness for \<open>refresh_race_both_succeed\<close>.\<close>

theorem refresh_race_witness:
  "\<exists>u w0 w1 p2 w2. refresh_lookup sample_auth ''r'' auth_w0 = (Inr u, w0) \<and> w1 = snd (refresh sample_auth ''r'' w0) \<and>
     refresh_rotate sample_auth ''r'' u w1 = (Inr p2, w2) \<and>
     live_hash (db w2) (HashRefreshToken (au_crypto sample_auth) (base64 URLEncoding ''x'')) \<and>
     live_hash (db w2) (HashRefreshToken (au_crypto sample_auth) (tp_RefreshToken p2))"
proof -
  let ?u = "sample_user ''n'' ''c@x'' RoleCustomer"
  let ?w0 = "snd (refresh_lookup sample_auth ''r'' auth_w0)"
  let ?w1 = "snd (refresh sample_auth ''r'' ?w0)"
  let ?p1 = "\<lparr>tp_AccessToken = ''tok'', tp_RefreshToken = base64 URLEncoding ''x'', tp_ExpiresIn = 900\<rparr>"
  have "fst (refresh_lookup sample_auth ''r'' auth_w0) = Inr ?u" by code_simp
  then have l: "refresh_lookup sample_auth ''r'' auth_w0 = (Inr ?u, ?w0)" by (metis prod.collapse)
  have "fst (refresh sample_auth ''r'' ?w0) = Inr ?p1" by code_simp
  then have r: "refresh sample_auth ''r'' ?w0 = (Inr ?p1, ?w1)" by (metis prod.collapse)
  have c: "faults ?w1 = []" "jwt_sign (au_crypto sample_auth) (access_claims sample_auth ?u ?w1) = Inr ''tok''"
    "rand_read (au_crypto sample_auth) (entropy (db ?w1)) = Inr ''xx''" "uuid_src ?w1 (uuid_ctr ?w1) \<notin> rt_ID ` set (refresh_tokens (db ?w1))"
    by code_simp+
  then have "can_issue sample_auth ?u ?w1" unfolding can_issue_def by blast
  from refresh_race_both_succeed [OF l r this] sample_hashes obtain p2 w2 where
    "refresh_rotate sample_auth ''r'' ?u ?w1 = (Inr p2, w2)"
    "live_hash (db w2) (HashRefreshToken (au_crypto sample_auth) (base64 URLEncoding ''x''))"
    "live_hash (db w2) (HashRefreshToken (au_crypto sample_auth) (tp_RefreshToken p2))" by auto
  with l show ?thesis by blast
qed

text \<open>Witness for \<open>Login_refused\<close>: a wrong password.\<close>

theorem Login_refused_witness: "fst (Login sample_auth ''c@x'' ''guess'' auth_w0) = Inl ErrInvalidCredentials"
proof -
  have "\<forall>u \<in> set (users (db auth_w0)). us_Email u = ''c@x'' \<longrightarrow> \<not> Verify (au_crypto sample_auth) ''guess'' (us_PasswordHash u)"
    by (simp add: auth_sample_defs Verify_def)
  from Login_refused [OF this] show ?thesis by simp
qed

text \<open>Witness for \<open>Register_Login_Verify\<close>: a new account on an empty database.\<close>

definition empty_auth :: "auth_db world" where
  "empty_auth = sample_auth_world \<lparr>users = [], refresh_tokens = [], entropy = 0\<rparr>"

theorem Register_Login_witness:
  "\<exists>pair w2. Login sample_auth ''c@x'' ''pw'' (snd (Register sample_auth ''c@x'' ''pw'' ''N'' RoleCustomer empty_auth)) = (Inr pair, w2) \<and>
     fst (VerifyToken sample_auth (tp_AccessToken pair) empty_auth) = Inr \<lparr>cl_UserID = ''n'', cl_Email = ''c@x'', cl_Role = RoleCustomer\<rparr>"
proof -
  let ?w1 = "snd (Register sample_auth ''c@x'' ''pw'' ''N'' RoleCustomer empty_auth)"
  let ?u = "new_user ''n'' ''c@x'' ''hpw'' ''N'' RoleCustomer"
  have "fst (Register sample_auth ''c@x'' ''pw'' ''N'' RoleCustomer empty_auth) = Inr ?u" by code_simp
  then have r: "Register sample_auth ''c@x'' ''pw'' ''N'' RoleCustomer empty_auth = (Inr ?u, ?w1)" by (metis prod.collapse)
  have c: "faults ?w1 = []" "jwt_sign (au_crypto sample_auth) (access_claims sample_auth ?u ?w1) = Inr ''tok''"
    "rand_read (au_crypto sample_auth) (entropy (db ?w1)) = Inr ''xx''" "uuid_src ?w1 (uuid_ctr ?w1) \<notin> rt_ID ` set (refresh_tokens (db ?w1))"
    by code_simp+
  then have can: "can_issue sample_auth ?u ?w1" unfolding can_issue_def by blast
  have laws: "bcrypt_law (au_crypto sample_auth)" "jwt_law (au_crypto sample_auth)" using sample_laws by (simp_all add: sample_auth_def)
  have now: "clock empty_auth (ticks empty_auth) < (Unix (clock ?w1 (ticks ?w1) + au_jwtTTL sample_auth) + 62135596800) * Second" by code_simp
  have "us_ID ?u = ''n''" by (simp add: new_user_def)
  with Register_Login_Verify [OF laws r can] now show ?thesis by metis
qed

text \<open>Witness for \<open>SeedAdmins_idempotent\<close>: two seeds, one of them for an existing account.\<close>

definition sample_seeds :: "AdminSeed list" where
  "sample_seeds = [\<lparr>as_Email = ''a@x'', as_Password = ''p'', as_Name = ''''\<rparr>, \<lparr>as_Email = ''c@x'', as_Password = ''p'', as_Name = ''C''\<rparr>]"

definition seed_world :: "auth_db world" where
  "seed_world = sample_auth_world (sample_auth_db\<lparr>users := [sample_user ''m'' ''c@x'' RoleCustomer]\<rparr>)"

theorem SeedAdmins_witness:
  "let w' = snd (SeedAdmins sample_auth sample_seeds 0 seed_world) in SeedAdmins sample_auth sample_seeds 0 w' = ((None, 0), w')"
proof -
  have "fst (SeedAdmins sample_auth sample_seeds 0 seed_world) = (None, 1)" "faults seed_world = []" by code_simp+
  then show ?thesis
    using SeedAdmins_idempotent [of seed_world sample_auth sample_seeds 1 "snd (SeedAdmins sample_auth sample_seeds 0 seed_world)"]
    by (simp add: Let_def prod_eq_iff)
qed

text \<open>Witness for \<open>requests_create_no_admin\<close>: a request that asks for the role admin.\<close>

definition sample_validator :: validator where
  "sample_validator =
     \<lparr>vd_register = (\<lambda>r. rg_Role r \<in> {RoleCustomer, RoleEO} \<and> rg_Email r \<noteq> '''' \<and> 8 \<le> length (rg_Password r) \<and> rg_Name r \<noteq> ''''),
      vd_organizer = (\<lambda>r. ro_Email r \<noteq> ''''), vd_login = (\<lambda>r. lr_Email r \<noteq> ''''), vd_refresh = (\<lambda>r. rr_RefreshToken r \<noteq> '''')\<rparr>"

lemma sample_validator_law: "validator_law sample_validator"
  by (auto simp: validator_law_def sample_validator_def)

theorem requests_create_no_admin_witness:
  "admins (db (snd (AuthHandler_Register sample_validator sample_auth (request_with [] [] [] (Some (JObj
     [(''email'', JStr ''a@x''), (''password'', JStr ''12345678''), (''name'', JStr ''A''), (''role'', JStr ''admin'')]))) no_user auth_w0))) =
   admins (db auth_w0)"
proof -
  have "auth_Routes sample_validator sample_auth ''POST'' ''/api/auth/register'' = Some (AuthHandler_Register sample_validator sample_auth)"
    by (simp add: auth_Routes_def)
  from requests_create_no_admin [OF sample_validator_law this surjective_pairing] show ?thesis by (rule conjunct1)
qed

text \<open>Witness for \<open>forwarded_identity\<close>: the customer asks for a page of the administrators.\<close>

theorem forwarded_identity_witness:
  "fst (WithUserContext (RequireRole [RoleAdmin] (\<lambda>r ctx w. (OK JNull, w)))
     (request_with [] [] [(''X-Authenticated-User-ID'', ''n''), (''X-Authenticated-User-Role'', ''customer''),
        (''X-Authenticated-User-Email'', ''c@x'')] None) no_user auth_w0) =
   (Forbidden (Err ''insufficient permissions'') :: auth_error http_response)"
proof -
  let ?r = "request_with [] [] [(''Authorization'', ''Bearer tok'')] None"
  let ?r' = "request_with [] [] [(''X-Authenticated-User-ID'', ''n''), (''X-Authenticated-User-Role'', ''customer''), (''X-Authenticated-User-Email'', ''c@x'')] None"
  let ?claims = "\<lparr>cl_UserID = ''n'', cl_Email = ''c@x'', cl_Role = ''customer''\<rparr>"
  have vt: "VerifyToken sample_auth ''tok'' auth_w0 = (Inr ?claims, auth_w0\<lparr>ticks := 1\<rparr>)"
    by (simp add: VerifyToken_def VerifyAccessToken_def op_defs pureE_def auth_sample_defs rsa_method_def claim_str_def)
  have v: "AuthHandler_Verify sample_auth ?r no_user auth_w0 = (verified ?claims, auth_w0\<lparr>ticks := 1\<rparr>)"
    using vt by (simp add: AuthHandler_Verify_def request_with_def respond_def)
  have "\<forall>(k, val) \<in> set (hr_headers (verified ?claims)). rq_header ?r' k = val"
    by (simp add: verified_def request_with_def)
  from forwarded_identity [OF sample_sound v _ this, of "[RoleAdmin]" "(\<lambda>r ctx w. (OK JNull, w)) :: auth_handler" auth_w0]
  have "WithUserContext (RequireRole [RoleAdmin] ((\<lambda>r ctx w. (OK JNull, w)) :: auth_handler)) ?r' no_user auth_w0 =
      (if claim_str sample_claims ''role'' \<in> set [RoleAdmin] then (OK JNull, auth_w0) else (Forbidden (Err ''insufficient permissions''), auth_w0))"
    by (auto simp: verified_def)
  then show ?thesis by (simp add: sample_claims_def claim_str_def)
qed

text \<open>Witness for \<open>me_trusts_header\<close>.\<close>

theorem me_trusts_header_witness:
  "WithUserContext (BearerAuth sample_auth AuthHandler_Me) (request_with [] [] [(''X-Authenticated-User-ID'', ''n'')] None) no_user auth_w0 =
   (OK (JObj [(''user'', userToResponse (sample_user ''n'' ''c@x'' RoleCustomer))]), auth_w0)"
proof (rule me_trusts_header)
  show "auth_Routes sample_validator sample_auth ''GET'' ''/api/auth/me'' = Some (WithUserContext (BearerAuth sample_auth AuthHandler_Me))"
    by (simp add: auth_Routes_def)
qed (simp_all del: base64.simps add: auth_sample_defs request_with_def auth_schema_def user_check_def)

end
