(* ===== verification/System_Samples.thy ===== *)
theory System_Samples
  imports Paid_Booking Interleaving Responses Ticketing_Http_Samples Payment_Samples Auth_Samples
begin

text \<open>The properties of the routes, the consumers, the client and the whole system on the sample databases.\<close>

section \<open>Routes\<close>

definition sample_ph :: PaymentHandler where
  "sample_ph = \<lparr>ph_svc = sample_service, ph_internalKey = ''k'', ph_callbackToken = ''cb''\<rparr>"

text \<open>A webhook without the callback token changes nothing.\<close>

theorem payment_requests_witness:
  "payment_reach pay_db (db (snd (PaymentHandler_Webhook sample_ph (request_with [] [] [] None) no_user (pay_world 0)))) \<and>
   fst (PaymentHandler_Webhook sample_ph (request_with [] [] [] None) no_user (pay_world 0)) = Unauthorized (Err ''invalid callback token'')"
proof -
  have "payment_Routes sample_ph ''POST'' ''/api/payments/webhook'' = Some (PaymentHandler_Webhook sample_ph)"
    by (simp add: payment_Routes_def)
  note req = payment_requests_authorised [OF this, of "request_with [] [] [] None" "pay_world 0", OF surjective_pairing]
  from req show ?thesis by (simp add: PaymentHandler_Webhook_def sample_ph_def)
qed

theorem responses_witness:
  "envelope (fst (BookingHandler_Release (request_with [] [] [] None) no_user sample_world)) \<and>
   envelope (fst (health_of ''payment-service'' (request_with [] [] [] None) no_user (pay_world 0)) :: payment_error http_response) \<and>
   (envelope (fst (AuthHandler_Verify sample_auth (request_with [] [] [] None) no_user auth_w0)) \<or>
    (\<exists>claims. fst (AuthHandler_Verify sample_auth (request_with [] [] [] None) no_user auth_w0) = verified claims))"
proof -
  have a: "auth_router v sample_auth ''GET'' ''/api/auth/verify'' = Some (WithUserContext (AuthHandler_Verify sample_auth))" for v
    by (simp add: auth_router_def auth_Routes_def)
  have p: "payment_router sample_ph ''GET'' ''/api/payments/health'' = Some (health_of ''payment-service'')"
    by (simp add: payment_router_def)
  have b: "ticketing_router sample_tv 900 accept ''DELETE'' ''/api/bookings/reserve/{id}'' =
      Some (WithUserContext (RequireRole [RoleCustomer] BookingHandler_Release))"
    by (simp add: ticketing_router_def event_Routes_def booking_Routes_def Let_def)
  let ?r = "request_with [] [] (as_user ''u1'' RoleCustomer) None"
  have "envelope (fst (WithUserContext (RequireRole [RoleCustomer] BookingHandler_Release) ?r no_user sample_world))"
    using responses_well_formed b by blast
  then have "envelope (fst (BookingHandler_Release (request_with [] [] [] None) no_user sample_world))"
    by (simp add: WithUserContext_def RequireRole_def ctx_of_headers_user as_user_def BookingHandler_Release_def)
  moreover have "envelope (fst (health_of ''payment-service'' (request_with [] [] [] None) no_user (pay_world 0)) :: payment_error http_response)"
    using responses_well_formed p by blast
  moreover have "envelope (fst (WithUserContext (AuthHandler_Verify sample_auth) (request_with [] [] [] None) no_user auth_w0)) \<or>
    (\<exists>claims. fst (WithUserContext (AuthHandler_Verify sample_auth) (request_with [] [] [] None) no_user auth_w0) = verified claims)"
    using responses_well_formed a by blast
  ultimately show ?thesis by (simp add: WithUserContext_def AuthHandler_Verify_def)
qed

section \<open>Consumers\<close>

definition sample_message :: "json \<Rightarrow> Message" where
  "sample_message j = \<lparr>ms_Topic = '''', ms_Key = '''', ms_Value = Some j, ms_Offset = 0\<rparr>"

lemma sample_message_value [simp]: "ms_Value (sample_message j) = Some j"
  by (simp add: sample_message_def)

text \<open>A cancellation whose first statements fail, then a payload that does not decode.\<close>

theorem consumers_keep_witness:
  "inventory_ok (db (snd (Consume rev (the (StartConsumers ''event.cancelled''))
     [Got (sample_message (marshal_EventCancelled \<lparr>ec_EventID = ''e1'', ec_At = 3\<rparr>)), Got (sample_message JNull)]
     (sample_world\<lparr>faults := [NoFault, FaultAfter]\<rparr>))))"
  by (rule consumers_keep_inventory [of "''event.cancelled''"]) (simp_all add: sample_inventory)

definition sample_paid :: json where
  "sample_paid = marshal_PaymentCompleted \<lparr>pc_TransactionID = ''1'', pc_BookingID = ''b1'', pc_EventID = ''e1'', pc_UserID = ''u1'', pc_At = 3\<rparr>"

theorem paid_message_witness:
  "\<exists>h w'. StartConsumers ''payment.completed'' = Some h \<and>
     Consume id h (replicate 3 (Got (sample_message sample_paid))) sample_world = (Running, w') \<and>
     booking_status (db w') ''b1'' = Some ''confirmed'' \<and> length (outbox (db w')) = 1"
proof -
  obtain h where h: "StartConsumers ''payment.completed'' = Some h" by simp
  have fix_: "find (\<lambda>x. br_ID x = ''b1'') (bookings (db sample_world)) = Some sample_booking" "br_Status sample_booking = ''pending''"
    "find (\<lambda>e. ev_ID e = br_EventID sample_booking) (events (db sample_world)) = Some sample_event" "ev_Status sample_event = ''published''"
    using sample_find by (simp_all add: sample_booking_def sample_event_def)
  have dec: "Option.bind (ms_Value (sample_message sample_paid)) unmarshal_PaymentCompleted =
      Some \<lparr>pc_TransactionID = ''1'', pc_BookingID = ''b1'', pc_EventID = ''e1'', pc_UserID = ''u1'', pc_At = 3\<rparr>"
    by (simp add: sample_paid_def)
  from paid_message_repeated [OF h _ _ dec _ fix_, of 2] sample_schema obtain w'
    where w': "Consume id h (replicate 3 (Got (sample_message sample_paid))) sample_world = (Running, w')"
      "booking_status (db w') = (booking_status sample_db)(''b1'' \<mapsto> ''confirmed'')"
      "map (\<lambda>x. (ob_Topic x, ob_Key x)) (outbox (db w')) = map (\<lambda>x. (ob_Topic x, ob_Key x)) (outbox sample_db) @
         map (\<lambda>it. (''ticket.issued'', ''b1'' @ ''-'' @ ir_ID it)) (filter (\<lambda>it. ir_BookingID it = ''b1'') (booking_items sample_db))"
    by (auto simp: numeral_3_eq_3)
  from arg_cong [OF w'(3), of length] have "length (outbox (db w')) = 1" by (simp add: sample_defs)
  with h w' show ?thesis by auto
qed

lemma sample_known: "items_known sample_db"
  by (simp add: items_known_def sample_defs avail_def)



section \<open>Across the services\<close>

definition sample_client :: Client where
  "sample_client = NewClient ''http://pay/'' ''k''"

text \<open>The first answer is lost; the second attempt finds the transaction that was created.\<close>

definition sample_fates :: "int \<Rightarrow> fate" where
  "sample_fates n = (if n = 0 then ReplyLost else Answered)"

abbreviation sample_port :: initiate_call where
  "sample_port \<equiv> payment_port (payment_at sample_ph (cl_baseURL sample_client)) sample_fates sample_client (pay_world 0)"

lemma sample_base: "cl_baseURL sample_client = ''http://pay''"
  by (simp add: sample_client_def NewClient_def TrimSuffix_def)

lemma sample_port_reserves:
  "map_sum (\<lambda>_. ()) rs_BookingID (fst (Reserve 900 sample_port ''u2'' ''u2@x'' ''e1'' sample_items sample_world)) = Inr ''x''"
  by code_simp


theorem Reserve_opens_witness:
  "\<exists>res w' t. Reserve 900 sample_port ''u2'' ''u2@x'' ''e1'' sample_items sample_world = (Inr res, w') \<and>
     filter (\<lambda>t. tx_BookingID t = rs_BookingID res)
       (transactions (db (snd (Client_InitiateTxnForBooking (payment_at sample_ph (cl_baseURL sample_client)) sample_fates sample_client
          (rs_BookingID res) ''e1'' ''u2'' ''u2@x'' (rs_TotalRupiah res) (rs_ExpiresAt res) (pay_world 0))))) = [t] \<and>
     tx_AmountRupiah t = rs_TotalRupiah res"
proof -
  obtain res w' where r: "Reserve 900 sample_port ''u2'' ''u2@x'' ''e1'' sample_items sample_world = (Inr res, w')" "rs_BookingID res = ''x''"
    using sample_port_reserves by (cases "Reserve 900 sample_port ''u2'' ''u2@x'' ''e1'' sample_items sample_world"; cases "fst (Reserve 900 sample_port ''u2'' ''u2@x'' ''e1'' sample_items sample_world)") auto
  from Reserve_opens_payment [OF r(1) _ _ _ surjective_pairing] r show ?thesis
    using sample_schema by auto
qed

definition sample_expiry :: "json option" where
  "sample_expiry = sample_hook ''payment_session.expired'' ''b1''"

abbreviation sample_paid_out :: "payment_db world" where
  "sample_paid_out \<equiv> snd (HandleSessionWebhook sample_expiry (pay_world 0))"

abbreviation sample_log :: "kafka_msg list" where
  "sample_log \<equiv> fst (worker_Run 1 id (\<lambda>_. Written) ([], sample_paid_out))"

theorem expired_payment_witness:
  "\<exists>h. StartConsumers ''payment.expired'' = Some h \<and>
     booking_status (db (snd (Consume rev h (map Got (sample_message JNull # map (sample_message \<circ> km_Value) sample_log)) sample_world))) ''b1'' = Some ''expired''"
proof -
  have few: "length (undelivered (db sample_paid_out)) \<le> 100 * 1"
    by code_simp
  have t: "sample_txn ''1'' ''b1'' StatusPending \<in> set (transactions (db (pay_world 0)))" by simp
  have w: "calm sample_world" "inventory_ok (db sample_world)" "items_known (db sample_world)" "booking_status (db sample_world) ''b1'' = Some ''pending''"
    using sample_inventory sample_known by (simp_all add: booking_status_def sample_db_def sample_booking_def)
  obtain h where h: "StartConsumers ''payment.expired'' = Some h" by simp
  have hand: "\<forall>km \<in> set log. km_Topic km = tp \<longrightarrow>
      (\<exists>m \<in> set (sample_message JNull # map (sample_message \<circ> km_Value) log). ms_Value m = Some (km_Value km))" for log tp
    by auto
  have p: "calm (pay_world 0)" "pay_schema (db (pay_world 0))" "outbox_wf (db (pay_world 0))" "delivered_logged [] (db (pay_world 0))"
    by (simp_all add: outbox_wf_def delivered_logged_def)
  let ?t = "sample_txn ''1'' ''b1'' StatusPending" and ?e = "sample_event_hook ''payment_session.expired'' ''b1''"
  have e: "tx_Status ?t \<in> set ActiveStatuses" "tx_BookingID ?t \<noteq> ''''" "Option.bind sample_expiry unmarshal_webhook = Some ?e"
    "wh_Event ?e = ''payment_session.expired''" "wh_ReferenceID ?e = tx_BookingID ?t" "sessionID ?e = '''' \<or> sessionID ?e = tx_ProviderRef ?t"
    by (simp_all add: sample_expiry_def sample_hook_decode ActiveStatuses_def)
  have pend: "booking_status (db sample_world) (tx_BookingID ?t) = Some ''pending''" using w(4) by simp
  have "booking_status (db (snd (Consume rev h (map Got (sample_message JNull # map (sample_message \<circ> km_Value) sample_log)) sample_world)))
      (tx_BookingID ?t) = Some ''expired''"
    by (rule expired_payment_frees_seats [where sched = id and pick = rev and n = 1
          and ms = "sample_message JNull # map (sample_message \<circ> km_Value) sample_log",
          OF p t e surjective_pairing _ few surjective_pairing hand set_rev h surjective_pairing w(1-3) pend,
          THEN conjunct2, THEN conjunct1]) simp
  then have "booking_status (db (snd (Consume rev h (map Got (sample_message JNull # map (sample_message \<circ> km_Value) sample_log)) sample_world))) ''b1'' = Some ''expired''"
    by (simp only: sample_txn_sel)
  with h show ?thesis by blast
qed

abbreviation sample_completed_out :: "payment_db world" where
  "sample_completed_out \<equiv> snd (HandleSessionWebhook (sample_hook ''payment_session.completed'' ''b1'') (pay_world 0))"

abbreviation sample_completed_log :: "kafka_msg list" where
  "sample_completed_log \<equiv> fst (worker_Run 1 id (\<lambda>_. Written) ([], sample_completed_out))"

text \<open>The message arrives twice, after one that does not decode; one ticket is issued.\<close>

theorem completed_payment_witness:
  "\<exists>h. StartConsumers ''payment.completed'' = Some h \<and>
     tickets_of ''b1'' (db (snd (Consume id h (map Got (sample_message JNull # map (sample_message \<circ> km_Value) (sample_completed_log @ sample_completed_log))) sample_world))) =
     [ticket sample_booking sample_item]"
proof -
  let ?t = "sample_txn ''1'' ''b1'' StatusPending" and ?e = "sample_event_hook ''payment_session.completed'' ''b1''"
    and ?ms = "sample_message JNull # map (sample_message \<circ> km_Value) (sample_completed_log @ sample_completed_log)"
  have few: "length (undelivered (db sample_completed_out)) \<le> 100 * 1" by code_simp
  have t: "?t \<in> set (transactions (db (pay_world 0)))" by simp
  obtain h where h: "StartConsumers ''payment.completed'' = Some h" by simp
  have hand: "\<forall>km \<in> set log. km_Topic km = tp \<longrightarrow>
      (\<exists>m \<in> set (sample_message JNull # map (sample_message \<circ> km_Value) (log @ log)). ms_Value m = Some (km_Value km))" for log tp
    by auto
  have p: "calm (pay_world 0)" "pay_schema (db (pay_world 0))" "outbox_wf (db (pay_world 0))" "delivered_logged [] (db (pay_world 0))"
    by (simp_all add: outbox_wf_def delivered_logged_def)
  have e: "tx_Status ?t \<in> set ActiveStatuses" "tx_BookingID ?t \<noteq> ''''"
    "Option.bind (sample_hook ''payment_session.completed'' ''b1'') unmarshal_webhook = Some ?e"
    "wh_Event ?e = ''payment_session.completed''" "wh_ReferenceID ?e = tx_BookingID ?t" "sessionID ?e = '''' \<or> sessionID ?e = tx_ProviderRef ?t"
    by (simp_all add: sample_hook_decode ActiveStatuses_def)
  have b: "calm sample_world" "inventory_ok (db sample_world)"
    "find (\<lambda>x. br_ID x = tx_BookingID ?t) (bookings (db sample_world)) = Some sample_booking" "br_Status sample_booking = ''pending''"
    "find (\<lambda>e. ev_ID e = br_EventID sample_booking) (events (db sample_world)) = Some sample_event" "ev_Status sample_event = ''published''"
    using sample_find sample_inventory by (simp_all add: sample_booking_def sample_event_def)
  have "tickets_of (tx_BookingID ?t) (db (snd (Consume id h (map Got ?ms) sample_world))) = tickets_of (tx_BookingID ?t) (db sample_world) @
      map (ticket sample_booking) (filter (\<lambda>it. ir_BookingID it = tx_BookingID ?t) (booking_items (db sample_world)))"
    by (rule completed_payment_issues_tickets [where sched = id and pick = id and n = 1 and ms = ?ms,
          OF p t e surjective_pairing _ few surjective_pairing hand _ h surjective_pairing b, THEN conjunct2, THEN conjunct2, THEN conjunct1]) simp_all
  then have "tickets_of ''b1'' (db (snd (Consume id h (map Got ?ms) sample_world))) = [ticket sample_booking sample_item]"
    by (simp add: tickets_of_def sample_defs)
  with h show ?thesis by blast
qed

section \<open>Interleavings\<close>

abbreviation sample_taken :: "ticketing_db world" where
  "sample_taken \<equiv> snd (seat_Reserve ''e1'' ''vip'' 2 sample_world)"

abbreviation sample_freed :: "ticketing_db world" where
  "sample_freed \<equiv> snd (ExpireOnPaymentExpired ''b1'' sample_taken)"

lemma sample_take:
  "fst (seat_GetPrice ''e1'' ''vip'' sample_world) = Inr 100"
  "fst (seat_Reserve ''e1'' ''vip'' 2 sample_world) = Inr ()"
  by code_simp+

text \<open>A reservation has taken the seats of its first item when another booking expires.\<close>

theorem interleaving_witness:
  "\<exists>ts. length ts = 2 \<and> pool_runs (thread_step 900 always_accepts) begins ([], sample_db) (ts, db sample_freed) \<and> inventory_ok (db sample_freed)"
proof -
  let ?it = "sample_request ''vip'' 2 100" and ?rest = "[sample_request ''reg'' 1 50]"
  let ?A = "Taking ''u2'' ''u2@x'' ''e1'' sample_items [] sample_items"
  let ?A1 = "Taking ''u2'' ''u2@x'' ''e1'' sample_items ([] @ [?it]) ?rest"
  let ?step = "thread_step 900 always_accepts"
  have "begins ?A" by (simp add: sample_items_def sample_request_def)
  have clear: "clear sample_world" by simp
  have c: "clear sample_taken" by (rule keeps_clearD [OF keeps_clear_reserve(2) clear surjective_pairing])
  have "db (snd (seat_GetPrice ''e1'' ''vip'' sample_world)) = sample_db"
    using read_onlyD [OF read_only_seat_GetPrice surjective_pairing, of "''e1''" "''vip''" sample_world] by simp
  then have price: "runs_to (seat_GetPrice ''e1'' (bi_TicketTypeID ?it)) sample_db (Inr (bi_UnitPriceRupiah ?it)) sample_db"
    using runs_toI [of "seat_GetPrice ''e1'' ''vip''" sample_world, OF surjective_pairing clear] sample_take(1) by simp
  have take: "runs_to (seat_Reserve ''e1'' (bi_TicketTypeID ?it) (bi_Quantity ?it)) sample_db (Inr ()) (db sample_taken)"
    using runs_toI [of "seat_Reserve ''e1'' ''vip'' 2" sample_world, OF surjective_pairing clear] sample_take(2) by simp
  have A: "alone ?step (?A, sample_db) (?A1, db sample_taken)"
    unfolding sample_items_def by (rule thread_go [OF reserve_step.price_right [THEN thread_step.reserving, OF price] thread_end [OF reserve_step.take_seats [THEN thread_step.reserving, OF take]]])
  have B: "alone ?step (ExpiredFor ''b1'', db sample_taken) (Acked (fst (ExpireOnPaymentExpired ''b1'' sample_taken)), db sample_freed)"
    by (rule Expire_thread [OF surjective_pairing c])
  have run: "pool_runs ?step begins ([], sample_db) ([?A1, Acked (fst (ExpireOnPaymentExpired ''b1'' sample_taken))], db sample_freed)"
  proof -
    have "pool_runs ?step begins ([], sample_db) ([] @ [?A1], db sample_taken)" using \<open>begins ?A\<close> A by (rule alone_begins)
    moreover have "begins (ExpiredFor ''b1'')" by simp
    then have "pool_runs ?step begins ([?A1], db sample_taken) ([?A1] @ [Acked (fst (ExpireOnPaymentExpired ''b1'' sample_taken))], db sample_freed)"
      using B by (rule alone_begins)
    ultimately show ?thesis by simp
  qed
  with interleaving_never_oversells [OF run] sample_inventory show ?thesis by (intro exI conjI) auto
qed

theorem operations_are_threads_witness:
  "\<exists>r w'. Confirm ''b1'' ''1'' (sample_world\<lparr>faults := [FaultBefore]\<rparr>) = (r, w') \<and>
     alone (thread_step 900 accept) (PaidFor ''b1'', sample_db) (Acked r, db w')"
proof -
  let ?w = "sample_world\<lparr>faults := [FaultBefore]\<rparr>"
  obtain r w' where r: "Confirm ''b1'' ''1'' ?w = (r, w')" by fastforce
  have "clear ?w" by simp
  from operations_are_threads [OF this, of _ 900 accept _ _ _ _ w' "''b1''" "''1''" r] r show ?thesis by auto
qed

end
