(* ===== verification/Cancelled_Samples.thy ===== *)
theory Cancelled_Samples
  imports Cancelled_Event System_Samples
begin

text \<open>The cancellation of the sample event, on the sample databases of both services.\<close>

abbreviation sample_cancelled_out :: "ticketing_db world" where
  "sample_cancelled_out \<equiv> snd (CancelEvent ''e1'' (ev_OrganizerID sample_event) sample_world)"

abbreviation sample_cancelled_log :: "kafka_msg list" where
  "sample_cancelled_log \<equiv> fst (worker_Run 1 id (\<lambda>_. Written) ([], sample_cancelled_out))"

abbreviation sample_cancelled_msgs :: "Message list" where
  "sample_cancelled_msgs \<equiv> sample_message JNull # map (sample_message \<circ> km_Value) (sample_cancelled_log @ sample_cancelled_log)"

text \<open>
  The message arrives twice, after one that does not decode: the booking of the event is cancelled, and
  the payment of it that was completed is refunded.
\<close>

theorem cancelled_event_witness:
  "\<exists>h h'. StartConsumers ''event.cancelled'' = Some h \<and> payment_StartConsumer ''event.cancelled'' = Some h' \<and>
     booking_status (db (snd (Consume rev h (map Got sample_cancelled_msgs) sample_world))) ''b1'' = Some ''cancelled'' \<and>
     (\<exists>rf \<in> set (refund_requests (db (snd (Consume rev h' (map Got sample_cancelled_msgs) (pay_world 0))))). rf_TransactionID rf = ''4'')"
proof -
  let ?t = "sample_txn ''4'' ''b4'' StatusCompleted"
  have few: "length (undelivered (db sample_cancelled_out)) \<le> 100 * 1"
    by code_simp
  have tw: "calm sample_world" "schema_ok (db sample_world)" "outbox_wf (db sample_world)" "delivered_logged [] (db sample_world)"
    using sample_schema by (simp_all add: outbox_wf_def delivered_logged_def sample_db_def)
  have e: "find (\<lambda>e. ev_ID e = ''e1'') (events (db sample_world)) = Some sample_event" "ev_Status sample_event = EventStatusPublished"
    using sample_find by simp_all
  have hand: "\<forall>km \<in> set sample_cancelled_log. km_Topic km = ''event.cancelled'' \<longrightarrow> (\<exists>m \<in> set sample_cancelled_msgs. ms_Value m = Some (km_Value km))"
    by auto
  obtain h h' where h: "StartConsumers ''event.cancelled'' = Some h" "payment_StartConsumer ''event.cancelled'' = Some h'"
    by (simp add: payment_StartConsumer_def)
  have w: "inventory_ok (db sample_world)" "items_known (db sample_world)" using sample_inventory sample_known by simp_all
  have pw: "calm (pay_world 0)" "pay_inv (db (pay_world 0))" "fresh_refunds (pay_world 0)"
      "\<forall>t \<in> set (transactions (db (pay_world 0))). int8_ok (tx_AmountRupiah t)"
    using pay_db_inv sample_fresh sample_amount by simp_all
  have id: "\<And>b. set (id b) = set b" by simp
  note all = cancelled_event_settled [where sched = id and pick = rev and n = 1 and ms = sample_cancelled_msgs,
      OF tw e surjective_pairing id few surjective_pairing hand set_rev h(1) surjective_pairing tw(1) w h(2) surjective_pairing pw]
  have b: "sample_booking \<in> set (bookings (db sample_world))" "br_EventID sample_booking = ''e1'' \<and> br_Status sample_booking \<in> {''pending'', ''confirmed''}"
      "br_ID sample_booking = ''b1''"
    by (simp_all add: sample_db_def sample_booking_def)
  have t: "?t \<in> set (transactions (db (pay_world 0)))" "tx_EventID ?t = ''e1'' \<and> tx_Status ?t = StatusCompleted" "tx_ID ?t = ''4''" by simp_all
  from mp [OF bspec [OF conjunct1 [OF conjunct2 [OF all]] b(1)] b(2)]
    mp [OF bspec [OF conjunct2 [OF conjunct2 [OF conjunct2 [OF conjunct2 [OF all]]]] t(1)] t(2)] h
  show ?thesis unfolding b(3) t(3) by blast
qed

end
