(* ===== verification/Payment_Interleaving.thy ===== *)
theory Payment_Interleaving
  imports Payment_Invariant Thread_Pool
begin

text \<open>
  The payment service at work on several requests, webhooks, polls and messages at the same time.
  Every handler of \<^verbatim>\<open>service/payment/internal/application\<close> is a thread, whose atomic steps are its
  SQL statements and its calls of the gateway, in the order of the code. Between two steps the
  other threads may do any number of theirs, so the copy of a transaction on which a handler
  decides may be stale. A statement may fail before or after it took effect.
\<close>

section \<open>The threads\<close>

text \<open>
  Where a handler stands. The announcement of an outcome is a statement of its own: \<open>Announcing\<close>
  and \<open>AnnouncingExpired\<close> have changed the status and still owe the message. The last argument of
  \<open>Settling\<close> and \<open>AnnouncingExpired\<close> is what the poller has left to do.
\<close>

datatype pay_thread =
    Opening string string string string int time
  | Reopening string
  | Opened "payment_error + Transaction"
  | Paying string string
  | Checking string string Transaction
  | Connecting string Transaction
  | Linking Transaction SessionResult
  | Linked Transaction SessionResult
  | Withdrawing SessionResult
  | Paid "payment_error + Transaction \<times> SessionResult"
  | Notified "json option"
  | Completing Transaction
  | Announcing Transaction
  | Refunding Transaction
  | Refunded Transaction
  | Expiring Transaction
  | AnnouncingExpired string Transaction "Transaction list"
  | Polling int
  | Sweeping "Transaction list"
  | Settling Transaction "Transaction list"
  | CancelledEvent "json option"
  | Repaying "Transaction list"
  | Repaid Transaction "Transaction list"
  | Marking nat
  | Served "payment_error + unit"

text \<open>When the session of the gateway ends, for the time \<^verbatim>\<open>ProcessPayment\<close> reads.\<close>

definition session_deadline :: "PaymentService \<Rightarrow> Transaction \<Rightarrow> time \<Rightarrow> time" where
  "session_deadline s txn now =
     (let gatewayExpiresAt = the (tx_ExpiresAt txn) + wrap64 (wrap64 (- gatewayExpiryBufferMin s) * Minute);
          minGatewayExpiry = now + 10 * Minute
      in if gatewayExpiresAt < minGatewayExpiry then minGatewayExpiry else gatewayExpiresAt)"

text \<open>The steps of \<^verbatim>\<open>InitiateTxnForBooking\<close> and \<^verbatim>\<open>ProcessPayment\<close>.\<close>

inductive initiate_step :: "PaymentService \<Rightarrow> pay_thread \<Rightarrow> payment_db \<Rightarrow> pay_thread \<Rightarrow> payment_db \<Rightarrow> bool"
  for s :: PaymentService where
  created: "some_run (txn_Create (new_txn s i b e u em a x)) d (Inr ()) d' \<Longrightarrow>
    initiate_step s (Opening b e u em a x) d (Opened (Inr (new_txn s i b e u em a x))) d'"
| create_again: "some_run (txn_Create (new_txn s i b e u em a x)) d (Inl (PayErr UniqueViolation)) d' \<Longrightarrow>
    initiate_step s (Opening b e u em a x) d (Reopening b) d'"
| create_error: "some_run (txn_Create (new_txn s i b e u em a x)) d (Inl err) d' \<Longrightarrow> err \<noteq> PayErr UniqueViolation \<Longrightarrow>
    initiate_step s (Opening b e u em a x) d (Opened (Inl err)) d'"
| found_again: "some_run (txn_FindByBookingID b) d r d' \<Longrightarrow> initiate_step s (Reopening b) d (Opened r) d'"

inductive process_step :: "PaymentService \<Rightarrow> pay_thread \<Rightarrow> payment_db \<Rightarrow> pay_thread \<Rightarrow> payment_db \<Rightarrow> bool"
  for s :: PaymentService where
  pay_missing: "some_run (txn_FindByBookingID b) d (Inl e) d' \<Longrightarrow>
    process_step s (Paying b u) d (Paid (Inl ErrTransactionNotFound)) d'"
| pay_processed: "some_run (txn_FindByBookingID b) d (Inr t) d' \<Longrightarrow> tx_Status t \<noteq> StatusInitiated \<Longrightarrow>
    process_step s (Paying b u) d (Paid (Inl ErrAlreadyProcessed)) d'"
| pay_found: "some_run (txn_FindByBookingID b) d (Inr t) d' \<Longrightarrow> tx_Status t = StatusInitiated \<Longrightarrow>
    process_step s (Paying b u) d (Checking b u t) d'"
| pay_late: "some_run (deadline_passed (tx_ExpiresAt t)) d (Inr True) d' \<Longrightarrow>
    process_step s (Checking b u t) d (Paid (Inl ErrTransactionExpired)) d'"
| pay_foreign: "some_run (deadline_passed (tx_ExpiresAt t)) d (Inr False) d' \<Longrightarrow> tx_UserID t \<noteq> u \<Longrightarrow>
    process_step s (Checking b u t) d (Paid (Inl ErrTransactionNotFound)) d'"
| pay_ready: "some_run (deadline_passed (tx_ExpiresAt t)) d (Inr False) d' \<Longrightarrow> tx_UserID t = u \<Longrightarrow>
    process_step s (Checking b u t) d (Connecting b t) d'"
| session_refused: "some_run (CreateSession s b (tx_AmountRupiah t) (tx_Currency t) (session_deadline s t now)
      (allowedChannels s) (tx_CustomerEmail t)) d (Inl err) d' \<Longrightarrow>
    process_step s (Connecting b t) d (Paid (Inl (ErrGatewayUnavailable err))) d'"
| session_opened: "some_run (CreateSession s b (tx_AmountRupiah t) (tx_Currency t) (session_deadline s t now)
      (allowedChannels s) (tx_CustomerEmail t)) d (Inr res) d' \<Longrightarrow>
    process_step s (Connecting b t) d (Linking t res) d'"
| link_error: "some_run (txn_TransitionIfInitiated (tx_ID t) StatusPending (sr_ProviderRef res)) d (Inl e) d' \<Longrightarrow>
    process_step s (Linking t res) d (Paid (Inl e)) d'"
| link_late: "some_run (txn_TransitionIfInitiated (tx_ID t) StatusPending (sr_ProviderRef res)) d (Inr False) d' \<Longrightarrow>
    process_step s (Linking t res) d (Withdrawing res) d'"
| link: "some_run (txn_TransitionIfInitiated (tx_ID t) StatusPending (sr_ProviderRef res)) d (Inr True) d' \<Longrightarrow>
    process_step s (Linking t res) d (Linked t res) d'"
| withdraw: "some_run (CancelSession s (sr_ProviderRef res)) d r d' \<Longrightarrow>
    process_step s (Withdrawing res) d (Paid (Inl ErrAlreadyProcessed)) d'"
| store_link_error: "some_run (txn_UpdateSession (tx_ID t) (sr_ProviderRef res) (sr_PaymentLinkURL res)) d (Inl e) d' \<Longrightarrow>
    process_step s (Linked t res) d (Paid (Inl e)) d'"
| store_link: "some_run (txn_UpdateSession (tx_ID t) (sr_ProviderRef res) (sr_PaymentLinkURL res)) d (Inr ()) d' \<Longrightarrow>
    process_step s (Linked t res) d (Paid (Inr (t, res))) d'"

text \<open>The steps of \<^verbatim>\<open>HandleSessionWebhook\<close>.\<close>

inductive webhook_step :: "pay_thread \<Rightarrow> payment_db \<Rightarrow> pay_thread \<Rightarrow> payment_db \<Rightarrow> bool" where
  not_json: "Option.bind p unmarshal_webhook = None \<Longrightarrow> webhook_step (Notified p) d (Served (Inl ErrInvalidPayload)) d"
| no_reference: "Option.bind p unmarshal_webhook = Some ev \<Longrightarrow> wh_ReferenceID ev = '''' \<Longrightarrow>
    webhook_step (Notified p) d (Served (Inl ErrMissingReference)) d"
| unknown: "Option.bind p unmarshal_webhook = Some ev \<Longrightarrow> wh_ReferenceID ev \<noteq> '''' \<Longrightarrow>
    some_run (txn_FindByBookingID (wh_ReferenceID ev)) d (Inl e) d' \<Longrightarrow> webhook_step (Notified p) d (Served (Inl e)) d'"
| other_session: "Option.bind p unmarshal_webhook = Some ev \<Longrightarrow> wh_ReferenceID ev \<noteq> '''' \<Longrightarrow>
    some_run (txn_FindByBookingID (wh_ReferenceID ev)) d (Inr t) d' \<Longrightarrow>
    sessionID ev \<noteq> '''' \<and> sessionID ev \<noteq> tx_ProviderRef t \<or>
      wh_Event ev \<noteq> ''payment_session.completed'' \<and> wh_Event ev \<noteq> ''payment_session.expired'' \<Longrightarrow>
    webhook_step (Notified p) d (Served (Inr ())) d'"
| hook_completed: "Option.bind p unmarshal_webhook = Some ev \<Longrightarrow> wh_ReferenceID ev \<noteq> '''' \<Longrightarrow>
    some_run (txn_FindByBookingID (wh_ReferenceID ev)) d (Inr t) d' \<Longrightarrow>
    sessionID ev = '''' \<or> sessionID ev = tx_ProviderRef t \<Longrightarrow> wh_Event ev = ''payment_session.completed'' \<Longrightarrow>
    webhook_step (Notified p) d (Completing t) d'"
| hook_expired: "Option.bind p unmarshal_webhook = Some ev \<Longrightarrow> wh_ReferenceID ev \<noteq> '''' \<Longrightarrow>
    some_run (txn_FindByBookingID (wh_ReferenceID ev)) d (Inr t) d' \<Longrightarrow>
    sessionID ev = '''' \<or> sessionID ev = tx_ProviderRef t \<Longrightarrow> wh_Event ev = ''payment_session.expired'' \<Longrightarrow>
    webhook_step (Notified p) d (Expiring t) d'"
  \<comment> \<open>a paid session\<close>
| complete: "some_run (txn_TransitionIfActive (tx_ID t) StatusCompleted (tx_ProviderRef t)) d (Inr True) d' \<Longrightarrow>
    webhook_step (Completing t) d (Announcing t) d'"
| complete_late: "some_run (txn_TransitionIfActive (tx_ID t) StatusCompleted (tx_ProviderRef t)) d (Inr False) d' \<Longrightarrow>
    tx_Status t = StatusExpired \<Longrightarrow> webhook_step (Completing t) d (Refunding t) d'"
| complete_done: "some_run (txn_TransitionIfActive (tx_ID t) StatusCompleted (tx_ProviderRef t)) d (Inr False) d' \<Longrightarrow>
    tx_Status t \<noteq> StatusExpired \<Longrightarrow> webhook_step (Completing t) d (Served (Inr ())) d'"
| complete_error: "some_run (txn_TransitionIfActive (tx_ID t) StatusCompleted (tx_ProviderRef t)) d (Inl e) d' \<Longrightarrow>
    webhook_step (Completing t) d (Served (Inl e)) d'"
| announce: "some_run (emit_completed t) d r d' \<Longrightarrow> webhook_step (Announcing t) d (Served (Inr ())) d'"
| refund: "some_run (refund_Create (refund_for i ''late_payment'' ''late-payment:'' t)) d (Inr ()) d' \<Longrightarrow>
    webhook_step (Refunding t) d (Refunded t) d'"
| refund_error: "some_run (refund_Create (refund_for i ''late_payment'' ''late-payment:'' t)) d (Inl e) d' \<Longrightarrow>
    webhook_step (Refunding t) d (Served (Inr ())) d'"
| refund_noted: "some_run (txn_UpdateRefundStatus (tx_ID t) ''pending'') d r d' \<Longrightarrow>
    webhook_step (Refunded t) d (Served (Inr ())) d'"
  \<comment> \<open>an expired session\<close>
| expire: "some_run (txn_TransitionIfActive (tx_ID t) StatusExpired (tx_ProviderRef t)) d (Inr True) d' \<Longrightarrow>
    webhook_step (Expiring t) d (AnnouncingExpired GatewayExpiredReason t []) d'"
| expire_done: "some_run (txn_TransitionIfActive (tx_ID t) StatusExpired (tx_ProviderRef t)) d (Inr False) d' \<Longrightarrow>
    webhook_step (Expiring t) d (Served (Inr ())) d'"
| expire_error: "some_run (txn_TransitionIfActive (tx_ID t) StatusExpired (tx_ProviderRef t)) d (Inl e) d' \<Longrightarrow>
    webhook_step (Expiring t) d (Served (Inl e)) d'"
| announce_expired: "some_run (emit_expired reason t) d r d' \<Longrightarrow>
    webhook_step (AnnouncingExpired reason t ts) d (Sweeping ts) d'"

text \<open>The steps of \<^verbatim>\<open>ProcessExpired\<close>.\<close>

inductive poll_step :: "PaymentService \<Rightarrow> pay_thread \<Rightarrow> payment_db \<Rightarrow> pay_thread \<Rightarrow> payment_db \<Rightarrow> bool"
  for s :: PaymentService where
  poll: "some_run (txn_ListActiveExpired now lim) d (Inr ts) d' \<Longrightarrow> poll_step s (Polling lim) d (Sweeping ts) d'"
| poll_error: "some_run (txn_ListActiveExpired now lim) d (Inl e) d' \<Longrightarrow> poll_step s (Polling lim) d (Served (Inl e)) d'"
| sweep_cancel: "tx_ProviderRef t \<noteq> '''' \<Longrightarrow> some_run (CancelSession s (tx_ProviderRef t)) d r d' \<Longrightarrow>
    poll_step s (Sweeping (t # ts)) d (Settling t ts) d'"
| sweep_unlinked: "tx_ProviderRef t = '''' \<Longrightarrow> poll_step s (Sweeping (t # ts)) d (Settling t ts) d"
| swept: "poll_step s (Sweeping []) d (Served (Inr ())) d"
| settle: "some_run (txn_TransitionIfActive (tx_ID t) StatusExpired (tx_ProviderRef t)) d (Inr True) d' \<Longrightarrow>
    poll_step s (Settling t ts) d (AnnouncingExpired ''internal_expiry_fallback'' t ts) d'"
| settle_done: "some_run (txn_TransitionIfActive (tx_ID t) StatusExpired (tx_ProviderRef t)) d (Inr False) d' \<Longrightarrow>
    poll_step s (Settling t ts) d (Sweeping ts) d'"
| settle_error: "some_run (txn_TransitionIfActive (tx_ID t) StatusExpired (tx_ProviderRef t)) d (Inl e) d' \<Longrightarrow>
    poll_step s (Settling t ts) d (Sweeping ts) d'"

text \<open>The steps of \<^verbatim>\<open>HandleEventCancelled\<close>, for a message of \<^verbatim>\<open>event.cancelled\<close>.\<close>

inductive repay_step :: "pay_thread \<Rightarrow> payment_db \<Rightarrow> pay_thread \<Rightarrow> payment_db \<Rightarrow> bool" where
  cancelled_not_json: "Option.bind p unmarshal_EventCancelled = None \<Longrightarrow>
    repay_step (CancelledEvent p) d (Served (Inl ErrInvalidPayload)) d"
| cancelled_error: "Option.bind p unmarshal_EventCancelled = Some ev \<Longrightarrow> some_run (txn_ListByEventID (ec_EventID ev)) d (Inl e) d' \<Longrightarrow>
    repay_step (CancelledEvent p) d (Served (Inl e)) d'"
| cancelled: "Option.bind p unmarshal_EventCancelled = Some ev \<Longrightarrow> some_run (txn_ListByEventID (ec_EventID ev)) d (Inr ts) d' \<Longrightarrow>
    repay_step (CancelledEvent p) d (Repaying ts) d'"
| repay_skip: "tx_Status t \<noteq> StatusCompleted \<Longrightarrow> repay_step (Repaying (t # ts)) d (Repaying ts) d"
| repay: "tx_Status t = StatusCompleted \<Longrightarrow>
    some_run (refund_Create (refund_for i ''event_cancelled'' ''event-cancelled:'' t)) d (Inr ()) d' \<Longrightarrow>
    repay_step (Repaying (t # ts)) d (Repaid t ts) d'"
| repay_error: "tx_Status t = StatusCompleted \<Longrightarrow>
    some_run (refund_Create (refund_for i ''event_cancelled'' ''event-cancelled:'' t)) d (Inl e) d' \<Longrightarrow>
    repay_step (Repaying (t # ts)) d (Served (Inl e)) d'"
| repay_noted: "some_run (txn_UpdateRefundStatus (tx_ID t) ''pending'') d (Inr ()) d' \<Longrightarrow>
    repay_step (Repaid t ts) d (Repaying ts) d'"
| repay_note_error: "some_run (txn_UpdateRefundStatus (tx_ID t) ''pending'') d (Inl e) d' \<Longrightarrow>
    repay_step (Repaid t ts) d (Served (Inl e)) d'"
| repaid: "repay_step (Repaying []) d (Served (Inr ())) d"

text \<open>A step of the payment service; \<open>mark\<close> is the outbox worker.\<close>

inductive pay_step :: "PaymentService \<Rightarrow> pay_thread \<Rightarrow> payment_db \<Rightarrow> pay_thread \<Rightarrow> payment_db \<Rightarrow> bool"
  for s :: PaymentService where
  initiating: "initiate_step s t d t' d' \<Longrightarrow> pay_step s t d t' d'"
| processing: "process_step s t d t' d' \<Longrightarrow> pay_step s t d t' d'"
| notifying: "webhook_step t d t' d' \<Longrightarrow> pay_step s t d t' d'"
| polling: "poll_step s t d t' d' \<Longrightarrow> pay_step s t d t' d'"
| repaying: "repay_step t d t' d' \<Longrightarrow> pay_step s t d t' d'"
| mark: "some_run (mark_delivered i) d r d' \<Longrightarrow> pay_step s (Marking i) d (Served (Inr ())) d'"

fun pay_begins :: "pay_thread \<Rightarrow> bool" where
  "pay_begins (Opening b e u em a x) \<longleftrightarrow> True"
| "pay_begins (Paying b u) \<longleftrightarrow> True"
| "pay_begins (Notified p) \<longleftrightarrow> True"
| "pay_begins (Polling lim) \<longleftrightarrow> True"
| "pay_begins (CancelledEvent p) \<longleftrightarrow> True"
| "pay_begins (Marking i) \<longleftrightarrow> True"
| "pay_begins _ \<longleftrightarrow> False"

section \<open>The invariant of the pool\<close>

text \<open>What a thread relies on while the others go on, and the announcement it owes.\<close>

fun pay_ok :: "payment_db \<Rightarrow> pay_thread \<Rightarrow> bool" where
  "pay_ok d (Completing t) \<longleftrightarrow> read_of t d"
| "pay_ok d (Refunding t) \<longleftrightarrow> read_of t d \<and> tx_Status t = StatusExpired"
| "pay_ok d (Announcing t) \<longleftrightarrow> txn_status d (tx_ID t) = Some StatusCompleted"
| "pay_ok d (AnnouncingExpired reason t ts) \<longleftrightarrow> txn_status d (tx_ID t) = Some StatusExpired"
| "pay_ok d (Repaying ts) \<longleftrightarrow> (\<forall>t \<in> set ts. read_of t d)"
| "pay_ok d (Repaid t ts) \<longleftrightarrow> (\<forall>t \<in> set ts. read_of t d)"
| "pay_ok d _ \<longleftrightarrow> True"

fun owes :: "pay_thread \<Rightarrow> string \<Rightarrow> int" where
  "owes (Announcing t) k = (if k = tx_ID t then 1 else 0)"
| "owes (AnnouncingExpired reason t ts) k = (if k = tx_ID t then 1 else 0)"
| "owes _ k = 0"

text \<open>
  Of every transaction at most one announcement is queued or owed, and none is owed for a
  transaction that is still active.
\<close>

definition announced_once :: "(string \<Rightarrow> int) \<Rightarrow> payment_db \<Rightarrow> bool" where
  "announced_once g d \<longleftrightarrow> pay_inv d \<and>
     (\<forall>k. 0 < g k \<longrightarrow> (\<exists>st. txn_status d k = Some st \<and> terminal st)) \<and>
     (\<forall>k. g k + int (count_list (outcome_keys d) k) \<le> 1)"

lemma announced_once_mono: "announced_once g d \<Longrightarrow> (\<And>k. h k \<le> g k) \<Longrightarrow> announced_once h d"
  unfolding announced_once_def by (metis add_right_mono order_less_le_trans order_trans)

text \<open>Steps that announce nothing.\<close>

definition quiet :: "payment_db \<Rightarrow> payment_db \<Rightarrow> bool" where
  "quiet d d' \<longleftrightarrow> (pay_inv d \<longrightarrow> pay_inv d' \<and> moves_on d d' \<and> outcome_keys d' = outcome_keys d)"

lemma quiet_refl [simp]: "quiet d d"
  by (simp add: quiet_def)

lemma quiet_announced: "quiet d d' \<Longrightarrow> announced_once g d \<Longrightarrow> announced_once g d'"
  using txn_status_terminal [of d d'] by (fastforce simp: quiet_def announced_once_def pay_inv_def)

lemma moved_ok:
  assumes "moves_on d d'" "pay_inv d'" "pay_ok d t"
  shows "pay_ok d' t"
proof -
  note [elim] = moves_on_read [OF assms(1)]
  have "pay_schema d'" using assms(2) by (simp add: pay_inv_def)
  note [intro] = txn_status_terminal [OF assms(1) this]
  from assms(3) show ?thesis by (cases t) auto
qed

section \<open>The statements\<close>

lemma run_quiet:
  assumes run: "some_run f d r d'" and inv: "preserves (inv_read (us @ transactions d)) f" and us: "\<forall>u \<in> set us. read_of u d"
    and keys: "preserves (\<lambda>d1. outcome_keys d1 = outcome_keys d) f"
  shows "quiet d d'"
  unfolding quiet_def
proof
  assume "pay_inv d"
  with us have "inv_read (us @ transactions d) d" by (auto simp: inv_read_def read_of_here)
  from some_run_preserves [OF run inv this] have "pay_inv d'" "moves_on d d'"
    by (auto simp: inv_read_def moves_on_def read_of_def)
  with some_run_preserves [OF run keys] show "pay_inv d' \<and> moves_on d d' \<and> outcome_keys d' = outcome_keys d" by simp
qed

lemma keys_same: "outbox d' = outbox d \<Longrightarrow> outcome_keys d' = outcome_keys d"
  by (simp add: outcome_keys_def)

lemma stmt_keys:
  "stmt_insert_txn t now d = Inr (u, d') \<Longrightarrow> outcome_keys d' = outcome_keys d"
  "stmt_insert_refund rf now d = Inr (u, d') \<Longrightarrow> outcome_keys d' = outcome_keys d"
  "stmt_update_txn P f d = Inr (n, d') \<Longrightarrow> outcome_keys d' = outcome_keys d"
  "stmt_settle g i st ref now d = Inr (n, d') \<Longrightarrow> outcome_keys d' = outcome_keys d"
  by (auto simp: stmt_insert_txn_def stmt_insert_refund_def stmt_settle_def Let_def split: if_splits
      intro: keys_same dest: stmt_update_txn_frame(3))

lemma keeps_keys:
  fixes K :: "string list"
  defines "I \<equiv> \<lambda>d. outcome_keys d = K"
  shows "preserves I (txn_Create t)" "preserves I (refund_Create rf)" "preserves I (txn_UpdateSession i ref url)"
    "preserves I (txn_UpdateRefundStatus i st)" "preserves I (txn_TransitionIfActive i st ref)"
    "preserves I (txn_TransitionIfInitiated i st ref)" "preserves I (CreateSession s b a c e ch em)"
    "preserves I (CancelSession s ref)" "preserves I (mark_delivered j)"
proof -
  have "outcome_keys (mark_row j d) = outcome_keys d" for d :: payment_db
  proof -
    have "map ob_Key (filter (\<lambda>r. outcome_of (ob_Topic r) \<noteq> None) (update_where (\<lambda>r. ob_ID r = j) (\<lambda>r. r\<lparr>ob_Delivered := True\<rparr>) rs)) =
        map ob_Key (filter (\<lambda>r. outcome_of (ob_Topic r) \<noteq> None) rs)" for rs by (induction rs) auto
    then show ?thesis by (simp add: outcome_keys_def)
  qed
  with mark_delivered_cases show "preserves I (mark_delivered j)" unfolding preserves_def I_def by metis
  show "preserves I (CreateSession s b a c e ch em)" "preserves I (CancelSession s ref)"
    by (simp_all add: preserves_def CreateSession_def CancelSession_def log_call_def I_def)
qed (unfold txn_Create_def refund_Create_def txn_UpdateSession_def txn_UpdateRefundStatus_def
    txn_TransitionIfActive_def txn_TransitionIfInitiated_def I_def, (intro preserve; metis stmt_keys)+)

lemma TransitionIfActive_inv: "preserves (inv_read ts) (txn_TransitionIfActive i st ref)"
  unfolding hoare_preserves [symmetric] by (rule hoare_post [OF TransitionIfActive_triple]) auto

lemma run_silent:
  "some_run f d r d' \<Longrightarrow> (\<And>ts. preserves (inv_read ts) f) \<Longrightarrow> (\<And>K. preserves (\<lambda>d. outcome_keys d = K) f) \<Longrightarrow> quiet d d'"
  by (rule run_quiet [where us = "[]"]) auto

text \<open>Whoever runs them, and whatever fails, these announce nothing.\<close>

lemma quiet_runs:
  "some_run (txn_Create t) d r1 d' \<Longrightarrow> quiet d d'"
  "some_run (txn_UpdateSession i ref url) d r2 d' \<Longrightarrow> quiet d d'"
  "some_run (txn_UpdateRefundStatus i st) d r3 d' \<Longrightarrow> quiet d d'"
  "some_run (txn_TransitionIfActive i st ref) d r4 d' \<Longrightarrow> quiet d d'"
  "some_run (txn_TransitionIfInitiated i st ref) d r5 d' \<Longrightarrow> quiet d d'"
  "some_run (CreateSession s b a c e ch em) d r6 d' \<Longrightarrow> quiet d d'"
  "some_run (CancelSession s ref) d r7 d' \<Longrightarrow> quiet d d'"
  "some_run (mark_delivered j) d r8 d' \<Longrightarrow> quiet d d'"
  by (erule run_silent; rule keeps_keys txn_Create_inv txn_writes_inv TransitionIfActive_inv TransitionIfInitiated_inv
      gateway_inv mark_delivered_inv)+

lemma quiet_refund:
  assumes "some_run (refund_Create (refund_for i reason prefix t)) d r d'" "read_of t d"
    and "tx_Status t = StatusExpired \<and> prefix = ''late-payment:'' \<or> tx_Status t = StatusCompleted \<and> prefix = ''event-cancelled:''"
  shows "quiet d d'"
  by (rule run_quiet [OF assms(1), where us = "[t]"]) (use assms(2,3) in \<open>auto intro: refund_Create_inv keeps_keys\<close>)

lemma quiet_reads: "some_run f d r d' \<Longrightarrow> read_only f \<Longrightarrow> quiet d d'"
  using some_run_reads by fastforce

lemma find_read: "some_run (txn_FindByBookingID b) d (Inr t) d' \<Longrightarrow> read_of t d'"
  by (auto simp: some_run_def dest!: FindByBookingID_read intro: read_of_here)

lemma list_read: "some_run (txn_ListByEventID ev) d (Inr ts) d' \<Longrightarrow> t \<in> set ts \<Longrightarrow> read_of t d'"
  unfolding some_run_def txn_ListByEventID_def list_txns_def
  by (auto simp: run_inv dest!: exec_Inr(1) split: sum.splits intro: read_of_here)

text \<open>A transition that was applied found the transaction active and makes its announcement due.\<close>

lemma settle_due:
  assumes run: "some_run (txn_TransitionIfActive i st ref) d (Inr True) d'" and a: "announced_once r d" and st: "terminal st"
    and r: "\<And>k. 0 \<le> r k"
  shows "announced_once (\<lambda>k. (if k = i then 1 else 0) + r k) d' \<and> txn_status d' i = Some st"
proof -
  obtain now n where s: "stmt_settle (\<lambda>x. x \<in> set ActiveStatuses) i st ref now d = Inr (n, d')" "0 < n"
    using run by (auto simp: some_run_def txn_TransitionIfActive_def run_inv dest!: exec_Inr(1))
  have inv: "pay_inv d" using a by (simp add: announced_once_def)
  from stmt_settle_applied [OF s active_not_terminal inv] have due: "txn_status d' i = Some st" "i \<notin> set (outcome_keys d')" by auto
  obtain t where t: "t \<in> set (transactions d)" "tx_ID t = i" "tx_Status t \<in> set ActiveStatuses"
    using s(2) stmt_update_txn_frame(6) [OF s(1) [unfolded stmt_settle_def]] by (auto simp: count_where_0 simp flip: neq0_conv)
  have "txn_status d i = Some (tx_Status t)"
    using pay_schema_find [OF _ t(1,2)] inv by (simp add: txn_status_def pay_inv_def)
  with a active_not_terminal [OF t(3)] r have "r i = 0"
    unfolding announced_once_def by (metis option.inject order_le_less)
  moreover have "announced_once r d'" by (rule quiet_announced [OF quiet_runs(4) [OF run] a])
  ultimately show ?thesis using due st by (auto simp: announced_once_def)
qed

text \<open>The message pays off what is owed, or is lost with it.\<close>

lemma emit_keys:
  fixes K :: "string list" and t :: Transaction
  defines "Q \<equiv> \<lambda>d. outcome_keys d = K \<or> outcome_keys d = K @ [tx_ID t]"
  shows "hoare (\<lambda>d. outcome_keys d = K) (emit_completed t) (\<lambda>_. Q) Q"
    "hoare (\<lambda>d. outcome_keys d = K) (emit_expired reason t) (\<lambda>_. Q) Q"
  unfolding emit_completed_def emit_expired_def Q_def
  by (intro hoare_bindE [OF hoare_readClock] hoare_ignoreE [OF hoare_outbox_Insert] hoare_retE; auto simp: outcome_keys_def)+

lemma emit_pays:
  assumes run: "some_run f d r d'" and f: "f = emit_completed t \<and> st = StatusCompleted \<or> f = emit_expired reason t \<and> st = StatusExpired"
    and a: "announced_once (\<lambda>k. (if k = tx_ID t then 1 else 0) + g k) d" and g: "\<And>k. 0 \<le> g k"
    and st: "txn_status d (tx_ID t) = Some st"
  shows "announced_once g d' \<and> moves_on d d'"
proof -
  have inv: "pay_inv d" and some: "\<And>k. 0 < g k \<Longrightarrow> \<exists>x. txn_status d k = Some x \<and> terminal x"
    and few: "\<And>k. (if k = tx_ID t then 1 else 0) + g k + int (count_list (outcome_keys d) k) \<le> 1"
    using a unfolding announced_once_def by (auto simp: add_pos_pos split: if_splits)
  have none: "tx_ID t \<notin> set (outcome_keys d)"
  proof -
    have "count_list (outcome_keys d) (tx_ID t) = 0" using few [of "tx_ID t"] g [of "tx_ID t"] by simp
    then show ?thesis by (simp add: count_list_0_iff)
  qed
  have ann: "announceable (transactions d) (tx_ID t) st d" using inv none st by (simp add: announceable_def inv_read_def read_of_here)
  have "hoare (announceable (transactions d) (tx_ID t) st) f (\<lambda>_. inv_read (transactions d)) (inv_read (transactions d))"
    using f emit_triple by auto
  then have "inv_read (transactions d) d'" using ann by (rule some_run_same [OF run])
  then have after: "pay_inv d'" "moves_on d d'" by (auto simp: inv_read_def moves_on_def read_of_def)
  have "hoare (\<lambda>x. outcome_keys x = outcome_keys d) f (\<lambda>_ x. outcome_keys x = outcome_keys d \<or> outcome_keys x = outcome_keys d @ [tx_ID t])
      (\<lambda>x. outcome_keys x = outcome_keys d \<or> outcome_keys x = outcome_keys d @ [tx_ID t])"
    using f emit_keys by auto
  then have "outcome_keys d' = outcome_keys d \<or> outcome_keys d' = outcome_keys d @ [tx_ID t]"
    by (rule some_run_same [OF run]) simp
  then have "g k + int (count_list (outcome_keys d') k) \<le> 1" for k using few [of k] by (auto split: if_splits)
  moreover have "\<exists>x. txn_status d' k = Some x \<and> terminal x" if "0 < g k" for k
    using some [OF that] txn_status_terminal [OF after(2)] after(1) by (auto simp: pay_inv_def)
  ultimately show ?thesis using after by (simp add: announced_once_def)
qed

section \<open>One announcement, however the handlers interleave\<close>

text \<open>A step that owes as much as before, and one that takes on or pays off an announcement.\<close>

definition sound_move :: "(string \<Rightarrow> int) \<Rightarrow> payment_db \<Rightarrow> (string \<Rightarrow> int) \<Rightarrow> payment_db \<Rightarrow> bool" where
  "sound_move g d g' d' \<longleftrightarrow>
     (\<forall>r. (\<forall>k. 0 \<le> r k) \<longrightarrow> announced_once (\<lambda>k. g k + r k) d \<longrightarrow> announced_once (\<lambda>k. g' k + r k) d' \<and> moves_on d d')"

lemma sound_quiet: "quiet d d' \<Longrightarrow> sound_move g d g d'"
proof -
  assume q: "quiet d d'"
  have "moves_on d d'" if "announced_once h d" for h using q that by (simp add: announced_once_def quiet_def)
  with quiet_announced [OF q] show ?thesis unfolding sound_move_def by blast
qed

lemma sound_due:
  assumes "some_run (txn_TransitionIfActive (tx_ID t) st ref) d (Inr True) d'" "terminal st"
  shows "sound_move (\<lambda>_. 0) d (\<lambda>k. if k = tx_ID t then 1 else 0) d'"
  unfolding sound_move_def
proof (intro allI impI)
  fix r :: "string \<Rightarrow> int" assume r: "\<forall>k. 0 \<le> r k" and a: "announced_once (\<lambda>k. 0 + r k) d"
  then have a': "announced_once r d" by simp
  have "announced_once (\<lambda>k. (if k = tx_ID t then 1 else 0) + r k) d'"
    using settle_due [OF assms(1) a' assms(2)] r by blast
  moreover have "moves_on d d'" using quiet_runs(4) [OF assms(1)] a' by (simp add: announced_once_def quiet_def)
  ultimately show "announced_once (\<lambda>k. (if k = tx_ID t then 1 else 0) + r k) d' \<and> moves_on d d'" ..
qed

lemma owes_quiet:
  "owes (Opening b e u em a x) = (\<lambda>_. 0)" "owes (Reopening b) = (\<lambda>_. 0)" "owes (Opened r1) = (\<lambda>_. 0)" "owes (Paying b u) = (\<lambda>_. 0)"
  "owes (Checking b u t) = (\<lambda>_. 0)" "owes (Connecting b t) = (\<lambda>_. 0)" "owes (Linking t res) = (\<lambda>_. 0)" "owes (Linked t res) = (\<lambda>_. 0)"
  "owes (Withdrawing res) = (\<lambda>_. 0)" "owes (Paid r2) = (\<lambda>_. 0)" "owes (Notified p) = (\<lambda>_. 0)" "owes (Completing t) = (\<lambda>_. 0)"
  "owes (Refunding t) = (\<lambda>_. 0)" "owes (Refunded t) = (\<lambda>_. 0)" "owes (Expiring t) = (\<lambda>_. 0)" "owes (Polling lim) = (\<lambda>_. 0)"
  "owes (Sweeping ts) = (\<lambda>_. 0)" "owes (Settling t ts) = (\<lambda>_. 0)" "owes (CancelledEvent p) = (\<lambda>_. 0)" "owes (Repaying ts) = (\<lambda>_. 0)"
  "owes (Repaid t ts) = (\<lambda>_. 0)" "owes (Marking i) = (\<lambda>_. 0)" "owes (Served r) = (\<lambda>_. 0)"
  "owes (Announcing t) = (\<lambda>k. if k = tx_ID t then 1 else 0)"
  "owes (AnnouncingExpired reason t ts) = (\<lambda>k. if k = tx_ID t then 1 else 0)"
  by (simp_all add: fun_eq_iff)

lemmas quiet_queries =
  quiet_reads [OF _ read_only_txn_queries(2)] quiet_reads [OF _ read_only_txn_queries(4)] quiet_reads [OF _ read_only_txn_queries(5)]
  quiet_reads [OF _ read_only_deadline]

lemma webhook_sound:
  assumes "webhook_step t d t' d'" "pay_ok d t"
  shows "sound_move (owes t) d (owes t') d'"
  using assms
proof (induction rule: webhook_step.induct)
  case (announce t d r d')
  then show ?case using emit_pays [OF announce(1), of t StatusCompleted] by (auto simp: sound_move_def owes_quiet)
next
  case (announce_expired reason t d r d' ts)
  then show ?case using emit_pays [OF announce_expired(1), of t StatusExpired] by (auto simp: sound_move_def owes_quiet)
next
  case (refund i t d d')
  then show ?case using quiet_refund [OF refund(1)] by (simp add: owes_quiet sound_quiet)
next
  case (refund_error i t d e d')
  then show ?case using quiet_refund [OF refund_error(1)] by (simp add: owes_quiet sound_quiet)
qed (auto simp: owes_quiet intro: sound_due sound_quiet dest: quiet_queries quiet_runs)

lemma poll_sound:
  assumes "poll_step s t d t' d'" "pay_ok d t"
  shows "sound_move (owes t) d (owes t') d'"
  using assms
  by (induction rule: poll_step.induct) (auto simp: owes_quiet intro: sound_due sound_quiet dest: quiet_queries quiet_runs)

lemma repay_sound:
  assumes "repay_step t d t' d'" "pay_ok d t"
  shows "sound_move (owes t) d (owes t') d'"
  using assms
proof (induction rule: repay_step.induct)
  case (repay t i d d' ts)
  then show ?case using quiet_refund [OF repay(2)] by (simp add: owes_quiet sound_quiet)
next
  case (repay_error t i d e d' ts)
  then show ?case using quiet_refund [OF repay_error(2)] by (simp add: owes_quiet sound_quiet)
qed (auto simp: owes_quiet intro: sound_quiet dest: quiet_queries quiet_runs)

lemma initiate_sound: "initiate_step s t d t' d' \<Longrightarrow> sound_move (owes t) d (owes t') d'"
  by (induction rule: initiate_step.induct) (auto simp: owes_quiet intro: sound_quiet dest: quiet_queries quiet_runs)

lemma process_sound: "process_step s t d t' d' \<Longrightarrow> sound_move (owes t) d (owes t') d'"
  by (induction rule: process_step.induct) (auto simp: owes_quiet intro: sound_quiet dest: quiet_queries quiet_runs)

lemma pay_step_sound: "pay_step s t d t' d' \<Longrightarrow> pay_ok d t \<Longrightarrow> sound_move (owes t) d (owes t') d'"
proof (induction rule: pay_step.induct)
  case (mark i d r d')
  then show ?case using sound_quiet [OF quiet_runs(8) [OF mark(1)]] by (simp add: owes_quiet)
qed (auto intro: initiate_sound process_sound webhook_sound poll_sound repay_sound)

text \<open>What a step tells the thread still holds after it.\<close>

lemma settle_status:
  "some_run (txn_TransitionIfActive i st ref) d (Inr True) d' \<Longrightarrow> pay_inv d \<Longrightarrow> txn_status d' i = Some st"
  using some_run_hoare [OF _ TransitionIfActive_triple [of "[]"]] by (fastforce simp: announceable_def inv_read_def)

lemma webhook_ok:
  assumes "webhook_step t d t' d'" "pay_ok d t" "pay_inv d" "moves_on d d'"
  shows "pay_ok d' t'"
  using assms by (induction rule: webhook_step.induct) (auto intro: find_read settle_status moves_on_read)

lemma poll_ok:
  assumes "poll_step s t d t' d'" "pay_ok d t" "pay_inv d" "moves_on d d'"
  shows "pay_ok d' t'"
  using assms by (induction rule: poll_step.induct) (auto intro: list_read settle_status moves_on_read)

lemma repay_ok:
  assumes "repay_step t d t' d'" "pay_ok d t" "pay_inv d" "moves_on d d'"
  shows "pay_ok d' t'"
  using assms by (induction rule: repay_step.induct) (auto intro: list_read moves_on_read)

lemma pay_step_ok:
  assumes "pay_step s t d t' d'" "pay_ok d t" "pay_inv d" "moves_on d d'"
  shows "pay_ok d' t'"
  using assms(1)
proof (cases rule: pay_step.cases)
  case initiating
  then show ?thesis by (cases rule: initiate_step.cases) auto
next
  case processing
  then show ?thesis by (cases rule: process_step.cases) auto
next
  case mark
  then show ?thesis by simp
qed (use assms(2-4) webhook_ok poll_ok repay_ok in blast)+

lemma owes_nonneg: "0 \<le> owes t k"
  by (cases t) simp_all

interpretation payment_pool: interference_free "pay_step s" pay_begins pay_ok owes announced_once for s
proof unfold_locales
  fix t d t' d' and r :: "string \<Rightarrow> int"
  assume a: "pay_step s t d t' d'" "pay_ok d t" "\<And>k. 0 \<le> r k" "announced_once (\<lambda>k. owes t k + r k) d"
  have new: "announced_once (\<lambda>k. owes t' k + r k) d'" "moves_on d d'"
    using pay_step_sound [OF a(1,2)] a(3,4) by (auto simp: sound_move_def)
  moreover have "pay_ok d' t'" by (rule pay_step_ok [OF a(1,2) _ new(2)]) (use a(4) in \<open>simp add: announced_once_def\<close>)
  ultimately show "announced_once (\<lambda>k. owes t' k + r k) d' \<and> pay_ok d' t'" by blast
next
  fix t d t' d' u and r :: "string \<Rightarrow> int"
  assume a: "pay_step s t d t' d'" "pay_ok d t" "\<And>k. 0 \<le> r k" "announced_once (\<lambda>k. owes t k + r k) d" "pay_ok d u"
  have "announced_once (\<lambda>k. owes t' k + r k) d'" "moves_on d d'"
    using pay_step_sound [OF a(1,2)] a(3,4) by (auto simp: sound_move_def)
  then show "pay_ok d' u" using moved_ok a(5) by (simp add: announced_once_def)
next
  fix t d k assume "pay_begins t"
  then show "pay_ok d t" "owes t k = 0" by (cases t; simp)+
qed (auto intro: owes_nonneg announced_once_mono)

lemma count_list_distinct: "distinct xs \<Longrightarrow> count_list xs x \<le> 1"
  by (induction xs) (auto simp: count_list_0_iff)

lemma pay_inv_announced: "pay_inv d \<longleftrightarrow> announced_once (\<lambda>_. 0) d"
proof
  assume "pay_inv d"
  moreover from this have "count_list (outcome_keys d) k \<le> 1" for k
    by (intro count_list_distinct) (simp add: pay_inv_def)
  ultimately show "announced_once (\<lambda>_. 0) d" by (simp add: announced_once_def)
qed (simp add: announced_once_def)

lemma moves_on_trans: "moves_on d1 d2 \<Longrightarrow> moves_on d2 d3 \<Longrightarrow> moves_on d1 d3"
  unfolding moves_on_def by metis

text \<open>
  Property C3: however the calls, webhooks, polls and messages of the payment service are interleaved, each of
  their statements in any order and any of them failing before or after it took effect: at
  every moment a transaction is announced at most once, the announcement agrees with its
  status, and at most one refund is requested for it, of exactly its amount, for a reason that
  agrees with its status. In particular a webhook and the poller that settle the same
  transaction at the same time never announce two outcomes.
\<close>

theorem payment_interleaving_single_outcome:
  assumes "pool_runs (pay_step s) pay_begins ([], d) (ts, d')" "pay_inv d"
  shows "length (filter (\<lambda>r. outcome_of (ob_Topic r) \<noteq> None \<and> ob_Key r = i) (outbox d')) \<le> 1 \<and>
    (\<forall>r \<in> set (outbox d'). \<forall>st. outcome_of (ob_Topic r) = Some st \<longrightarrow> txn_status d' (ob_Key r) = Some st) \<and>
    length (filter (\<lambda>r. rf_TransactionID r = i) (refund_requests d')) \<le> 1 \<and>
    (\<forall>r \<in> set (refund_requests d'). refund_ok d' r)"
  using payment_pool.always [OF assms(1)] assms(2) by (intro pay_inv_single) (simp add: pay_inv_announced)

text \<open>
  Property C15: in every interleaving a transaction is never deleted, its booking and its amount never change,
  and once it is completed or expired it stays so.
\<close>

theorem payment_interleaving_final:
  assumes "pool_runs (pay_step s) pay_begins ([], d) (ts, d')" "pay_inv d" "t \<in> set (transactions d)"
  shows "\<exists>t' \<in> set (transactions d'). tx_ID t' = tx_ID t \<and> tx_BookingID t' = tx_BookingID t \<and>
    tx_AmountRupiah t' = tx_AmountRupiah t \<and>
    (tx_Status t \<in> {StatusCompleted, StatusExpired} \<longrightarrow> tx_Status t' = tx_Status t)"
proof -
  have "payment_pool.pool_inv ([], d)"
    using assms(2) by (simp add: payment_pool.pool_inv_def pay_inv_announced carried_by_def [abs_def])
  then have "moves_on (snd ([] :: pay_thread list, d)) (snd (ts, d'))"
  proof (rule payment_pool.pool_runs_moves [OF assms(1)])
    show "moves_on d1 d2"
      if "pay_step s t d1 t' d2" "pay_ok d1 t" "\<And>k. 0 \<le> r k" "announced_once (\<lambda>k. owes t k + r k) d1" for t d1 t' d2 r
      using pay_step_sound [OF that(1,2)] that(3,4) by (auto simp: sound_move_def)
  qed (auto intro: reflpI transpI moves_on_trans)
  then show ?thesis using assms(3) by (auto simp: moves_on_def terminal_def)
qed

section \<open>The threads are the code\<close>

text \<open>
  A handler that has the database to itself is one run of its thread, whatever statements fail.
\<close>

lemmas pay_rules [intro] =
  initiate_step.intros [THEN pay_step.initiating] process_step.intros [THEN pay_step.processing]
  webhook_step.intros [THEN pay_step.notifying] poll_step.intros [THEN pay_step.polling]
  repay_step.intros [THEN pay_step.repaying] pay_step.mark

lemma Initiate_thread: "follows (pay_step s) (Opening b e u em a x) (InitiateTxnForBooking s b e u em a x) Opened"
  unfolding InitiateTxnForBooking_def Let_def
proof (intro follows_local follows_handleE)
  fix i err
  let ?t = "new_txn s i b e u em a x"
  let ?h = "if err = PayErr UniqueViolation then txn_FindByBookingID b else failE err"
  show "\<exists>t1. (\<forall>d d'. some_run (txn_Create ?t) d (Inl err) d' \<longrightarrow> pay_step s (Opening b e u em a x) d t1 d') \<and>
      follows (pay_step s) t1 ?h Opened"
  proof (cases "err = PayErr UniqueViolation")
    case True
    then show ?thesis by (intro exI [of _ "Reopening b"]) (auto intro: follows_last)
  next
    case False
    then show ?thesis by (intro exI [of _ "Opened (Inl err)"]) (auto intro: follow)
  qed
next
  fix i and y :: unit
  let ?t = "new_txn s i b e u em a x"
  show "\<exists>t1. (\<forall>d d'. some_run (txn_Create ?t) d (Inr y) d' \<longrightarrow> pay_step s (Opening b e u em a x) d t1 d') \<and>
      follows (pay_step s) t1 (retE ?t) Opened"
    by (intro exI [of _ "Opened (Inr ?t)"]) (auto intro: follow)
qed

lemma emit_sure: "fst (emit_completed t w) = Inr ()" "fst (emit_expired reason t w) = Inr ()"
  by (simp_all add: emit_completed_def emit_expired_def op_defs)

lemma Sweeping_done: "follows (pay_step s) (Sweeping []) (retE ()) Served" "follows (pay_step s) (Repaying []) (retE ()) Served"
  by (auto intro: follows_step [OF _ follows_done(1)])

lemma emit_expired_thread: "follows (pay_step s) (AnnouncingExpired reason t []) (emit_expired reason t) Served"
  by (rule follows_sure [OF _ emit_sure(2) Sweeping_done(1)]) auto

lemma webhook_expired_thread: "follows (pay_step s) (Expiring t) (webhook_expired t) Served"
  unfolding webhook_expired_def
proof (rule follows_bindE)
  fix applied :: bool
  show "\<exists>t1. (\<forall>d d'. some_run (txn_TransitionIfActive (tx_ID t) StatusExpired (tx_ProviderRef t)) d (Inr applied) d' \<longrightarrow>
        pay_step s (Expiring t) d t1 d') \<and>
      follows (pay_step s) t1 (if applied then emit_expired GatewayExpiredReason t else retE ()) Served"
    by (intro exI [of _ "if applied then AnnouncingExpired GatewayExpiredReason t [] else Served (Inr ())"])
      (auto intro: follow emit_expired_thread)
qed auto

lemma late_refund_thread: "follows (pay_step s) (Refunding t) (requestLatePaymentRefund t) Served"
  unfolding requestLatePaymentRefund_def
proof (intro follows_local follows_handleE)
  fix i and y :: unit
  let ?f = "refund_Create (refund_for i ''late_payment'' ''late-payment:'' t)"
  show "\<exists>t1. (\<forall>d d'. some_run ?f d (Inl e) d' \<longrightarrow> pay_step s (Refunding t) d t1 d') \<and> follows (pay_step s) t1 (retE ()) Served" for e
    by (intro exI [of _ "Served (Inr ())"]) (auto intro: follow)
  show "\<exists>t1. (\<forall>d d'. some_run ?f d (Inr y) d' \<longrightarrow> pay_step s (Refunding t) d t1 d') \<and>
      follows (pay_step s) t1 (ignoreE (txn_UpdateRefundStatus (tx_ID t) ''pending'') (retE ())) Served"
    by (intro exI [of _ "Refunded t"]) (auto intro: follows_ignoreE [where ?t1.0 = "Served (Inr ())"] follow)
qed

lemma webhook_completed_thread: "follows (pay_step s) (Completing t) (webhook_completed t) Served"
  unfolding webhook_completed_def
proof (rule follows_bindE)
  fix applied :: bool
  have "follows (pay_step s) (Announcing t) (emit_completed t) Served"
    by (rule follows_sure [OF _ emit_sure(1) follows_done(1)]) auto
  then show "\<exists>t1. (\<forall>d d'. some_run (txn_TransitionIfActive (tx_ID t) StatusCompleted (tx_ProviderRef t)) d (Inr applied) d' \<longrightarrow>
        pay_step s (Completing t) d t1 d') \<and>
      follows (pay_step s) t1 (if applied then emit_completed t else if tx_Status t = StatusExpired then requestLatePaymentRefund t else retE ()) Served"
    by (intro exI [of _ "if applied then Announcing t else if tx_Status t = StatusExpired then Refunding t else Served (Inr ())"])
      (auto intro: follow late_refund_thread)
qed auto

lemma HandleSessionWebhook_thread: "follows (pay_step s) (Notified p) (HandleSessionWebhook p) Served"
proof (cases "Option.bind p unmarshal_webhook")
  case None
  have "follows (pay_step s) (Notified p) (failE ErrInvalidPayload) Served"
    by (rule follows_step [OF _ follows_done(2)]) (use None in auto)
  with None show ?thesis by (simp add: HandleSessionWebhook_def)
next
  case (Some ev)
  let ?k = "\<lambda>t. if sessionID ev \<noteq> '''' \<and> sessionID ev \<noteq> tx_ProviderRef t then retE ()
      else if wh_Event ev = ''payment_session.completed'' then webhook_completed t
      else if wh_Event ev = ''payment_session.expired'' then webhook_expired t else retE ()"
  have none: "follows (pay_step s) (Notified p) (failE ErrMissingReference) Served" if "wh_ReferenceID ev = ''''"
    by (rule follows_step [OF _ follows_done(2)]) (use Some that in auto)
  have some: "follows (pay_step s) (Notified p) (bindE (txn_FindByBookingID (wh_ReferenceID ev)) ?k) Served" if "wh_ReferenceID ev \<noteq> ''''"
  proof (rule follows_bindE)
    fix t :: Transaction
    consider (skip) "sessionID ev \<noteq> '''' \<and> sessionID ev \<noteq> tx_ProviderRef t \<or>
          wh_Event ev \<noteq> ''payment_session.completed'' \<and> wh_Event ev \<noteq> ''payment_session.expired''"
      | (paid) "sessionID ev = '''' \<or> sessionID ev = tx_ProviderRef t" "wh_Event ev = ''payment_session.completed''"
      | (late) "sessionID ev = '''' \<or> sessionID ev = tx_ProviderRef t" "wh_Event ev = ''payment_session.expired''" by blast
    then show "\<exists>t1. (\<forall>d d'. some_run (txn_FindByBookingID (wh_ReferenceID ev)) d (Inr t) d' \<longrightarrow> pay_step s (Notified p) d t1 d') \<and>
        follows (pay_step s) t1 (?k t) Served"
    proof cases
      case skip
      then have "?k t = retE ()" by auto
      then show ?thesis using Some that skip by (intro exI [of _ "Served (Inr ())"]) (auto intro: follow)
    next
      case paid
      then have "?k t = webhook_completed t" by auto
      then show ?thesis using Some that paid by (intro exI [of _ "Completing t"]) (auto intro: webhook_completed_thread)
    next
      case late
      then have "?k t = webhook_expired t" by auto
      then show ?thesis using Some that late by (intro exI [of _ "Expiring t"]) (auto intro: webhook_expired_thread)
    qed
  qed (use Some that in auto)
  show ?thesis unfolding HandleSessionWebhook_def Some option.case by (rule follows_if) (use none some in auto)
qed

text \<open>The loops of the poller and of a cancelled event.\<close>

lemma expire_each_thread: "follows (pay_step s) (Sweeping ts) (expire_each s ts) Served"
proof (induction ts)
  case Nil
  show ?case unfolding expire_each.simps by (rule Sweeping_done)
next
  case (Cons t ts)
  let ?settle = "handleE (txn_TransitionIfActive (tx_ID t) StatusExpired (tx_ProviderRef t)) (\<lambda>_. retE ())
      (\<lambda>applied. if \<not> applied then retE () else emit_expired ''internal_expiry_fallback'' t)"
  let ?next = "\<lambda>r :: payment_error + unit. case r of Inl e \<Rightarrow> Served (Inl e) | Inr _ \<Rightarrow> Sweeping ts"
  have emit: "follows (pay_step s) (AnnouncingExpired reason t ts) (emit_expired reason t) ?next" for reason
    by (rule follows_sure [OF _ emit_sure(2)]) (use follows_done(1) [where fin = ?next] in auto)
  have settle: "follows (pay_step s) (Settling t ts) ?settle ?next"
  proof (rule follows_handleE)
    fix e show "\<exists>t1. (\<forall>d d'. some_run (txn_TransitionIfActive (tx_ID t) StatusExpired (tx_ProviderRef t)) d (Inl e) d' \<longrightarrow>
        pay_step s (Settling t ts) d t1 d') \<and> follows (pay_step s) t1 (retE ()) ?next"
      using follows_done(1) [where fin = ?next and a = "()"] by (intro exI [of _ "Sweeping ts"]) auto
  next
    fix applied show "\<exists>t1. (\<forall>d d'. some_run (txn_TransitionIfActive (tx_ID t) StatusExpired (tx_ProviderRef t)) d (Inr applied) d' \<longrightarrow>
        pay_step s (Settling t ts) d t1 d') \<and> follows (pay_step s) t1 (if \<not> applied then retE () else emit_expired ''internal_expiry_fallback'' t) ?next"
      using follows_done(1) [where fin = ?next and a = "()"] emit
      by (intro exI [of _ "if applied then AnnouncingExpired ''internal_expiry_fallback'' t ts else Sweeping ts"]) auto
  qed
  have "follows (pay_step s) (Sweeping (t # ts)) (expire_one s t) ?next"
    unfolding expire_one_def Let_def
  proof (rule follows_if)
    assume "tx_ProviderRef t \<noteq> ''''"
    then show "follows (pay_step s) (Sweeping (t # ts)) (ignoreE (CancelSession s (tx_ProviderRef t)) ?settle) ?next"
      by (intro follows_ignoreE [OF _ settle]) auto
  next
    assume "\<not> tx_ProviderRef t \<noteq> ''''"
    then show "follows (pay_step s) (Sweeping (t # ts)) ?settle ?next"
      by (intro follows_step [OF _ settle]) blast
  qed
  then show ?case unfolding expire_each.simps by (rule follows_then) (use Cons.IH in auto)
qed

lemma ProcessExpired_thread: "follows (pay_step s) (Polling lim) (ProcessExpired s lim) Served"
  unfolding ProcessExpired_def
proof (intro follows_local follows_bindE)
  show "\<exists>t1. (\<forall>d d'. some_run (txn_ListActiveExpired now lim) d (Inr ts) d' \<longrightarrow> pay_step s (Polling lim) d t1 d') \<and>
      follows (pay_step s) t1 (expire_each s ts) Served" for now ts
    by (intro exI [of _ "Sweeping ts"]) (auto intro: expire_each_thread)
qed auto

lemma refund_each_thread: "follows (pay_step s) (Repaying ts) (refund_each ts) Served"
proof (induction ts)
  case Nil
  show ?case unfolding refund_each.simps by (rule Sweeping_done)
next
  case (Cons t ts)
  let ?next = "\<lambda>r :: payment_error + unit. case r of Inl e \<Rightarrow> Served (Inl e) | Inr _ \<Rightarrow> Repaying ts"
  have "follows (pay_step s) (Repaying (t # ts)) (refund_cancelled t) ?next"
    unfolding refund_cancelled_def
  proof (intro follows_if follows_local follows_bindE)
    fix i and y :: unit
    assume st: "tx_Status t = StatusCompleted"
    let ?f = "refund_Create (refund_for i ''event_cancelled'' ''event-cancelled:'' t)"
    show "pay_step s (Repaying (t # ts)) d (?next (Inl e)) d'" if "some_run ?f d (Inl e) d'" for e d d'
      using st that by auto
    have "follows (pay_step s) (Repaid t ts) (txn_UpdateRefundStatus (tx_ID t) ''pending'') ?next"
    proof (rule follows_last)
      show "pay_step s (Repaid t ts) d (?next r) d'" if "some_run (txn_UpdateRefundStatus (tx_ID t) ''pending'') d r d'" for r d d'
        using that by (cases r) auto
    qed
    then show "\<exists>t1. (\<forall>d d'. some_run ?f d (Inr y) d' \<longrightarrow> pay_step s (Repaying (t # ts)) d t1 d') \<and>
        follows (pay_step s) t1 (txn_UpdateRefundStatus (tx_ID t) ''pending'') ?next"
      using st by (intro exI [of _ "Repaid t ts"]) auto
  next
    assume "tx_Status t \<noteq> StatusCompleted"
    then show "follows (pay_step s) (Repaying (t # ts)) (retE ()) ?next"
      by (intro follows_step [OF _ follows_done(1) [where fin = ?next]]) auto
  qed
  then show ?case unfolding refund_each.simps by (rule follows_then) (use Cons.IH in auto)
qed

lemma on_event_cancelled_thread: "follows (pay_step s) (CancelledEvent p) (on_event_cancelled p) Served"
proof (cases "Option.bind p unmarshal_EventCancelled")
  case None
  have "follows (pay_step s) (CancelledEvent p) (failE ErrInvalidPayload) Served"
    by (rule follows_step [OF _ follows_done(2)]) (use None in auto)
  with None show ?thesis by (simp add: on_event_cancelled_def)
next
  case (Some ev)
  have "follows (pay_step s) (CancelledEvent p) (bindE (txn_ListByEventID (ec_EventID ev)) refund_each) Served"
  proof (rule follows_bindE)
    show "\<exists>t1. (\<forall>d d'. some_run (txn_ListByEventID (ec_EventID ev)) d (Inr ts) d' \<longrightarrow> pay_step s (CancelledEvent p) d t1 d') \<and>
        follows (pay_step s) t1 (refund_each ts) Served" for ts
      using Some by (intro exI [of _ "Repaying ts"]) (auto intro: refund_each_thread)
  qed (use Some in auto)
  with Some show ?thesis by (simp add: on_event_cancelled_def HandleEventCancelled_def)
qed

text \<open>The payment of one booking, from its last statements to the first.\<close>

lemma deadline_never_fails: "\<not> some_run (deadline_passed x) d (Inl e) d'"
  by (auto simp: some_run_def deadline_passed_def run_inv split: option.splits if_splits)

definition link_session :: "PaymentService \<Rightarrow> Transaction \<Rightarrow> SessionResult \<Rightarrow> (Transaction \<times> SessionResult) payment_op" where
  "link_session s txn result =
     bindE (txn_TransitionIfInitiated (tx_ID txn) StatusPending (sr_ProviderRef result)) (\<lambda>applied.
     if \<not> applied then ignoreE (CancelSession s (sr_ProviderRef result)) (failE ErrAlreadyProcessed)
     else bindE (txn_UpdateSession (tx_ID txn) (sr_ProviderRef result) (sr_PaymentLinkURL result)) (\<lambda>_.
          retE (txn, result)))"

definition open_session :: "PaymentService \<Rightarrow> string \<Rightarrow> Transaction \<Rightarrow> (Transaction \<times> SessionResult) payment_op" where
  "open_session s bookingID txn =
     bindE readClock (\<lambda>now.
     handleE (CreateSession s bookingID (tx_AmountRupiah txn) (tx_Currency txn) (session_deadline s txn now)
                (allowedChannels s) (tx_CustomerEmail txn))
       (\<lambda>err. failE (ErrGatewayUnavailable err)) (link_session s txn))"

lemma ProcessPayment_parts:
  "ProcessPayment s b u =
     handleE (txn_FindByBookingID b) (\<lambda>_. failE ErrTransactionNotFound) (\<lambda>txn.
     if tx_Status txn \<noteq> StatusInitiated then failE ErrAlreadyProcessed
     else bindE (deadline_passed (tx_ExpiresAt txn)) (\<lambda>late.
     if late then failE ErrTransactionExpired
     else if tx_UserID txn \<noteq> u then failE ErrTransactionNotFound
     else open_session s b txn))"
  unfolding ProcessPayment_def open_session_def link_session_def [abs_def] session_deadline_def Let_def by (rule refl)

lemma link_thread: "follows (pay_step s) (Linking t res) (link_session s t res) Paid"
  unfolding link_session_def
proof (rule follows_bindE)
  fix applied :: bool
  have no: "follows (pay_step s) (Withdrawing res) (ignoreE (CancelSession s (sr_ProviderRef res)) (failE ErrAlreadyProcessed)) Paid"
    by (rule follows_ignoreE [OF _ follows_done(2)]) auto
  have yes: "follows (pay_step s) (Linked t res)
      (bindE (txn_UpdateSession (tx_ID t) (sr_ProviderRef res) (sr_PaymentLinkURL res)) (\<lambda>_. retE (t, res))) Paid"
  proof (rule follows_bindE)
    show "\<exists>t1. (\<forall>d d'. some_run (txn_UpdateSession (tx_ID t) (sr_ProviderRef res) (sr_PaymentLinkURL res)) d (Inr y) d' \<longrightarrow>
        pay_step s (Linked t res) d t1 d') \<and> follows (pay_step s) t1 (retE (t, res)) Paid" for y
      by (intro exI [of _ "Paid (Inr (t, res))"]) (auto intro: follow)
  qed auto
  show "\<exists>t1. (\<forall>d d'. some_run (txn_TransitionIfInitiated (tx_ID t) StatusPending (sr_ProviderRef res)) d (Inr applied) d' \<longrightarrow>
        pay_step s (Linking t res) d t1 d') \<and>
      follows (pay_step s) t1 (if \<not> applied then ignoreE (CancelSession s (sr_ProviderRef res)) (failE ErrAlreadyProcessed)
        else bindE (txn_UpdateSession (tx_ID t) (sr_ProviderRef res) (sr_PaymentLinkURL res)) (\<lambda>_. retE (t, res))) Paid"
    using yes no by (intro exI [of _ "if applied then Linked t res else Withdrawing res"]) auto
qed auto

lemma open_thread: "follows (pay_step s) (Connecting b t) (open_session s b t) Paid"
  unfolding open_session_def
proof (intro follows_local follows_handleE)
  fix now err res
  let ?f = "CreateSession s b (tx_AmountRupiah t) (tx_Currency t) (session_deadline s t now) (allowedChannels s) (tx_CustomerEmail t)"
  show "\<exists>t1. (\<forall>d d'. some_run ?f d (Inl err) d' \<longrightarrow> pay_step s (Connecting b t) d t1 d') \<and>
      follows (pay_step s) t1 (failE (ErrGatewayUnavailable err)) Paid"
    by (intro exI [of _ "Paid (Inl (ErrGatewayUnavailable err))"]) (auto intro: follow)
  show "\<exists>t1. (\<forall>d d'. some_run ?f d (Inr res) d' \<longrightarrow> pay_step s (Connecting b t) d t1 d') \<and>
      follows (pay_step s) t1 (link_session s t res) Paid"
    by (intro exI [of _ "Linking t res"]) (auto intro: link_thread)
qed

lemma check_thread:
  "follows (pay_step s) (Checking b u t) (bindE (deadline_passed (tx_ExpiresAt t)) (\<lambda>late.
     if late then failE ErrTransactionExpired
     else if tx_UserID t \<noteq> u then failE ErrTransactionNotFound
     else open_session s b t)) Paid"
proof (rule follows_bindE)
  fix late :: bool
  show "\<exists>t1. (\<forall>d d'. some_run (deadline_passed (tx_ExpiresAt t)) d (Inr late) d' \<longrightarrow> pay_step s (Checking b u t) d t1 d') \<and>
      follows (pay_step s) t1 (if late then failE ErrTransactionExpired
        else if tx_UserID t \<noteq> u then failE ErrTransactionNotFound else open_session s b t) Paid"
    by (intro exI [of _ "if late then Paid (Inl ErrTransactionExpired)
          else if tx_UserID t \<noteq> u then Paid (Inl ErrTransactionNotFound) else Connecting b t"])
      (auto intro: follow open_thread)
qed (simp add: deadline_never_fails)

lemma ProcessPayment_thread: "follows (pay_step s) (Paying b u) (ProcessPayment s b u) Paid"
  unfolding ProcessPayment_parts
proof (rule follows_handleE)
  show "\<exists>t1. (\<forall>d d'. some_run (txn_FindByBookingID b) d (Inl e) d' \<longrightarrow> pay_step s (Paying b u) d t1 d') \<and>
      follows (pay_step s) t1 (failE ErrTransactionNotFound) Paid" for e
    by (intro exI [of _ "Paid (Inl ErrTransactionNotFound)"]) (auto intro: follow)
next
  fix t
  show "\<exists>t1. (\<forall>d d'. some_run (txn_FindByBookingID b) d (Inr t) d' \<longrightarrow> pay_step s (Paying b u) d t1 d') \<and>
      follows (pay_step s) t1 (if tx_Status t \<noteq> StatusInitiated then failE ErrAlreadyProcessed
        else bindE (deadline_passed (tx_ExpiresAt t)) (\<lambda>late. if late then failE ErrTransactionExpired
          else if tx_UserID t \<noteq> u then failE ErrTransactionNotFound else open_session s b t)) Paid"
  proof (cases "tx_Status t = StatusInitiated")
    case True
    with check_thread show ?thesis by (intro exI [of _ "Checking b u t"]) auto
  next
    case False
    then show ?thesis by (intro exI [of _ "Paid (Inl ErrAlreadyProcessed)"]) (auto intro: follow)
  qed
qed

text \<open>
  Property C4: the threads are the code: whatever \<^verbatim>\<open>InitiateTxnForBooking\<close>, \<^verbatim>\<open>ProcessPayment\<close>,
  \<^verbatim>\<open>HandleSessionWebhook\<close>, \<^verbatim>\<open>ProcessExpired\<close> and the consumer of \<^verbatim>\<open>event.cancelled\<close> answer and leave when
  they have the database to themselves, with any statements failing before or after they took
  effect, their thread reaches the same answer and the same database in its own steps.
\<close>

theorem payment_operations_are_threads:
  "(InitiateTxnForBooking s b e u em a x w = (r1, w') \<longrightarrow>
      alone (pay_step s) (Opening b e u em a x, db w) (Opened r1, db w')) \<and>
    (ProcessPayment s b u w = (r2, w') \<longrightarrow> alone (pay_step s) (Paying b u, db w) (Paid r2, db w')) \<and>
    (HandleSessionWebhook p w = (r3, w') \<longrightarrow> alone (pay_step s) (Notified p, db w) (Served r3, db w')) \<and>
    (ProcessExpired s lim w = (r3, w') \<longrightarrow> alone (pay_step s) (Polling lim, db w) (Served r3, db w')) \<and>
    (on_event_cancelled p w = (r3, w') \<longrightarrow> alone (pay_step s) (CancelledEvent p, db w) (Served r3, db w'))"
  by (intro conjI impI)
    (rule followsD [OF Initiate_thread] followsD [OF ProcessPayment_thread] followsD [OF HandleSessionWebhook_thread]
      followsD [OF ProcessExpired_thread] followsD [OF on_event_cancelled_thread], assumption)+

end
