(* ===== verification/Payment_Race_Samples.thy ===== *)
theory Payment_Race_Samples
  imports Payment_Samples Payment_Interleaving
begin

text \<open>
  A webhook and the expiry poller that meet on one transaction: both have read it as pending, the
  poller has cancelled its session when the webhook completes it, and both go on with what they
  read before.
\<close>

lemma some_run_of: "some_run f (db w) (fst (f w)) (db (snd (f w)))"
  by (rule some_runI) simp

definition raced :: Transaction where
  "raced = sample_txn ''1'' ''b1'' StatusPending"

definition race_start :: "payment_db world" where
  "race_start = pay_world (20 * Minute)"

definition race_cancelled :: "payment_db world" where
  "race_cancelled = snd (CancelSession sample_service (tx_ProviderRef raced) race_start)"

definition race_completed :: "payment_db world" where
  "race_completed = snd (txn_TransitionIfActive (tx_ID raced) StatusCompleted (tx_ProviderRef raced) race_cancelled)"

definition race_lost :: "payment_db world" where
  "race_lost = snd (txn_TransitionIfActive (tx_ID raced) StatusExpired (tx_ProviderRef raced) race_completed)"

definition race_announced :: "payment_db world" where
  "race_announced = snd (emit_completed raced race_lost)"

lemma race_db [simp]: "db race_start = pay_db"
  by (simp add: race_start_def)

lemma raced_sel [simp]: "tx_ID raced = ''1''" "tx_ProviderRef raced = ''s1''"
  by (simp_all add: raced_def sample_txn_def)

lemma race_answers:
  "fst (txn_FindByBookingID ''b1'' race_start) = Inr raced"
  "fst (txn_ListActiveExpired (20 * Minute) 1 race_start) = Inr [raced]"
  "fst (txn_TransitionIfActive (tx_ID raced) StatusCompleted (tx_ProviderRef raced) race_cancelled) = Inr True"
  "fst (txn_TransitionIfActive (tx_ID raced) StatusExpired (tx_ProviderRef raced) race_completed) = Inr False"
  "txn_status (db race_announced) ''1'' = Some StatusCompleted" "map ob_Topic (outbox (db race_announced)) = [''payment.completed'']"
  by code_simp+

lemma race_reads:
  "some_run (txn_FindByBookingID ''b1'') pay_db (Inr raced) pay_db"
  "some_run (txn_ListActiveExpired (20 * Minute) 1) pay_db (Inr [raced]) pay_db"
proof -
  have "db (snd (txn_FindByBookingID ''b1'' race_start)) = pay_db" "db (snd (txn_ListActiveExpired (20 * Minute) 1 race_start)) = pay_db"
    using read_onlyD [OF read_only_txn_queries(2) surjective_pairing] read_onlyD [OF read_only_txn_queries(5) surjective_pairing] by auto
  with some_run_of [of "txn_FindByBookingID ''b1''" race_start] some_run_of [of "txn_ListActiveExpired (20 * Minute) 1" race_start] race_answers(1,2)
  show "some_run (txn_FindByBookingID ''b1'') pay_db (Inr raced) pay_db"
    "some_run (txn_ListActiveExpired (20 * Minute) 1) pay_db (Inr [raced]) pay_db" by simp_all
qed

lemma race_writes:
  "\<exists>r. some_run (CancelSession sample_service (tx_ProviderRef raced)) pay_db r (db race_cancelled)"
  "some_run (txn_TransitionIfActive (tx_ID raced) StatusCompleted (tx_ProviderRef raced)) (db race_cancelled) (Inr True) (db race_completed)"
  "some_run (txn_TransitionIfActive (tx_ID raced) StatusExpired (tx_ProviderRef raced)) (db race_completed) (Inr False) (db race_lost)"
  "\<exists>r. some_run (emit_completed raced) (db race_lost) r (db race_announced)"
  using some_run_of [of "CancelSession sample_service (tx_ProviderRef raced)" race_start]
    some_run_of [of "txn_TransitionIfActive (tx_ID raced) StatusCompleted (tx_ProviderRef raced)" race_cancelled]
    some_run_of [of "txn_TransitionIfActive (tx_ID raced) StatusExpired (tx_ProviderRef raced)" race_completed]
    some_run_of [of "emit_completed raced" race_lost] race_answers(3,4)
  by (auto simp: race_cancelled_def [symmetric] race_completed_def [symmetric] race_lost_def [symmetric] race_announced_def [symmetric]
      simp del: raced_sel)

text \<open>The steps of the two threads, and the order in which they happen.\<close>

lemma race_steps:
  "pay_step sample_service (Notified (sample_hook ''payment_session.completed'' ''b1'')) pay_db (Completing raced) pay_db"
  "pay_step sample_service (Polling 1) pay_db (Sweeping [raced]) pay_db"
  "pay_step sample_service (Sweeping [raced]) pay_db (Settling raced []) (db race_cancelled)"
  "pay_step sample_service (Completing raced) (db race_cancelled) (Announcing raced) (db race_completed)"
  "pay_step sample_service (Settling raced []) (db race_completed) (Sweeping []) (db race_lost)"
  "pay_step sample_service (Announcing raced) (db race_lost) (Served (Inr ())) (db race_announced)"
proof -
  show "pay_step sample_service (Notified (sample_hook ''payment_session.completed'' ''b1'')) pay_db (Completing raced) pay_db"
    by (rule webhook_step.hook_completed [OF sample_hook_decode, THEN pay_step.notifying]) (use race_reads in simp_all)
  show "pay_step sample_service (Sweeping [raced]) pay_db (Settling raced []) (db race_cancelled)"
    using race_writes(1) raced_sel(2) by (auto simp del: raced_sel)
qed (use race_reads race_writes in \<open>auto simp del: raced_sel\<close>)

lemma pool_one: "step (ts ! k) d t d' \<Longrightarrow> k < length ts \<Longrightarrow> ts' = ts[k := t] \<Longrightarrow> pool_runs step begins (ts, d) (ts', d')"
  by (auto intro: run_thread)

lemma race_run: "pool_runs (pay_step sample_service) pay_begins ([], pay_db) ([Served (Inr ()), Sweeping []], db race_announced)"
proof -
  let ?runs = "pool_runs (pay_step sample_service) pay_begins"
  have r1: "?runs ([], pay_db) ([] @ [Completing raced], pay_db)"
    by (rule alone_begins [OF _ r_into_rtranclp]) (use race_steps(1) in auto)
  have r2: "?runs ([Completing raced], pay_db) ([Completing raced] @ [Settling raced []], db race_cancelled)"
  proof (rule alone_begins)
    show "alone (pay_step sample_service) (Polling 1, pay_db) (Settling raced [], db race_cancelled)"
      by (rule alone_step [where step = "pay_step sample_service", OF race_steps(2)]) (use race_steps(3) in auto)
  qed simp
  have r3: "?runs ([Completing raced, Settling raced []], db race_cancelled) ([Announcing raced, Settling raced []], db race_completed)"
    by (rule pool_one [of _ _ 0]) (use race_steps(4) in simp_all)
  have r4: "?runs ([Announcing raced, Settling raced []], db race_completed) ([Announcing raced, Sweeping []], db race_lost)"
    by (rule pool_one [of _ _ 1]) (use race_steps(5) in simp_all)
  have r5: "?runs ([Announcing raced, Sweeping []], db race_lost) ([Served (Inr ()), Sweeping []], db race_announced)"
    by (rule pool_one [of _ _ 0]) (use race_steps(6) in simp_all)
  show ?thesis
    by (rule rtranclp_trans [OF r1 [unfolded append_Nil] rtranclp_trans [OF r2 [unfolded append_Cons append_Nil]
          rtranclp_trans [OF r3 rtranclp_trans [OF r4 r5]]]])
qed

theorem payment_interleaving_witness:
  "length (filter (\<lambda>r. outcome_of (ob_Topic r) \<noteq> None \<and> ob_Key r = ''1'') (outbox (db race_announced))) \<le> 1 \<and>
   map ob_Topic (outbox (db race_announced)) = [''payment.completed''] \<and> txn_status (db race_announced) ''1'' = Some StatusCompleted"
  using payment_interleaving_single_outcome [OF race_run pay_db_inv, of "''1''"] race_answers(5,6) by blast

theorem payment_interleaving_final_witness:
  "\<exists>t' \<in> set (transactions (db race_announced)). tx_ID t' = ''4'' \<and> tx_Status t' = StatusCompleted"
  using payment_interleaving_final [OF race_run pay_db_inv, of "sample_txn ''4'' ''b4'' StatusCompleted"] by auto

theorem payment_threads_witness:
  "alone (pay_step sample_service) (Polling 1, pay_db)
     (Served (fst (ProcessExpired sample_service 1 race_start)), db (snd (ProcessExpired sample_service 1 race_start)))"
  using payment_operations_are_threads [of sample_service _ _ _ _ _ _ race_start _ "snd (ProcessExpired sample_service 1 race_start)" _ _ _ 1] by simp

end
