(* ===== verification/Startup_Samples.thy ===== *)
theory Startup_Samples
  imports Startup Auth_Samples Ticketing_Http_Samples
begin

text \<open>The three services started on a healthy machine with small configurations.\<close>

definition sample_pgx :: pgx where
  "sample_pgx = \<lparr>px_ParseConfig = (\<lambda>_. None), px_NewWithConfig = (\<lambda>_. None), px_Ping = (\<lambda>_. None)\<rparr>"

definition sample_sdk :: otel_sdk where
  "sample_sdk = \<lparr>sdk_endpoint = [], sdk_traceExporter = None, sdk_metricExporter = None, sdk_counter = None, sdk_gauge = None\<rparr>"

definition sample_tenv :: ticketing_env where
  "sample_tenv = \<lparr>tcfg_ReservationTTL = 900, tcfg_PaymentServiceURL = ''http://pay'', tcfg_PaymentTimeoutSec = 5, tcfg_InternalAPIKey = ''k'',
     te_AppEnv = ''dev'', te_Port = ''8080'', te_DatabaseURL = ''db'', te_KafkaBrokers = ''a:9092,b:9092'', te_ConsumerConcurrency = 0,
     te_OutboxConcurrency = 2, te_OutboxPollMs = 0\<rparr>"

definition sample_penv :: payment_env where
  "sample_penv = \<lparr>cfg_Provider = ''mock'', cfg_XenditAPIKey = [], cfg_XenditBaseURL = ''x'', cfg_GatewayExpiryBufferMin = 2, cfg_ExpiryPollSec = 30,
     cfg_PaymentMethods = [], pe_AppEnv = ''dev'', pe_Port = ''8081'', pe_DatabaseURL = ''db'', pe_KafkaBrokers = ''a:9092'', pe_ConsumerConcurrency = 4,
     pe_OutboxConcurrency = 2, pe_OutboxPollMs = 100, pe_WebhookCallbackTok = ''cb'', pe_InternalAPIKey = ''k''\<rparr>"

lemma sample_boot: "telemetry_Init sample_sdk p = ((FlushNothing, None, None), p\<lparr>pv_propagator := True\<rparr>)" "\<exists>pool. NewPool sample_pgx dsn = Inr pool"
  by (simp_all add: telemetry_Init_def sample_sdk_def tracesEnabled_def NewPool_def sample_pgx_def)

lemma sample_topics:
  "\<exists>s1. ticketing_EnsureTopics sample_admin (addr # bs) s = (Inr (), s1)" "\<exists>s1. payment_EnsureTopics sample_admin (addr # bs) s = (Inr (), s1)"
proof -
  have "fst (EnsureTopics sample_admin (addr # bs) ts 4 3 s) = Inr ()" for ts
    using sample_creates [of ts 4 _ s] by (simp add: EnsureTopics_def) (simp add: sample_admin_def)
  then show "\<exists>s1. ticketing_EnsureTopics sample_admin (addr # bs) s = (Inr (), s1)" "\<exists>s1. payment_EnsureTopics sample_admin (addr # bs) s = (Inr (), s1)"
    unfolding ticketing_EnsureTopics_def payment_EnsureTopics_def by (metis prod.collapse)+
qed

lemma sample_ticketing_start: "\<exists>p s1. ticketing_main (Inr sample_tenv) sample_sdk sample_pgx sample_admin v dial s = (Inr p, s1)"
proof -
  obtain pool where pool: "NewPool sample_pgx ''db'' = Inr pool" using sample_boot(2) by blast
  obtain s1 where s1: "ticketing_EnsureTopics sample_admin [''a:9092'', ''b:9092''] s = (Inr (), s1)" using sample_topics(1) by blast
  have "split_on (CHR '','') ''a:9092,b:9092'' = [''a:9092'', ''b:9092'']" by simp
  with pool s1 show ?thesis
    by (simp add: ticketing_main_def sample_tenv_def ticketing_Validate_def ticketing_config.truncate_def sample_boot(1) Let_def)
qed

lemma sample_payment_start: "\<exists>q s1. payment_main (Inr sample_penv) sample_sdk sample_pgx sample_admin net s = (Inr q, s1)"
proof -
  obtain pool where pool: "NewPool sample_pgx ''db'' = Inr pool" using sample_boot(2) by blast
  obtain s1 where s1: "payment_EnsureTopics sample_admin [''a:9092''] s = (Inr (), s1)" using sample_topics(2) by blast
  have "split_on (CHR '','') ''a:9092'' = [''a:9092'']" by simp
  with pool s1 show ?thesis
    by (simp add: payment_main_def sample_penv_def payment_Validate_def payment_config.truncate_def sample_boot(1) Let_def)
qed


text \<open>Two seeds, one of them for the address of a customer.\<close>

definition sample_aenv :: auth_env where
  "sample_aenv = \<lparr>cf_AdminSeedsRaw = ''s'', ae_AppEnv = ''dev'', ae_Port = ''8082'', ae_DatabaseURL = ''db'', ae_JWTPrivateKey = ''k'',
     ae_JWTPublicKey = ''K''\<rparr>"

definition seeds_json :: "string \<Rightarrow> json option" where
  "seeds_json t = Some (JArr [JObj [(''email'', JStr ''a@x''), (''password'', JStr ''p''), (''name'', JStr ''A'')],
     JObj [(''email'', JStr ''c@x''), (''password'', JStr ''p''), (''name'', JStr ''C'')]])"

abbreviation start_auth :: "auth_db world \<Rightarrow> (config_error start_error + auth_process) \<times> auth_db world" where
  "start_auth \<equiv> auth_main (Inr sample_aenv) sample_sdk sample_pgx (\<lambda>a b. Inr (au_crypto sample_auth)) seeds_json sample_validator"

lemma sample_auth_start: "\<not> isl (fst (start_auth seed_world))" "calm seed_world"
  by code_simp+

theorem auth_starts_witness:
  "\<exists>p w'. start_auth seed_world = (Inr p, w') \<and> {''a@x'', ''c@x''} \<subseteq> emails (db w') \<and> start_auth w' = (Inr p, w')"
proof -
  obtain p w' where p: "start_auth seed_world = (Inr p, w')"
    using sample_auth_start(1) by (cases "start_auth seed_world"; cases "fst (start_auth seed_world)") auto
  have "AdminSeeds seeds_json (Config.truncate sample_aenv) =
      Inr [\<lparr>as_Email = ''a@x'', as_Password = ''p'', as_Name = ''A''\<rparr>, \<lparr>as_Email = ''c@x'', as_Password = ''p'', as_Name = ''C''\<rparr>]"
    by code_simp
  with auth_starts_with_admins [OF sample_auth_start(2) p] p show ?thesis by auto
qed

end
