(* ===== verification/Kafka_Trace.thy ===== *)
theory Kafka_Trace
  imports Outbox
begin

text \<open>
  How a trace crosses Kafka: \<^verbatim>\<open>headerCarrier\<close>, \<^verbatim>\<open>injectContext\<close> and \<^verbatim>\<open>startConsumerSpan\<close> of
  \<^verbatim>\<open>pkg/kafka/otel.go\<close>, \<^verbatim>\<open>Producer.Produce\<close> of \<^verbatim>\<open>pkg/kafka/kafka.go\<close>, and the parts of \<^verbatim>\<open>pkg/outbox\<close> that
  store the trace with a row and restore it before the row is published. The OpenTelemetry library
  is an argument; \<open>propagator_law\<close> states the documented behaviour of its W3C propagator.
\<close>

section \<open>Headers as a carrier\<close>

record Header =
  hd_Key :: string
  hd_Value :: string

fun carrier_Get :: "Header list \<Rightarrow> string \<Rightarrow> string" where
  "carrier_Get [] key = ''''"
| "carrier_Get (h # hs) key = (if hd_Key h = key then hd_Value h else carrier_Get hs key)"

fun carrier_Set :: "string \<Rightarrow> string \<Rightarrow> Header list \<Rightarrow> Header list" where
  "carrier_Set key val [] = [\<lparr>hd_Key = key, hd_Value = val\<rparr>]"
| "carrier_Set key val (h # hs) = (if hd_Key h = key then h\<lparr>hd_Value := val\<rparr> # hs else h # carrier_Set key val hs)"

definition carrier_Keys :: "Header list \<Rightarrow> string list" where
  "carrier_Keys hs = map hd_Key hs"

text \<open>A propagator sets its fields on the carrier one after the other.\<close>

fun set_fields :: "(string \<Rightarrow> string \<Rightarrow> 'm \<Rightarrow> 'm) \<Rightarrow> (string \<times> string) list \<Rightarrow> 'm \<Rightarrow> 'm" where
  "set_fields Set [] m = m"
| "set_fields Set ((k, v) # kvs) m = set_fields Set kvs (Set k v m)"

text \<open>
  What a propagator may expect of a \<^verbatim>\<open>TextMapCarrier\<close>: a key that was set has its value, the other keys
  keep theirs, and setting adds no key but its own.
\<close>

locale text_map_carrier =
  fixes Get :: "'m \<Rightarrow> string \<Rightarrow> string" and Set :: "string \<Rightarrow> string \<Rightarrow> 'm \<Rightarrow> 'm" and Keys :: "'m \<Rightarrow> string list"
  assumes get_set: "Get (Set k v m) k = v"
    and get_other: "k \<noteq> k' \<Longrightarrow> Get (Set k v m) k' = Get m k'"
    and set_keys: "set (Keys (Set k v m)) = insert k (set (Keys m))"
    and get_absent: "k \<notin> set (Keys m) \<Longrightarrow> Get m k = ''''"
begin

lemma inject_other: "k \<notin> fst ` set kvs \<Longrightarrow> Get (set_fields Set kvs m) k = Get m k"
  by (induction kvs arbitrary: m) (auto simp: get_other image_iff)

lemma inject_field: "distinct (map fst kvs) \<Longrightarrow> (k, v) \<in> set kvs \<Longrightarrow> Get (set_fields Set kvs m) k = v"
proof (induction kvs arbitrary: m)
  case (Cons kv kvs)
  obtain k1 v1 where kv: "kv = (k1, v1)" by (cases kv)
  show ?case
  proof (cases "k = k1")
    case True
    with Cons.prems kv have "v = v1" "k \<notin> fst ` set kvs" by force+
    with inject_other [of k kvs "Set k1 v1 m"] True kv show ?thesis by (simp add: get_set)
  qed (use Cons kv in auto)
qed simp

lemma inject_keys: "set (Keys (set_fields Set kvs m)) = fst ` set kvs \<union> set (Keys m)"
  by (induction kvs arbitrary: m) (force simp: set_keys)+

end

lemma carrier_Set_keys: "carrier_Keys (carrier_Set k v hs) = (if k \<in> set (carrier_Keys hs) then carrier_Keys hs else carrier_Keys hs @ [k])"
  unfolding carrier_Keys_def by (induction hs) auto

interpretation kafka_headers: text_map_carrier carrier_Get carrier_Set carrier_Keys
proof unfold_locales
  fix k k' v :: string and m :: "Header list"
  show "carrier_Get (carrier_Set k v m) k = v" by (induction m) auto
  show "k \<noteq> k' \<Longrightarrow> carrier_Get (carrier_Set k v m) k' = carrier_Get m k'" by (induction m) auto
  show "set (carrier_Keys (carrier_Set k v m)) = insert k (set (carrier_Keys m))" by (auto simp: carrier_Set_keys)
  show "k \<notin> set (carrier_Keys m) \<Longrightarrow> carrier_Get m k = ''''" by (induction m) (auto simp: carrier_Keys_def)
qed

text \<open>A header that is there keeps its place and no key comes twice.\<close>

lemma carrier_Set_distinct: "distinct (carrier_Keys hs) \<Longrightarrow> distinct (carrier_Keys (carrier_Set k v hs))"
  by (auto simp: carrier_Set_keys)

section \<open>Contexts\<close>

text \<open>
  A context of the library is a value of type \<open>'c\<close>: the fields \<^verbatim>\<open>Inject\<close> sets for it, the context that
  \<^verbatim>\<open>Extract\<close> makes of a parent and a carrier, and the context with a new span.
\<close>

record 'c otel =
  ot_fields :: "'c \<Rightarrow> (string \<times> string) list"
  ot_extract :: "'c \<Rightarrow> (string \<Rightarrow> string) \<Rightarrow> 'c"
  ot_start :: "'c \<Rightarrow> string \<Rightarrow> 'c"

definition injectContext :: "'c otel \<Rightarrow> 'c \<Rightarrow> Header list \<Rightarrow> Header list" where
  "injectContext ot ctx headers = set_fields carrier_Set (ot_fields ot ctx) headers"

record traced_msg =
  tm_Topic :: string
  tm_Key :: string
  tm_Value :: json
  tm_Headers :: "Header list"

text \<open>\<^verbatim>\<open>write\<close> is \<^verbatim>\<open>Writer.WriteMessages\<close>; a payload that is JSON already is marshalled to itself.\<close>

definition Produce :: "'c otel \<Rightarrow> (traced_msg \<Rightarrow> 's \<Rightarrow> string option \<times> 's) \<Rightarrow> 'c \<Rightarrow> string \<Rightarrow> string \<Rightarrow> json \<Rightarrow> 's \<Rightarrow> string option \<times> 's" where
  "Produce ot write ctx topic key payload s =
     (let msg = \<lparr>tm_Topic = topic, tm_Key = key, tm_Value = payload, tm_Headers = injectContext ot ctx []\<rparr>
      in case write msg s of
           (Some err, s') \<Rightarrow> (Some (''failed to write kafka message to '' @ topic @ '': '' @ err), s')
         | (None, s') \<Rightarrow> (None, s'))"

definition startConsumerSpan :: "'c otel \<Rightarrow> 'c \<Rightarrow> traced_msg \<Rightarrow> 'c" where
  "startConsumerSpan ot ctx msg =
     (let parent = ot_extract ot ctx (carrier_Get (tm_Headers msg))
      in ot_start ot parent (tm_Topic msg @ '' process''))"

text \<open>The column \<^verbatim>\<open>trace_context\<close> of a row, from the context of the request that queues it.\<close>

definition trace_column :: "'c otel \<Rightarrow> 'c \<Rightarrow> string option" where
  "trace_column ot ctx =
     (let carrier = (\<lambda>k. case map_of (rev (ot_fields ot ctx)) k of None \<Rightarrow> '''' | Some v \<Rightarrow> v);
          tc = carrier ''traceparent''
      in if tc \<noteq> '''' then Some tc else None)"

text \<open>\<^verbatim>\<open>Worker.publish\<close>: the trace of the row, a span of the worker, and the message.\<close>

definition worker_publish ::
    "'c otel \<Rightarrow> (traced_msg \<Rightarrow> 's \<Rightarrow> string option \<times> 's) \<Rightarrow> 'c \<Rightarrow> outbox_row \<Rightarrow> 's \<Rightarrow> string option \<times> 's" where
  "worker_publish ot write ctx row s =
     (let publishCtx = (case ob_TraceContext row of
            Some tc \<Rightarrow> if tc \<noteq> '''' then ot_extract ot ctx (\<lambda>k. if k = ''traceparent'' then tc else '''') else ctx
          | None \<Rightarrow> ctx);
          publishCtx = ot_start ot publishCtx (ob_Topic row @ '' publish'')
      in Produce ot write publishCtx (ob_Topic row) (ob_Key row) (ob_Payload row) s)"

section \<open>One trace\<close>

text \<open>
  The valid span context of a context: the trace, the current span of it, and whether it is sampled.
\<close>

record span_context =
  sc_TraceID :: string
  sc_SpanID :: string
  sc_Sampled :: bool

text \<open>
  The W3C propagator: it sets each field once, among them \<^verbatim>\<open>traceparent\<close> with the trace, the current span
  and the sampling flag of a context that has a span; these can be parsed again, an absent header
  cannot. \<^verbatim>\<open>Extract\<close> takes the span context from a \<^verbatim>\<open>traceparent\<close> that parses, and otherwise leaves the
  parent's. A started span belongs to the trace of its context; it has an identifier of its own,
  and the sampler decides on its flag.
\<close>

definition propagator_law ::
    "('c \<Rightarrow> span_context option) \<Rightarrow> (span_context \<Rightarrow> string) \<Rightarrow> (string \<Rightarrow> span_context option) \<Rightarrow> 'c otel \<Rightarrow> bool" where
  "propagator_law span fmt parse ot \<longleftrightarrow>
     (\<forall>c. distinct (map fst (ot_fields ot c))) \<and>
     (\<forall>c p. span c = Some p \<longrightarrow> (''traceparent'', fmt p) \<in> set (ot_fields ot c) \<and> parse (fmt p) = Some p) \<and>
     parse '''' = None \<and>
     (\<forall>c get. span (ot_extract ot c get) = (case parse (get ''traceparent'') of Some p \<Rightarrow> Some p | None \<Rightarrow> span c)) \<and>
     (\<forall>c n p. span c = Some p \<longrightarrow> (\<exists>p'. span (ot_start ot c n) = Some p' \<and> sc_TraceID p' = sc_TraceID p))"

lemma propagator_lawD:
  assumes "propagator_law span fmt parse ot"
  shows "distinct (map fst (ot_fields ot c))" "span c = Some p \<Longrightarrow> (''traceparent'', fmt p) \<in> set (ot_fields ot c)"
    "span c = Some p \<Longrightarrow> parse (fmt p) = Some p" "parse '''' = None"
    "span (ot_extract ot c get) = (case parse (get ''traceparent'') of Some p \<Rightarrow> Some p | None \<Rightarrow> span c)"
    "span c = Some p \<Longrightarrow> \<exists>p'. span (ot_start ot c n) = Some p' \<and> sc_TraceID p' = sc_TraceID p"
  using assms unfolding propagator_law_def by blast+

lemma trace_column_some:
  assumes "propagator_law span fmt parse ot" "span c = Some p"
  shows "trace_column ot c = Some (fmt p)" "fmt p \<noteq> ''''"
proof -
  note law = propagator_lawD [OF assms(1)]
  show ne: "fmt p \<noteq> ''''" using law(3) [OF assms(2)] law(4) by (metis option.distinct(1))
  have "map_of (rev (ot_fields ot c)) ''traceparent'' = Some (fmt p)"
    by (rule map_of_is_SomeI) (use law(1,2) assms(2) in \<open>simp_all add: rev_map [symmetric]\<close>)
  then show "trace_column ot c = Some (fmt p)" using ne by (simp add: trace_column_def)
qed

lemma inject_parent:
  assumes "propagator_law span fmt parse ot" "span c = Some p"
  shows "parse (carrier_Get (injectContext ot c hs) ''traceparent'') = Some p"
proof -
  have "carrier_Get (injectContext ot c hs) ''traceparent'' = fmt p"
    unfolding injectContext_def
    by (rule kafka_headers.inject_field) (use propagator_lawD(1,2) [OF assms(1)] assms(2) in auto)
  then show ?thesis using propagator_lawD(3) [OF assms] by simp
qed

lemma injectContext_distinct: "distinct (carrier_Keys hs) \<Longrightarrow> distinct (carrier_Keys (injectContext ot c hs))"
proof -
  have "distinct (carrier_Keys (set_fields carrier_Set kvs hs))" if "distinct (carrier_Keys hs)" for kvs hs
    using that by (induction kvs arbitrary: hs) (auto simp: carrier_Set_distinct)
  then show "distinct (carrier_Keys hs) \<Longrightarrow> distinct (carrier_Keys (injectContext ot c hs))" by (simp add: injectContext_def)
qed


text \<open>
  A propagator that writes the trace, the current span and the flag, for contexts that are a span context or
  nothing. Every span it starts has an identifier of its own.
\<close>

definition sample_fmt :: "span_context \<Rightarrow> string" where
  "sample_fmt p = (if sc_Sampled p then CHR ''1'' else CHR ''0'') # sc_TraceID p @ CHR ''-'' # sc_SpanID p"

definition sample_parse :: "string \<Rightarrow> span_context option" where
  "sample_parse s = (case s of
       [] \<Rightarrow> None
     | f # r \<Rightarrow> Some \<lparr>sc_TraceID = takeWhile (\<lambda>c. c \<noteq> CHR ''-'') r, sc_SpanID = tl (dropWhile (\<lambda>c. c \<noteq> CHR ''-'') r), sc_Sampled = (f = CHR ''1'')\<rparr>)"

definition sample_span :: "span_context option \<Rightarrow> span_context option" where
  "sample_span c = (case c of None \<Rightarrow> None | Some p \<Rightarrow> if CHR ''-'' \<in> set (sc_TraceID p) then None else Some p)"

definition sample_otel :: "span_context option otel" where
  "sample_otel =
     \<lparr>ot_fields = (\<lambda>c. case sample_span c of None \<Rightarrow> [] | Some p \<Rightarrow> [(''traceparent'', sample_fmt p), (''baggage'', '''')]),
      ot_extract = (\<lambda>c get. case sample_parse (get ''traceparent'') of None \<Rightarrow> c | Some p \<Rightarrow> Some p),
      ot_start = (\<lambda>c n. map_option (\<lambda>p. p\<lparr>sc_SpanID := n @ CHR ''/'' # sc_SpanID p\<rparr>) c)\<rparr>"

lemma sample_round_trip: "CHR ''-'' \<notin> set (sc_TraceID p) \<Longrightarrow> sample_parse (sample_fmt p) = Some p"
proof -
  assume p: "CHR ''-'' \<notin> set (sc_TraceID p)"
  have "\<forall>x \<in> set (sc_TraceID p). x \<noteq> CHR ''-''" using p by metis
  then have "takeWhile (\<lambda>c. c \<noteq> CHR ''-'') (sc_TraceID p @ CHR ''-'' # r) = sc_TraceID p"
    "dropWhile (\<lambda>c. c \<noteq> CHR ''-'') (sc_TraceID p @ CHR ''-'' # r) = CHR ''-'' # r" for r
    by (subst takeWhile_append2 dropWhile_append2; simp)+
  then show ?thesis by (cases p) (simp add: sample_parse_def sample_fmt_def)
qed

lemma sample_parse_valid: "sample_parse s = Some p \<Longrightarrow> CHR ''-'' \<notin> set (sc_TraceID p)"
  by (auto simp: sample_parse_def split: list.splits dest: set_takeWhileD)

lemma sample_otel_law: "propagator_law sample_span sample_fmt sample_parse sample_otel"
  unfolding propagator_law_def
proof (intro conjI allI impI)
  fix c p get n
  show "distinct (map fst (ot_fields sample_otel c))" by (simp add: sample_otel_def split: option.split)
  assume p: "sample_span c = Some p"
  then have "CHR ''-'' \<notin> set (sc_TraceID p)" "c = Some p" by (auto simp: sample_span_def split: option.splits if_splits)
  then show "(''traceparent'', sample_fmt p) \<in> set (ot_fields sample_otel c)" "sample_parse (sample_fmt p) = Some p"
    "\<exists>p'. sample_span (ot_start sample_otel c n) = Some p' \<and> sc_TraceID p' = sc_TraceID p"
    by (simp_all add: sample_round_trip sample_otel_def sample_span_def)
next
  fix c get
  show "sample_span (ot_extract sample_otel c get) = (case sample_parse (get ''traceparent'') of Some p \<Rightarrow> Some p | None \<Rightarrow> sample_span c)"
    using sample_parse_valid [of "get ''traceparent''"] by (auto simp: sample_otel_def sample_span_def split: option.split)
qed (simp add: sample_parse_def)


end
