(* ===== verification/Spec2Isabelle.thy ===== *)
theory Spec2Isabelle
  imports Cancelled_Samples Payment_Race_Samples Startup_Samples Kafka_Trace
begin

text \<open>
  A verification of the TicketSaas back end: three Go services that sell tickets of events. The
  auth service keeps users and tokens, the ticketing service events, seats and bookings, the
  payment service transactions and refunds. A reservation takes seats, stores a pending booking and
  opens a transaction in the payment service over HTTP. What becomes of the payment travels back
  through an outbox table, Kafka and a consumer, which confirms the booking or frees its seats.

  \<^bold>\<open>How code is modelled.\<close> \<open>Go_Prelude\<close>: a service runs in a \<open>world\<close>, its database together with a
  schedule of faults, the identifiers that will be drawn and the readings of the clock. An operation
  maps a world to an error or a result and a world. A statement is a function on the tables; the
  schedule decides whether it is executed, fails before, or takes effect while its reply is lost. A
  transaction keeps nothing unless it commits. The 64-bit arithmetic of \<^verbatim>\<open>int\<close> is \<open>wrap64\<close>. The rules
  for invariants (\<open>preserves\<close>), for pre- and postconditions (\<open>hoare\<close>) and for operations that only
  read hold for every schedule; statements about a healthy database assume an empty one (\<open>calm\<close>).
  \<open>Dto\<close> holds \<^verbatim>\<open>pkg/dto\<close> with the JSON form of the payloads, \<open>Http\<close> holds \<^verbatim>\<open>pkg/http\<close> and the parts
  of the standard library that handlers use.

  \<^bold>\<open>Outbox and Kafka.\<close> \<open>Outbox\<close> models \<^verbatim>\<open>pkg/outbox\<close>: no row is marked delivered whose message did
  not reach the broker, and the backlog drains. \<open>Consumers\<close> models the consuming loop of
  \<^verbatim>\<open>pkg/kafka\<close> and the consumers of both services, \<open>Kafka_Topics\<close> the creation of the topics at
  the start, \<open>Kafka_Trace\<close> how the trace of a request travels with its message; the contract of the
  carrier of the headers is the locale \<open>text_map_carrier\<close>.

  \<^bold>\<open>Processes.\<close> \<open>Telemetry\<close> models \<^verbatim>\<open>pkg/telemetry\<close>, \<^verbatim>\<open>pkg/log\<close> and the access log of \<^verbatim>\<open>pkg/http\<close>, which is
  transparent to the handlers. \<open>Startup\<close> models \<^verbatim>\<open>pkg/db\<close> and the start of the three services
  (\<^verbatim>\<open>cmd/api/main.go\<close>), every exit included, and shows what holds once they serve.

  \<^bold>\<open>Ticketing.\<close> \<open>Ticketing_Store\<close> (\<^verbatim>\<open>domain\<close> and the constraints of the migrations), \<open>Seat_Counter\<close>,
  \<open>Booking_Repo\<close>, \<open>Event_Repo\<close> (\<^verbatim>\<open>postgres\<close>), \<open>Booking_Service\<close>, \<open>Event_Service\<close> (\<^verbatim>\<open>application\<close>),
  \<open>Ticketing_Handlers\<close> (\<^verbatim>\<open>handler\<close>, \<^verbatim>\<open>config\<close>), \<open>Payment_Client\<close> (\<^verbatim>\<open>payment/client.go\<close>). The contract
  of the seat counter is the locale \<open>seat_ledger\<close>, that of a guarded status column
  \<open>guarded_status\<close> (\<open>Guarded_Status\<close>), that of what the three transitions of a booking keep
  \<open>booking_invariant\<close>. \<open>Reservation\<close> and \<open>Reservation_Paths\<close> prove what \<^verbatim>\<open>Reserve\<close> does on its
  paths, \<open>Reservation_Bounds\<close> that no price overflows; \<open>Ticketing_Requests\<close> says which requests may do what.

  \<^bold>\<open>Payment.\<close> \<open>Payment_Store\<close>, \<open>Payment_Service\<close>, \<open>Payment_Handlers\<close>, \<open>Payment_Processors\<close> follow the
  packages of the service. \<open>Payment_Invariant\<close> proves over all sequences of calls that a transaction
  has one outcome, \<open>Payment_Paths\<close> what each operation does on a healthy database.

  \<^bold>\<open>Auth.\<close> \<open>Auth_Store\<close>, \<open>Auth_Service\<close>, \<open>Auth_Handlers\<close> follow the packages, \<open>Auth_Props\<close> holds the
  properties of tokens and accounts. The locales \<open>one_time_tokens\<close> and \<open>auth_invariant\<close> are
  interpreted on the refresh tokens and on two invariants of the tables.

  \<^bold>\<open>The whole.\<close> \<open>Booking_Refinement\<close> states what the ticketing service promises as an abstract
  ledger of statuses and free seats and proves that the consumers refine it. \<open>Responses\<close> shows the form of every answer
  of every route. \<open>Payment_Client\<close>, \<open>System\<close>, \<open>Paid_Booking\<close> and \<open>Cancelled_Event\<close> compose the services: a
  successful reservation has its transaction, an expired payment frees its seats, a completed one
  becomes tickets, a cancelled event frees the seats of all its bookings and refunds its payments;
  \<open>Settled_Bookings\<close> holds what they share. The theories whose names end in \<open>Samples\<close> evaluate the
  properties on small databases.

  \<^bold>\<open>Concurrency.\<close> \<open>Interleaving\<close> runs the booking service as the processes do: every request and
  message is a thread whose atomic steps are the repository calls of the code, on what it read
  before, which may be stale. \<open>Thread_Pool\<close> has the interleavings of any such threads and the locale
  \<open>interference_free\<close>, interpreted on the threads of the booking service: seats in the hands of
  unfinished reservations are counted, so no interleaving oversells. \<open>Payment_Interleaving\<close> does the
  same for the payment service, where what is counted are the announcements that threads still owe:
  no interleaving of webhooks, polls, calls and messages gives a transaction two outcomes. Each
  operation as a whole is shown to be a run of its thread, by the rules \<open>follow\<close>. A transaction of
  PostgreSQL is one step; it holds the locks of the rows it changed until it commits. The event
  service and the auth service are modelled one call at a time: what is said about sequences of their
  calls (\<open>event_reach\<close>, the histories of tokens) does not cover calls that overlap, and there it can be false,
  which is shown by separate lemmas (\<open>stale_edit_unpublishes\<close>, \<open>late_approval_oversells\<close>,
  \<open>refresh_race_both_succeed\<close>). The goroutines of an outbox worker take the rows of a batch in any order, with
  publishing and marking one row as one step, and the workers of a consumer handle messages one
  after another in any order; that their handlers overlap is the subject of the interleavings above.

  \<^bold>\<open>Bounds.\<close> Loops over rows and items are recursive over lists. The tickers of the outbox worker
  and the expiry poller run until the process ends; they take their number of ticks as an argument,
  and the progress theorems say how many are enough: 100 rows are published and 100 overdue
  transactions expired at each tick (\<open>Outbox\<close>, \<open>expiry_poller_settles\<close>). The two attempts of the payment client are a
  recursion with a proved measure.

  \<^bold>\<open>Parameters.\<close> Code outside the repository is an argument: the payment gateway, the HTTP exchange
  with Xendit, the Kafka reader, broker and administration (\<open>admin_law\<close>), the OpenTelemetry propagator
  (\<open>propagator_law\<close>) and SDK, the connection pool, the reading of the environment, the validator library (\<open>validator_law\<close>,
  \<open>ticketing_validator_law\<close> state the documented meaning of the tags used), bcrypt and JWT
  (\<open>bcrypt_law\<close>, \<open>jwt_law\<close>, and \<open>jwt_sound\<close>: a token accepted under the RSA key was issued with it), the network
  between the services.

  \<^bold>\<open>Not modelled.\<close> The SQL text is not parsed: each statement was translated by hand. PostgreSQL leaves the
  order of rows with equal keys open, the model keeps the order of insertion there; the pages of
  the public list, which would depend on it, are only read under distinct start times
  (\<open>order_asc_unique\<close>), and the other properties do not say in which order such rows are taken. Identifiers need
  not have the syntax of a UUID. Times are not rounded to the microseconds of the database. A
  connection lost while rows are read fails the whole query. JSON names are compared exactly,
  numbers with a fraction and the literal zone letter of some formats are not represented.
  The text of log lines, the attributes of spans, the buckets of histograms, signals and the
  closing of connections at the end of a process, the redis client, which no service uses, the
  router's matching of paths, the frontend, tests, fixtures and generated mocks are left out.
\<close>

end
